(* ===== verification/Prelude.thy ===== *)
theory Prelude
  imports Main "HOL-Library.AList" "HOL-Library.Word"
begin

text \<open>
  Shared ground of the development: Go maps as association lists, and the generic
  lemmas on lists, options and separators that the component theories use.

  A Go map is an association list with distinct keys. Reading, storing and deleting are
  \<open>map_of\<close>, \<open>AList.update\<close> and \<open>AList.delete\<close>. The order of the list is the
  order in which a \<open>for range\<close> loop visits the entries; Go leaves that order
  open, so a theorem about such a loop is stated for an arbitrary list.
\<close>

section \<open>Go maps\<close>

type_synonym ('k, 'v) gomap = "('k \<times> 'v) list"

abbreviation mget :: "('k, 'v) gomap \<Rightarrow> 'k \<Rightarrow> 'v option" where
  "mget m k \<equiv> map_of m k"

abbreviation mput :: "'k \<Rightarrow> 'v \<Rightarrow> ('k, 'v) gomap \<Rightarrow> ('k, 'v) gomap" where
  "mput k v m \<equiv> AList.update k v m"

abbreviation mdel :: "'k \<Rightarrow> ('k, 'v) gomap \<Rightarrow> ('k, 'v) gomap" where
  "mdel k m \<equiv> AList.delete k m"

abbreviation mkeys :: "('k, 'v) gomap \<Rightarrow> 'k set" where
  "mkeys m \<equiv> fst ` set m"

definition gomap_ok :: "('k, 'v) gomap \<Rightarrow> bool" where
  "gomap_ok m \<longleftrightarrow> distinct (map fst m)"

named_theorems gomap_laws "reading, writing and well-formedness of Go maps"

lemma mget_mput [simp, gomap_laws]: "mget (mput k v m) k' = (if k' = k then Some v else mget m k')"
  by (simp add: update_conv')

lemma mget_mdel [simp, gomap_laws]: "mget (mdel k m) k' = (if k' = k then None else mget m k')"
  by (simp add: delete_conv')

lemma gomap_ok_Nil [simp, gomap_laws]: "gomap_ok []"
  by (simp add: gomap_ok_def)

lemma gomap_ok_mput [simp, gomap_laws]: "gomap_ok m \<Longrightarrow> gomap_ok (mput k v m)"
  by (simp add: gomap_ok_def distinct_update)

lemma gomap_ok_mdel [simp, gomap_laws]: "gomap_ok m \<Longrightarrow> gomap_ok (mdel k m)"
  by (simp add: gomap_ok_def distinct_delete)

lemma mget_eq_None_iff: "mget m k = None \<longleftrightarrow> k \<notin> mkeys m"
  by (simp add: map_of_eq_None_iff)

lemma mget_Some_key: "mget m k = Some v \<Longrightarrow> k \<in> mkeys m"
  by (force dest: map_of_SomeD)

lemma mget_Some_iff: "gomap_ok m \<Longrightarrow> mget m k = Some v \<longleftrightarrow> (k, v) \<in> set m"
  by (simp add: gomap_ok_def)

lemma mkeys_mput [simp]: "mkeys (mput k v m) = insert k (mkeys m)"
  by (simp add: dom_update)

lemma mkeys_mdel [simp]: "mkeys (mdel k m) = mkeys m - {k}"
  by (auto simp: AList.delete_eq)

lemma set_mput: "gomap_ok m \<Longrightarrow> set (mput k v m) = {e \<in> set m. fst e \<noteq> k} \<union> {(k, v)}"
  by (induction m) (auto simp: gomap_ok_def image_iff)

lemma set_mdel: "set (mdel k m) = {e \<in> set m. fst e \<noteq> k}"
  by (auto simp: AList.delete_eq)

lemma mput_ne_Nil [simp]: "mput k v m \<noteq> []"
  by (cases m) (auto split: if_splits)

section \<open>Separators\<close>

text \<open>A separator that does not occur behind it is the last one: both halves are determined.\<close>

lemma last_sep_eq:
  assumes "xs @ c # ys = xs' @ c # ys'" and "c \<notin> set ys" and "c \<notin> set ys'"
  shows "xs = xs' \<and> ys = ys'"
proof -
  have "rev ys @ c # rev xs = rev ys' @ c # rev xs'"
    using arg_cong [OF assms(1), of rev] by simp
  moreover have "takeWhile (\<lambda>x. x \<noteq> c) (rev ys @ c # rev xs) = rev ys"
    using assms(2) by (subst takeWhile_append2) auto
  moreover have "takeWhile (\<lambda>x. x \<noteq> c) (rev ys' @ c # rev xs') = rev ys'"
    using assms(3) by (subst takeWhile_append2) auto
  ultimately have "ys = ys'" by simp
  with assms(1) show ?thesis by simp
qed

lemma first_sep_eq:
  assumes "xs @ c # ys = xs' @ c # ys'" and "c \<notin> set xs" and "c \<notin> set xs'"
  shows "xs = xs' \<and> ys = ys'"
  using last_sep_eq [of "rev ys" c "rev xs" "rev ys'" "rev xs'"]
    arg_cong [OF assms(1), of rev] assms(2,3) by simp

end
