(* ===== verification/Go_Strings.thy ===== *)
theory Go_Strings
  imports Prelude
begin

text \<open>
  What the program uses of Go's \<open>strings\<close>, \<open>strconv\<close> and \<open>net\<close> packages. A Go
  string is a sequence of bytes, and so is Isabelle's \<open>string\<close>. \<open>ToUpper\<close> and
  \<open>EqualFold\<close> are modelled on ASCII, which is all that the Gateway API admits in the
  strings they are applied to (protocol names, and annotation values compared with the
  ASCII word true, none of whose letters has a non-ASCII case variant).
\<close>

section \<open>Package strings\<close>

definition HasPrefix :: "string \<Rightarrow> string \<Rightarrow> bool" where
  "HasPrefix s p \<longleftrightarrow> take (length p) s = p"

definition TrimPrefix :: "string \<Rightarrow> string \<Rightarrow> string" where
  "TrimPrefix s p = (if HasPrefix s p then drop (length p) s else s)"

fun Contains :: "string \<Rightarrow> string \<Rightarrow> bool" where
  "Contains [] p \<longleftrightarrow> p = []"
| "Contains (c # s) p \<longleftrightarrow> HasPrefix (c # s) p \<or> Contains s p"

fun IndexByte :: "string \<Rightarrow> char \<Rightarrow> nat option" where
  "IndexByte [] c = None"
| "IndexByte (x # xs) c = (if x = c then Some 0 else map_option Suc (IndexByte xs c))"

definition LastIndexByte :: "string \<Rightarrow> char \<Rightarrow> nat option" where
  "LastIndexByte s c = map_option (\<lambda>j. length s - 1 - j) (IndexByte (rev s) c)"

definition upper_char :: "char \<Rightarrow> char" where
  "upper_char c = (let n = of_char c :: nat in if 97 \<le> n \<and> n \<le> 122 then char_of (n - 32) else c)"

definition ToUpper :: "string \<Rightarrow> string" where
  "ToUpper s = map upper_char s"

definition EqualFold :: "string \<Rightarrow> string \<Rightarrow> bool" where
  "EqualFold s t \<longleftrightarrow> ToUpper s = ToUpper t"

definition ReplaceByte :: "string \<Rightarrow> char \<Rightarrow> char \<Rightarrow> string" where
  "ReplaceByte s old new = map (\<lambda>c. if c = old then new else c) s"

fun Join :: "string list \<Rightarrow> string \<Rightarrow> string" where
  "Join [] sep = []"
| "Join [x] sep = x"
| "Join (x # xs) sep = x @ sep @ Join xs sep"

lemma HasPrefix_iff: "HasPrefix s p \<longleftrightarrow> (\<exists>t. s = p @ t)"
  by (auto simp: HasPrefix_def) (metis append_take_drop_id)

lemma HasPrefix_append [simp]: "HasPrefix (p @ t) p"
  by (simp add: HasPrefix_def)

lemma TrimPrefix_append [simp]: "TrimPrefix (p @ t) p = t"
  by (simp add: TrimPrefix_def)

lemma Contains_iff: "Contains s p \<longleftrightarrow> (\<exists>a b. s = a @ p @ b)"
proof (induction s)
  case Nil
  then show ?case by simp
next
  case (Cons c s)
  show ?case
    unfolding Contains.simps Cons.IH HasPrefix_iff
    by (metis append_Cons append_Nil append_eq_Cons_conv)
qed

lemma IndexByte_None [simp]: "c \<notin> set s \<Longrightarrow> IndexByte s c = None"
  by (induction s) auto

lemma IndexByte_append: "c \<notin> set xs \<Longrightarrow> IndexByte (xs @ c # ys) c = Some (length xs)"
  by (induction xs) auto

lemma LastIndexByte_append:
  "c \<notin> set ys \<Longrightarrow> LastIndexByte (xs @ c # ys) c = Some (length xs)"
  by (simp add: LastIndexByte_def IndexByte_append)

lemma HasPrefix_Cons [simp]: "HasPrefix (x # s) (c # p) \<longleftrightarrow> x = c \<and> HasPrefix s p"
  by (auto simp: HasPrefix_def)

lemma HasPrefix_Nil [simp]: "HasPrefix s []" "HasPrefix [] p \<longleftrightarrow> p = []"
  by (auto simp: HasPrefix_def)

section \<open>Package strconv\<close>

definition digit_char :: "nat \<Rightarrow> char" where
  "digit_char d = ''0123456789'' ! d"

fun nat_str :: "nat \<Rightarrow> string" where
  "nat_str n = (if n < 10 then [digit_char n] else nat_str (n div 10) @ [digit_char (n mod 10)])"

declare nat_str.simps [simp del]

text \<open>\<open>strconv.Itoa\<close>, which is also what \<open>%d\<close> prints for an int.\<close>

definition Itoa :: "int \<Rightarrow> string" where
  "Itoa i = (if i < 0 then CHR ''-'' # nat_str (nat (- i)) else nat_str (nat i))"

definition digit_val :: "char \<Rightarrow> nat option" where
  "digit_val c = (let n = of_char c :: nat in if 48 \<le> n \<and> n \<le> 57 then Some (n - 48) else None)"

fun parse_digits :: "string \<Rightarrow> nat \<Rightarrow> nat option" where
  "parse_digits [] acc = Some acc"
| "parse_digits (c # cs) acc =
     (case digit_val c of None \<Rightarrow> None | Some d \<Rightarrow> parse_digits cs (10 * acc + d))"

definition parse_int :: "string \<Rightarrow> int option" where
  "parse_int s =
     (let neg = HasPrefix s ''-'';
          ds = (if HasPrefix s ''-'' \<or> HasPrefix s ''+'' then tl s else s)
      in if ds = [] then None
         else map_option (\<lambda>n. if neg then - int n else int n) (parse_digits ds 0))"

text \<open>\<open>strconv.Atoi\<close>: a 64-bit int, or an error for bad syntax or overflow.\<close>

definition Atoi :: "string \<Rightarrow> int option" where
  "Atoi s = (case parse_int s of
       None \<Rightarrow> None
     | Some v \<Rightarrow> if - (2 ^ 63) \<le> v \<and> v < 2 ^ 63 then Some v else None)"

lemma digit_less_10_cases:
  "(d :: nat) < 10 \<Longrightarrow> d = 0 \<or> d = 1 \<or> d = 2 \<or> d = 3 \<or> d = 4 \<or> d = 5 \<or> d = 6 \<or> d = 7 \<or> d = 8 \<or> d = 9"
  by auto

lemma digit_val_digit_char [simp]: "d < 10 \<Longrightarrow> digit_val (digit_char d) = Some d"
  by (drule digit_less_10_cases) (auto simp: digit_char_def digit_val_def)

lemma digit_char_ne [simp]:
  assumes "d < 10"
  shows "digit_char d \<noteq> CHR '':''" "digit_char d \<noteq> CHR ''-''" "digit_char d \<noteq> CHR ''+''"
    "digit_char d \<noteq> CHR ''[''" "digit_char d \<noteq> CHR '']''" "digit_char d \<noteq> CHR ''/''"
  using digit_less_10_cases [OF assms] by (auto simp: digit_char_def)

lemmas digit_char_ne_sym [simp] = digit_char_ne [symmetric]

lemma set_nat_str: "set (nat_str n) \<subseteq> digit_char ` {..<10}"
proof (induction n rule: nat_str.induct)
  case (1 n)
  then show ?case by (subst nat_str.simps) auto
qed

lemma nat_str_ne_Nil [simp]: "nat_str n \<noteq> []"
  by (subst nat_str.simps) simp

lemma nat_str_chars: "c \<in> set (nat_str n) \<Longrightarrow> \<exists>d<10. c = digit_char d"
  using set_nat_str [of n] by auto

lemma parse_digits_append:
  "parse_digits (xs @ ys) acc = Option.bind (parse_digits xs acc) (parse_digits ys)"
  by (induction xs arbitrary: acc) (auto split: option.splits)

lemma parse_digits_nat_str: "parse_digits (nat_str n) 0 = Some n"
proof (induction n rule: nat_str.induct)
  case (1 n)
  show ?case
  proof (cases "n < 10")
    case True
    then show ?thesis by (subst nat_str.simps) simp
  next
    case False
    with 1 have "parse_digits (nat_str (n div 10)) 0 = Some (n div 10)" by simp
    with False show ?thesis by (subst nat_str.simps) (simp add: parse_digits_append)
  qed
qed

lemma nat_str_no_sign: "\<not> HasPrefix (nat_str n) ''-'' \<and> \<not> HasPrefix (nat_str n) ''+''"
proof -
  obtain c cs where c: "nat_str n = c # cs"
    by (cases "nat_str n") auto
  then obtain d where "d < 10" "c = digit_char d"
    using nat_str_chars [of c n] by auto
  with c show ?thesis by simp
qed

lemma parse_int_Itoa: "parse_int (Itoa i) = Some i"
  using nat_str_no_sign [of "nat i"]
  by (auto simp: parse_int_def Itoa_def parse_digits_nat_str Let_def)

lemma Itoa_inject [simp]: "Itoa i = Itoa j \<longleftrightarrow> i = j"
  by (metis option.inject parse_int_Itoa)

lemma Atoi_Itoa: "- (2 ^ 63) \<le> i \<Longrightarrow> i < 2 ^ 63 \<Longrightarrow> Atoi (Itoa i) = Some i"
  by (simp add: Atoi_def parse_int_Itoa)

lemma Itoa_no_sep:
  "CHR '':'' \<notin> set (Itoa i)" "CHR ''['' \<notin> set (Itoa i)" "CHR '']'' \<notin> set (Itoa i)"
  "CHR ''/'' \<notin> set (Itoa i)"
  by (auto simp: Itoa_def dest!: nat_str_chars)

section \<open>Package net: host and port\<close>

datatype addr_error = MissingPort | TooManyColons | MissingBracket | UnexpectedBracket

text \<open>
  \<open>net.SplitHostPort\<close>: the port starts after the last colon; a host in brackets may
  contain colons, another host may not; no stray brackets.
\<close>

definition SplitHostPort :: "string \<Rightarrow> addr_error + (string \<times> string)" where
  "SplitHostPort hp = (case LastIndexByte hp (CHR '':'') of
       None \<Rightarrow> Inl MissingPort
     | Some i \<Rightarrow>
        if HasPrefix hp ''['' then
          (case IndexByte hp (CHR '']'') of
             None \<Rightarrow> Inl MissingBracket
           | Some e \<Rightarrow>
              if e + 1 = length hp then Inl MissingPort
              else if e + 1 = i then
                (if CHR ''['' \<in> set (drop 1 hp) \<or> CHR '']'' \<in> set (drop (e + 1) hp)
                 then Inl UnexpectedBracket
                 else Inr (drop 1 (take e hp), drop (i + 1) hp))
              else if hp ! (e + 1) = CHR '':'' then Inl TooManyColons
              else Inl MissingPort)
        else if CHR '':'' \<in> set (take i hp) then Inl TooManyColons
        else if CHR ''['' \<in> set hp \<or> CHR '']'' \<in> set hp then Inl UnexpectedBracket
        else Inr (take i hp, drop (i + 1) hp))"

definition JoinHostPort :: "string \<Rightarrow> string \<Rightarrow> string" where
  "JoinHostPort host port =
     (if CHR '':'' \<in> set host then ''['' @ host @ '']:'' @ port else host @ '':'' @ port)"

lemma SplitHostPort_plain:
  assumes "CHR '':'' \<notin> set h" "CHR ''['' \<notin> set h" "CHR '']'' \<notin> set h"
    and "CHR '':'' \<notin> set p" "CHR ''['' \<notin> set p" "CHR '']'' \<notin> set p"
  shows "SplitHostPort (h @ CHR '':'' # p) = Inr (h, p)"
proof -
  have "\<not> HasPrefix (h @ CHR '':'' # p) ''[''"
    using assms(2) by (cases h) auto
  with assms show ?thesis
    by (simp add: SplitHostPort_def LastIndexByte_append)
qed

text \<open>Splitting what was joined gives the parts back, bracketed IPv6 hosts included.\<close>

lemma SplitHostPort_JoinHostPort:
  assumes "CHR ''['' \<notin> set h" "CHR '']'' \<notin> set h"
    and "CHR '':'' \<notin> set p" "CHR ''['' \<notin> set p" "CHR '']'' \<notin> set p"
  shows "SplitHostPort (JoinHostPort h p) = Inr (h, p)"
proof (cases "CHR '':'' \<in> set h")
  case False
  with assms show ?thesis by (simp add: JoinHostPort_def SplitHostPort_plain)
next
  case True
  let ?s = "CHR ''['' # h @ CHR '']'' # CHR '':'' # p"
  have "LastIndexByte ((CHR ''['' # h @ [CHR '']'']) @ CHR '':'' # p) (CHR '':'')
      = Some (length (CHR ''['' # h @ [CHR '']'']))"
    using assms by (intro LastIndexByte_append) auto
  then have l: "LastIndexByte ?s (CHR '':'') = Some (length h + 2)" by simp
  have "IndexByte ((CHR ''['' # h) @ CHR '']'' # CHR '':'' # p) (CHR '']'')
      = Some (length (CHR ''['' # h))"
    using assms by (intro IndexByte_append) auto
  then have i: "IndexByte ?s (CHR '']'') = Some (length h + 1)" by simp
  show ?thesis
    using True assms l i by (simp add: JoinHostPort_def SplitHostPort_def)
qed

end
