(* ===== verification/Go_Errors.thy ===== *)
theory Go_Errors
  imports Go_Strings
begin

text \<open>
  The error values of both packages (\<open>ssh/ssh_errors.go\<close>, \<open>controllers/errors.go\<close>),
  their texts, and the chain that \<open>errors.As\<close> walks. Go's nil error is \<open>None\<close> of
  \<open>go_error option\<close>; a function with a result and an error returns \<open>go_error + 'a\<close>.
  \<open>Errorf\<close> is an error made from a text alone, \<open>Wrapf\<close> one made with a text and the
  verb \<open>%w\<close>. \<open>ExternalError\<close> stands for an error of the SSH library or the network;
  \<open>NotFoundError\<close>, \<open>ConflictError\<close> and \<open>APIError\<close> are what the Kubernetes API answers.
\<close>

datatype go_error =
    ErrSSHClientNotReady
  | ErrSSHForwardingExists string
  | ErrSSHForwardingNotFound string
  | ErrSessionNotEnabled string
  | ErrSSHConnectionFailed "go_error option"
  | ErrGatewayNotReady string
  | ErrGatewayNotFound string
  | ErrRouteNotFound string
  | Errorf string
  | Wrapf string go_error
  | ExternalError string
  | NotFoundError string
  | ConflictError string
  | APIError string

fun ErrorText :: "go_error \<Rightarrow> string" where
  "ErrorText ErrSSHClientNotReady = ''ssh client not connected''"
| "ErrorText (ErrSSHForwardingExists key) = ''forwarding already exists: '' @ key"
| "ErrorText (ErrSSHForwardingNotFound key) = ''forwarding not found: '' @ key"
| "ErrorText (ErrSessionNotEnabled kind) = ''session not enabled: '' @ kind"
| "ErrorText (ErrSSHConnectionFailed None) = ''failed to connect to SSH server''"
| "ErrorText (ErrSSHConnectionFailed (Some e)) = ''failed to connect to SSH server: '' @ ErrorText e"
| "ErrorText (ErrGatewayNotReady msg) = ''gateway not ready: '' @ msg"
| "ErrorText (ErrGatewayNotFound msg) = ''gateway not found: '' @ msg"
| "ErrorText (ErrRouteNotFound msg) = ''route not found: '' @ msg"
| "ErrorText (Errorf msg) = msg"
| "ErrorText (Wrapf msg e) = msg @ '': '' @ ErrorText e"
| "ErrorText (ExternalError msg) = msg"
| "ErrorText (NotFoundError msg) = msg"
| "ErrorText (ConflictError msg) = msg"
| "ErrorText (APIError msg) = msg"

fun Unwrap :: "go_error \<Rightarrow> go_error option" where
  "Unwrap (ErrSSHConnectionFailed e) = e"
| "Unwrap (Wrapf msg e) = Some e"
| "Unwrap _ = None"

lemma Unwrap_smaller: "Unwrap e = Some e' \<Longrightarrow> size e' < size e"
  by (cases e) auto

text \<open>\<open>errors.As\<close>: is there an error of the wanted type on the chain of unwrapped errors?\<close>

function errors_As :: "(go_error \<Rightarrow> bool) \<Rightarrow> go_error \<Rightarrow> bool" where
  "errors_As is_target e =
     (is_target e \<or> (case Unwrap e of None \<Rightarrow> False | Some e' \<Rightarrow> errors_As is_target e'))"
  by pat_completeness auto
termination
  by (relation "measure (\<lambda>(p, e). size e)") (auto dest: Unwrap_smaller)

declare errors_As.simps [simp del]

fun is_NotReadySSH :: "go_error \<Rightarrow> bool" where
  "is_NotReadySSH ErrSSHClientNotReady = True"
| "is_NotReadySSH _ = False"

fun is_ForwardingExists :: "go_error \<Rightarrow> bool" where
  "is_ForwardingExists (ErrSSHForwardingExists _) = True"
| "is_ForwardingExists _ = False"

fun is_GatewayNotReady :: "go_error \<Rightarrow> bool" where
  "is_GatewayNotReady (ErrGatewayNotReady _) = True"
| "is_GatewayNotReady _ = False"

fun is_GatewayNotFound :: "go_error \<Rightarrow> bool" where
  "is_GatewayNotFound (ErrGatewayNotFound _) = True"
| "is_GatewayNotFound _ = False"

fun is_RouteNotFound :: "go_error \<Rightarrow> bool" where
  "is_RouteNotFound (ErrRouteNotFound _) = True"
| "is_RouteNotFound _ = False"

fun is_NotFound :: "go_error \<Rightarrow> bool" where
  "is_NotFound (NotFoundError _) = True"
| "is_NotFound _ = False"

text \<open>Plain errors are found as they are; wrapping keeps what was found and hides nothing.\<close>

named_theorems errors_As_simps "what errors.As finds in each kind of error"

lemma errors_As_Wrapf [simp, errors_As_simps]:
  "errors_As p (Wrapf msg e) \<longleftrightarrow> p (Wrapf msg e) \<or> errors_As p e"
  by (subst errors_As.simps) simp

lemma errors_As_ConnectionFailed [simp, errors_As_simps]:
  "errors_As p (ErrSSHConnectionFailed e) \<longleftrightarrow>
     p (ErrSSHConnectionFailed e) \<or> (\<exists>e'. e = Some e' \<and> errors_As p e')"
  by (subst errors_As.simps) (auto split: option.splits)

lemma errors_As_leaf [errors_As_simps]: "Unwrap e = None \<Longrightarrow> errors_As p e \<longleftrightarrow> p e"
  by (subst errors_As.simps) simp

lemma errors_As_leaves [simp, errors_As_simps]:
  "errors_As p ErrSSHClientNotReady \<longleftrightarrow> p ErrSSHClientNotReady"
  "errors_As p (ErrSSHForwardingExists k) \<longleftrightarrow> p (ErrSSHForwardingExists k)"
  "errors_As p (ErrSSHForwardingNotFound k) \<longleftrightarrow> p (ErrSSHForwardingNotFound k)"
  "errors_As p (ErrSessionNotEnabled k) \<longleftrightarrow> p (ErrSessionNotEnabled k)"
  "errors_As p (ErrGatewayNotReady k) \<longleftrightarrow> p (ErrGatewayNotReady k)"
  "errors_As p (ErrGatewayNotFound k) \<longleftrightarrow> p (ErrGatewayNotFound k)"
  "errors_As p (ErrRouteNotFound k) \<longleftrightarrow> p (ErrRouteNotFound k)"
  "errors_As p (Errorf k) \<longleftrightarrow> p (Errorf k)"
  "errors_As p (ExternalError k) \<longleftrightarrow> p (ExternalError k)"
  "errors_As p (NotFoundError k) \<longleftrightarrow> p (NotFoundError k)"
  "errors_As p (ConflictError k) \<longleftrightarrow> p (ConflictError k)"
  "errors_As p (APIError k) \<longleftrightarrow> p (APIError k)"
  by (simp_all add: errors_As_leaf)

end
