(* ===== verification/Ssh_Types.thy ===== *)
theory Ssh_Types
  imports Go_Errors
begin

text \<open>
  The data of package \<open>ssh\<close>: session kinds and flags (\<open>ssh_session_pool.go\<close>,
  \<open>ssh_tunnel_manager.go\<close>), the forwarding configuration and its key.
\<close>

section \<open>Session kinds\<close>

text \<open>The three constants of \<open>SessionKind\<close>; the zero value of the Go type is \<open>SessionPlain\<close>.\<close>

datatype SessionKind = SessionPlain | SessionProxyProto | SessionSNIProxy

fun SessionKind_iota :: "SessionKind \<Rightarrow> nat" where
  "SessionKind_iota SessionPlain = 0"
| "SessionKind_iota SessionProxyProto = 1"
| "SessionKind_iota SessionSNIProxy = 2"

fun SessionKind_String :: "SessionKind \<Rightarrow> string" where
  "SessionKind_String SessionPlain = ''plain''"
| "SessionKind_String SessionProxyProto = ''pp''"
| "SessionKind_String SessionSNIProxy = ''sni''"

lemma SessionKind_iota_inject [simp]: "SessionKind_iota k = SessionKind_iota k' \<longleftrightarrow> k = k'"
  by (cases k; cases k') auto

lemma SessionKind_String_inject [simp]: "SessionKind_String k = SessionKind_String k' \<longleftrightarrow> k = k'"
  by (cases k; cases k') auto

instantiation SessionKind :: linorder
begin

definition less_eq_SessionKind :: "SessionKind \<Rightarrow> SessionKind \<Rightarrow> bool" where
  "less_eq_SessionKind k k' \<longleftrightarrow> SessionKind_iota k \<le> SessionKind_iota k'"

definition less_SessionKind :: "SessionKind \<Rightarrow> SessionKind \<Rightarrow> bool" where
  "less_SessionKind k k' \<longleftrightarrow> SessionKind_iota k < SessionKind_iota k'"

instance
  by intro_classes (auto simp: less_eq_SessionKind_def less_SessionKind_def)

end

section \<open>Session flags\<close>

record SessionFlags =
  ProxyProtocolVersion :: int
  SNIProxy :: bool

definition noFlags :: SessionFlags where
  "noFlags = \<lparr>ProxyProtocolVersion = 0, SNIProxy = False\<rparr>"

text \<open>The exec command of a session, and whether a plain shell is started instead.\<close>

definition execCommand :: "SessionFlags \<Rightarrow> string \<times> bool" where
  "execCommand f =
     (let parts = (if ProxyProtocolVersion f > 0
                   then [''proxy-protocol='' @ Itoa (ProxyProtocolVersion f)] else []);
          parts = (if SNIProxy f then parts @ [''sni-proxy=true''] else parts)
      in if parts = [] then ([], True) else (Join parts '' '', False))"

definition DefaultLabel :: "SessionFlags \<Rightarrow> string" where
  "DefaultLabel f =
     (if SNIProxy f then ''sni''
      else if ProxyProtocolVersion f > 0 then ''pp:v'' @ Itoa (ProxyProtocolVersion f)
      else ''plain'')"

section \<open>Forwardings\<close>

record ForwardingConfig =
  RemoteHost :: string
  InternalHost :: string
  RemotePort :: int
  InternalPort :: int
  EnforcePort :: bool

definition forwardingKey :: "string \<Rightarrow> int \<Rightarrow> string" where
  "forwardingKey remoteHost remotePort = remoteHost @ '':'' @ Itoa remotePort"

abbreviation cfgKey :: "ForwardingConfig \<Rightarrow> string" where
  "cfgKey fwd \<equiv> forwardingKey (RemoteHost fwd) (RemotePort fwd)"

lemma forwardingKey_inject:
  "forwardingKey h p = forwardingKey h' p' \<longleftrightarrow> h = h' \<and> p = p'"
proof
  assume "forwardingKey h p = forwardingKey h' p'"
  then have "h @ CHR '':'' # Itoa p = h' @ CHR '':'' # Itoa p'"
    by (simp add: forwardingKey_def)
  then have "h = h' \<and> Itoa p = Itoa p'"
    by (rule last_sep_eq) (rule Itoa_no_sep)+
  then show "h = h' \<and> p = p'" by simp
qed simp

text \<open>Hostnames that stand for any address the server may assign.\<close>

definition wildcardHost :: "string \<Rightarrow> bool" where
  "wildcardHost h \<longleftrightarrow> h = [] \<or> h = ''0.0.0.0'' \<or> h = ''localhost''"

section \<open>Properties of the session flags\<close>

lemma Join_two: "Join [a, b] sep = a @ sep @ b"
  by simp

lemma Itoa_space: "CHR '' '' \<notin> set (Itoa i)"
  by (auto simp: Itoa_def digit_char_def dest!: nat_str_chars digit_less_10_cases)

lemma execCommand_cases:
  "execCommand f =
    (if ProxyProtocolVersion f > 0
     then (''proxy-protocol='' @ Itoa (ProxyProtocolVersion f) @ (if SNIProxy f then '' sni-proxy=true'' else []), False)
     else if SNIProxy f then (''sni-proxy=true'', False) else ([], True))"
  by (simp add: execCommand_def Let_def)

text \<open>A space cannot belong to the version, so the command can be split again.\<close>

lemma takeWhile_Itoa: "takeWhile (\<lambda>c. c \<noteq> CHR '' '') (Itoa i @ (if b then CHR '' '' # r else [])) = Itoa i"
proof -
  have "\<forall>c \<in> set (Itoa i). c \<noteq> CHR '' ''" using Itoa_space [of i] by metis
  then show ?thesis by (auto simp: takeWhile_append)
qed

lemma pp_command_inject:
  assumes "Itoa v @ (if b then CHR '' '' # r else []) = Itoa w @ (if b' then CHR '' '' # r else [])"
  shows "v = w \<and> b = b'"
proof -
  have "Itoa v = Itoa w"
    using takeWhile_Itoa [of v b r] takeWhile_Itoa [of w b' r] assms by simp
  with assms show ?thesis by (auto split: if_splits)
qed

section \<open>Properties\<close>

text \<open>
  The key under which a forwarding is filed determines its remote host and port: no two
  different requests share an entry, whatever characters the host contains.
\<close>

theorem forwarding_key_injective:
  "forwardingKey h p = forwardingKey h' p' \<longleftrightarrow> h = h' \<and> p = p'"
  by (rule forwardingKey_inject)

text \<open>
  The exec command that opens a session determines the session's flags: two flag sets
  with non-negative versions that give the same command (or the same plain shell) are equal.
\<close>

theorem exec_command_determines_flags:
  assumes "0 \<le> ProxyProtocolVersion f" "0 \<le> ProxyProtocolVersion g"
    and "execCommand f = execCommand g"
  shows "f = g"
proof -
  have "ProxyProtocolVersion f = ProxyProtocolVersion g \<and> SNIProxy f = SNIProxy g"
    using assms pp_command_inject [of "ProxyProtocolVersion f" "SNIProxy f" "''sni-proxy=true''"
        "ProxyProtocolVersion g" "SNIProxy g"]
    by (cases "SNIProxy f"; cases "SNIProxy g") (auto simp: execCommand_cases split: if_splits)
  then show ?thesis by (cases f; cases g) simp
qed

theorem exec_command_determines_flags_witness:
  "execCommand \<lparr>ProxyProtocolVersion = 2, SNIProxy = False\<rparr> = (''proxy-protocol=2'', False) \<and>
   (\<lparr>ProxyProtocolVersion = 2, SNIProxy = False\<rparr> :: SessionFlags) = noFlags\<lparr>ProxyProtocolVersion := 2\<rparr>"
proof -
  have h: "execCommand \<lparr>ProxyProtocolVersion = 2, SNIProxy = False\<rparr> = (''proxy-protocol=2'', False)"
    by code_simp
  have "execCommand (noFlags\<lparr>ProxyProtocolVersion := 2\<rparr>) = (''proxy-protocol=2'', False)"
    by code_simp
  with h show ?thesis
    using exec_command_determines_flags
      [of "\<lparr>ProxyProtocolVersion = 2, SNIProxy = False\<rparr>" "noFlags\<lparr>ProxyProtocolVersion := 2\<rparr>"]
    by (simp add: noFlags_def)
qed

end
