(* ===== verification/K8s_Types.thy ===== *)
theory K8s_Types
  imports Go_Errors
begin

text \<open>
  The Kubernetes objects as far as the controllers read and write them: Gateway API types
  (\<open>gatewayv1\<close>, \<open>gatewayv1alpha2\<close>), object metadata, conditions; and the API client, a
  parameter of the model: a record of the calls that the controllers make. A pointer field is
  an \<open>option\<close>. The client threads a world \<open>'w\<close>, and a call that takes a pointer to an
  object returns the object as it stands in memory afterwards, since the client overwrites it.
\<close>

section \<open>Metadata and conditions\<close>

record ObjectMeta =
  Namespace :: string
  Name :: string
  Annotations :: "string \<Rightarrow> string option"
  Finalizers :: "string list"
  Deleted :: bool
  Generation :: int

datatype ConditionStatus = ConditionTrue | ConditionFalse | ConditionUnknown

record Condition =
  c_Type :: string
  c_Status :: ConditionStatus
  c_ObservedGeneration :: int
  c_LastTransitionTime :: "int option"
  c_Reason :: string
  c_Message :: string

section \<open>Gateways\<close>

datatype TLSModeType = TLSModeTerminate | TLSModePassthrough

record K8sListener =
  k_Name :: string
  k_Hostname :: "string option"
  k_Port :: int
  k_Protocol :: string
  k_TLS :: "TLSModeType option option"

datatype AddressType = IPAddressType | HostnameAddressType | NamedAddressType

record GatewayStatusAddress =
  a_Type :: "AddressType option"
  a_Value :: string

record RouteGroupKind =
  g_Group :: "string option"
  g_Kind :: string

record ListenerStatus =
  ls_Name :: string
  ls_SupportedKinds :: "RouteGroupKind list"
  ls_AttachedRoutes :: int
  ls_Conditions :: "Condition list"

record Gateway =
  gw_Meta :: ObjectMeta
  gw_ClassName :: string
  gw_Listeners :: "K8sListener list"
  gw_Addresses :: "GatewayStatusAddress list"
  gw_Conditions :: "Condition list"
  gw_ListenerStatuses :: "ListenerStatus list"

record GatewayClass =
  gc_Meta :: ObjectMeta
  gc_ControllerName :: string
  gc_Conditions :: "Condition list"

section \<open>Routes\<close>

record ParentReference =
  pr_Group :: "string option"
  pr_Kind :: "string option"
  pr_Namespace :: "string option"
  pr_Name :: string
  pr_SectionName :: "string option"
  pr_Port :: "int option"

record BackendRef =
  b_Name :: string
  b_Namespace :: "string option"
  b_Port :: "int option"

record RouteParentStatus =
  rps_ParentRef :: ParentReference
  rps_ControllerName :: string
  rps_Conditions :: "Condition list"

text \<open>
  HTTPRoute, TCPRoute and TLSRoute agree in all that the controllers use: a rule is the list
  of its backends.
\<close>

record K8sRoute =
  rt_Meta :: ObjectMeta
  rt_ParentRefs :: "ParentReference list"
  rt_Rules :: "BackendRef list list"
  rt_Parents :: "RouteParentStatus list"

section \<open>The API client\<close>

record 'w api_client =
  c_GetGateway :: "string \<Rightarrow> string \<Rightarrow> 'w \<Rightarrow> (go_error + Gateway) \<times> 'w"
  c_GetGatewayClass :: "string \<Rightarrow> 'w \<Rightarrow> (go_error + GatewayClass) \<times> 'w"
  c_GetRoute :: "string \<Rightarrow> string \<Rightarrow> 'w \<Rightarrow> (go_error + K8sRoute) \<times> 'w"
  c_UpdateGateway :: "Gateway \<Rightarrow> 'w \<Rightarrow> go_error option \<times> Gateway \<times> 'w"
  c_UpdateGatewayStatus :: "Gateway \<Rightarrow> 'w \<Rightarrow> go_error option \<times> Gateway \<times> 'w"
  c_UpdateGatewayClassStatus :: "GatewayClass \<Rightarrow> 'w \<Rightarrow> go_error option \<times> GatewayClass \<times> 'w"
  c_UpdateRoute :: "K8sRoute \<Rightarrow> 'w \<Rightarrow> go_error option \<times> K8sRoute \<times> 'w"
  c_UpdateRouteStatus :: "K8sRoute \<Rightarrow> 'w \<Rightarrow> go_error option \<times> K8sRoute \<times> 'w"

text \<open>\<open>client.IgnoreNotFound\<close>: the API's not-found answer becomes nil.\<close>

definition IgnoreNotFound :: "go_error option \<Rightarrow> go_error option" where
  "IgnoreNotFound err =
     (case err of None \<Rightarrow> None | Some e \<Rightarrow> if errors_As is_NotFound e then None else Some e)"

lemma IgnoreNotFound_simps [simp]:
  "IgnoreNotFound None = None"
  "IgnoreNotFound (Some (NotFoundError msg)) = None"
  "IgnoreNotFound (Some (APIError msg)) = Some (APIError msg)"
  by (simp_all add: IgnoreNotFound_def)

section \<open>Conditions of a status\<close>

text \<open>
  \<open>apiMeta.SetStatusCondition\<close> is library code and an argument of the definitions that use
  it: it takes the list of conditions and the new condition and returns the list as it is
  afterwards and whether it changed. \<open>condition_of\<close> reads a condition by its type. The
  documented behaviour: afterwards the condition of that type has the new status, reason,
  message and observed generation; conditions of other types are kept as they are; the flag
  says whether the list changed; setting what is already there changes nothing; and no second
  condition of a type ever comes up.
\<close>

definition condition_of :: "string \<Rightarrow> Condition list \<Rightarrow> Condition option" where
  "condition_of t cs = List.find (\<lambda>c. c_Type c = t) cs"

definition same_content :: "Condition \<Rightarrow> Condition \<Rightarrow> bool" where
  "same_content c d \<longleftrightarrow> c_Type c = c_Type d \<and> c_Status c = c_Status d \<and> c_Reason c = c_Reason d \<and>
     c_Message c = c_Message d \<and> c_ObservedGeneration c = c_ObservedGeneration d"

definition set_condition_doc :: "(Condition list \<Rightarrow> Condition \<Rightarrow> Condition list \<times> bool) \<Rightarrow> bool" where
  "set_condition_doc ssc \<longleftrightarrow>
     (\<forall>cs c. (\<exists>d. condition_of (c_Type c) (fst (ssc cs c)) = Some d \<and> same_content d c) \<and>
        filter (\<lambda>d. c_Type d \<noteq> c_Type c) (fst (ssc cs c)) = filter (\<lambda>d. c_Type d \<noteq> c_Type c) cs \<and>
        (snd (ssc cs c) \<longleftrightarrow> fst (ssc cs c) \<noteq> cs)) \<and>
     (\<forall>cs c d. condition_of (c_Type c) cs = Some d \<and> same_content d c \<longrightarrow> ssc cs c = (cs, False))"

lemma same_content_refl [simp]: "same_content c c"
  by (simp add: same_content_def)

lemma condition_of_simps [simp]:
  "condition_of t [] = None"
  "condition_of t (c # cs) = (if c_Type c = t then Some c else condition_of t cs)"
  by (simp_all add: condition_of_def)

lemma condition_of_type: "condition_of t cs = Some d \<Longrightarrow> c_Type d = t"
  by (induction cs) (auto split: if_splits)

lemma condition_of_filter: "t \<noteq> t' \<Longrightarrow> condition_of t (filter (\<lambda>d. c_Type d \<noteq> t') cs) = condition_of t cs"
  by (induction cs) auto

lemma ssc_other:
  assumes "set_condition_doc ssc" "t \<noteq> c_Type c"
  shows "condition_of t (fst (ssc cs c)) = condition_of t cs"
  using assms condition_of_filter [OF assms(2), of "fst (ssc cs c)"] condition_of_filter [OF assms(2), of cs]
  by (simp add: set_condition_doc_def)

lemma ssc_changed_iff:
  assumes "set_condition_doc ssc"
  shows "snd (ssc cs c) \<longleftrightarrow> \<not> (\<exists>d. condition_of (c_Type c) cs = Some d \<and> same_content d c)"
  using assms unfolding set_condition_doc_def by (metis snd_conv)

lemma ssc_set:
  assumes "set_condition_doc ssc"
  shows "\<exists>d. condition_of (c_Type c) (fst (ssc cs c)) = Some d \<and> same_content d c"
  using assms by (simp add: set_condition_doc_def)

text \<open>An instance with that behaviour: the first condition of the type is rewritten in place.\<close>

fun demo_ssc :: "Condition list \<Rightarrow> Condition \<Rightarrow> Condition list \<times> bool" where
  "demo_ssc [] c = ([c], True)"
| "demo_ssc (d # cs) c =
     (if c_Type d = c_Type c then
        (if same_content d c then (d # cs, False)
         else ((if c_Status d = c_Status c then c\<lparr>c_LastTransitionTime := c_LastTransitionTime d\<rparr> else c) # cs, True))
      else (let (cs', b) = demo_ssc cs c in (d # cs', b)))"

lemma same_content_time: "c\<lparr>c_LastTransitionTime := t\<rparr> = d \<Longrightarrow> same_content d c"
  by (auto simp: same_content_def)

lemma demo_ssc_spec:
  "(\<exists>d. condition_of (c_Type c) (fst (demo_ssc cs c)) = Some d \<and> same_content d c) \<and>
   filter (\<lambda>d. c_Type d \<noteq> c_Type c) (fst (demo_ssc cs c)) = filter (\<lambda>d. c_Type d \<noteq> c_Type c) cs \<and>
   (snd (demo_ssc cs c) \<longleftrightarrow> fst (demo_ssc cs c) \<noteq> cs)"
proof (induction cs c rule: demo_ssc.induct)
  case (1 c)
  then show ?case by simp
next
  case (2 d cs c)
  then show ?case
    by (cases "same_content d c")
      (auto simp: same_content_def dest: same_content_time [unfolded same_content_def] split: prod.splits)
qed

lemma demo_ssc_same:
  "condition_of (c_Type c) cs = Some d \<Longrightarrow> same_content d c \<Longrightarrow> demo_ssc cs c = (cs, False)"
  by (induction cs c rule: demo_ssc.induct) (auto split: if_splits)

lemma demo_ssc_doc: "set_condition_doc demo_ssc"
  using demo_ssc_spec demo_ssc_same by (simp add: set_condition_doc_def)

end
