(* ===== verification/Ctl_Common.thy ===== *)
theory Ctl_Common
  imports Ssh_Types K8s_Types
begin

text \<open>
  \<open>controllers/common.go\<close> and the types of \<open>controllers/gateway_controller.go\<close>: the
  settings read from the process environment, finalizer names, annotations, listeners, and
  the extraction of a route's parent and backend.

  \<open>os_env\<close> is the environment of the process as \<open>os.LookupEnv\<close> sees it.
\<close>

type_synonym os_env = "string \<Rightarrow> string option"

section \<open>Strings and settings\<close>

fun containsString :: "string list \<Rightarrow> string \<Rightarrow> bool" where
  "containsString [] s = False"
| "containsString (item # items) s = (if item = s then True else containsString items s)"

fun removeString :: "string list \<Rightarrow> string \<Rightarrow> string list" where
  "removeString [] s = []"
| "removeString (item # items) s =
     (if item \<noteq> s then item # removeString items s else removeString items s)"

lemma containsString_iff [simp]: "containsString xs s \<longleftrightarrow> s \<in> set xs"
  by (induction xs) auto

lemma removeString_filter [simp]: "removeString xs s = filter (\<lambda>x. x \<noteq> s) xs"
  by (induction xs) auto

definition getEnvOrDefault :: "os_env \<Rightarrow> string \<Rightarrow> string \<Rightarrow> string" where
  "getEnvOrDefault os_env key defaultValue =
     (case os_env key of Some value \<Rightarrow> value | None \<Rightarrow> defaultValue)"

text \<open>The parser \<open>time.ParseDuration\<close> is an argument; durations are in nanoseconds.\<close>

definition getEnvDurationOrDefault :: "(string \<Rightarrow> int option) \<Rightarrow> os_env \<Rightarrow> string \<Rightarrow> int \<Rightarrow> int" where
  "getEnvDurationOrDefault ParseDuration os_env key defaultValue =
     (case os_env key of
        None \<Rightarrow> defaultValue
      | Some value \<Rightarrow>
          (case ParseDuration value of None \<Rightarrow> defaultValue | Some parsed \<Rightarrow> parsed))"

text \<open>Settings of the controllers: the package-level variables, from the environment.\<close>

record ctl_settings =
  cs_env :: os_env
  cs_keyPath :: string
  cs_keepAliveInterval :: int
  cs_connectTimeout :: int
  cs_sshServer :: string
  cs_sshUsername :: string
  cs_sshHostKey :: string
  cs_gatewayReconcilePeriod :: int
  cs_routeReconcilePeriod :: int
  cs_routeRetryPeriod :: int

definition load_settings :: "(string \<Rightarrow> int option) \<Rightarrow> os_env \<Rightarrow> ctl_settings" where
  "load_settings ParseDuration os_env =
     \<lparr>cs_env = os_env,
      cs_keyPath = getEnvOrDefault os_env ''SSH_PRIVATE_KEY_PATH'' ''/ssh/id'',
      cs_keepAliveInterval =
        getEnvDurationOrDefault ParseDuration os_env ''KEEP_ALIVE_INTERVAL'' (10 * 1000000000),
      cs_connectTimeout =
        getEnvDurationOrDefault ParseDuration os_env ''CONNECT_TIMEOUT'' (5 * 1000000000),
      cs_sshServer = getEnvOrDefault os_env ''SSH_SERVER'' ''localhost:22'',
      cs_sshUsername = getEnvOrDefault os_env ''SSH_USERNAME'' ''tunnel-user'',
      cs_sshHostKey = getEnvOrDefault os_env ''SSH_HOST_KEY'' [],
      cs_gatewayReconcilePeriod =
        getEnvDurationOrDefault ParseDuration os_env ''GATEWAY_RECONCILE_PERIOD'' (30 * 1000000000),
      cs_routeReconcilePeriod =
        getEnvDurationOrDefault ParseDuration os_env ''ROUTE_RECONCILE_PERIOD'' (10 * 1000000000),
      cs_routeRetryPeriod =
        getEnvDurationOrDefault ParseDuration os_env ''ROUTE_RETRY_PERIOD'' (2 * 1000000000)\<rparr>"

definition getGatewayControllerName :: "os_env \<Rightarrow> string" where
  "getGatewayControllerName os_env =
     (let controllerName = (case os_env ''GATEWAY_CONTROLLER_NAME'' of None \<Rightarrow> [] | Some v \<Rightarrow> v)
      in if controllerName \<noteq> [] then controllerName else ''tunnels.ssh.gateway-api-controller'')"

definition controllerNameSuffix :: "os_env \<Rightarrow> string" where
  "controllerNameSuffix os_env = ReplaceByte (getGatewayControllerName os_env) (CHR ''/'') (CHR ''-'')"

definition getHTTPRouteFinalizer :: "os_env \<Rightarrow> string" where
  "getHTTPRouteFinalizer os_env = ''httproute.gateway.networking.k8s.io/finalizer-'' @ controllerNameSuffix os_env"

definition getTCPRouteFinalizer :: "os_env \<Rightarrow> string" where
  "getTCPRouteFinalizer os_env = ''tcproute.gateway.networking.k8s.io/finalizer-'' @ controllerNameSuffix os_env"

definition getTLSRouteFinalizer :: "os_env \<Rightarrow> string" where
  "getTLSRouteFinalizer os_env = ''tlsroute.gateway.networking.k8s.io/finalizer-'' @ controllerNameSuffix os_env"

definition getGatewayFinalizer :: "os_env \<Rightarrow> string" where
  "getGatewayFinalizer os_env = ''gateway.networking.k8s.io/finalizer-'' @ controllerNameSuffix os_env"

definition getGwKey :: "string \<Rightarrow> string \<Rightarrow> string" where
  "getGwKey gwNamespace gwName = gwNamespace @ ''/'' @ gwName"

lemma getGwKey_inject:
  assumes "CHR ''/'' \<notin> set ns" "CHR ''/'' \<notin> set ns'"
  shows "getGwKey ns n = getGwKey ns' n' \<longleftrightarrow> ns = ns' \<and> n = n'"
  using first_sep_eq [of ns "CHR ''/''" n ns' n'] assms by (auto simp: getGwKey_def)

section \<open>Annotations of the GatewayClass and of the Gateway\<close>

record ClassSessionConfig =
  ClassPPVersion :: int
  SNIProxyEnabled :: bool

definition parseProxyProtocol :: "(string \<Rightarrow> string option) \<Rightarrow> int" where
  "parseProxyProtocol annotations =
     (case annotations ''ssh-gateway.io/proxy-protocol'' of
        None \<Rightarrow> 0
      | Some val \<Rightarrow>
          (if val = [] then 0
           else case Atoi val of
                  None \<Rightarrow> 0
                | Some version \<Rightarrow> if version \<noteq> 1 \<and> version \<noteq> 2 then 0 else version))"

definition parseClassSessionConfig :: "(string \<Rightarrow> string option) \<Rightarrow> ClassSessionConfig" where
  "parseClassSessionConfig annotations =
     \<lparr>ClassPPVersion = parseProxyProtocol annotations,
      SNIProxyEnabled =
        (case annotations ''ssh-gateway.io/sni-proxy'' of
           None \<Rightarrow> False
         | Some val \<Rightarrow> val \<noteq> [] \<and> EqualFold val ''true'')\<rparr>"

definition parseListenerProxyProtocol :: "(string \<Rightarrow> string option) \<Rightarrow> string \<Rightarrow> bool" where
  "parseListenerProxyProtocol annotations listenerName =
     (case annotations (''ssh-gateway.io/listener-proxy-protocol.'' @ listenerName) of
        None \<Rightarrow> False
      | Some val \<Rightarrow> val \<noteq> [] \<and> EqualFold val ''true'')"

definition requiredSessionKinds :: "ClassSessionConfig \<Rightarrow> SessionKind list" where
  "requiredSessionKinds sessions =
     (let kinds = [SessionPlain];
          kinds = (if ClassPPVersion sessions > 0 then kinds @ [SessionProxyProto] else kinds)
      in if SNIProxyEnabled sessions then kinds @ [SessionSNIProxy] else kinds)"

lemma set_requiredSessionKinds:
  "k \<in> set (requiredSessionKinds s) \<longleftrightarrow>
     (case k of SessionPlain \<Rightarrow> True | SessionProxyProto \<Rightarrow> ClassPPVersion s > 0 | SessionSNIProxy \<Rightarrow> SNIProxyEnabled s)"
  by (cases k) (auto simp: requiredSessionKinds_def Let_def)

lemma parseProxyProtocol_range: "parseProxyProtocol ann \<in> {0, 1, 2}"
  by (auto simp: parseProxyProtocol_def split: option.splits)

section \<open>Listeners\<close>

record Route =
  r_Name :: string
  r_Namespace :: string
  r_Host :: string
  r_Port :: int

record Listener =
  l_route :: "Route option"
  l_Protocol :: string
  l_Hostname :: string
  l_Port :: int
  l_SessionKind :: SessionKind
  l_Rejected :: bool
  l_Reason :: string

definition deriveListenerSession ::
  "Listener \<Rightarrow> K8sListener \<Rightarrow> (string \<Rightarrow> string option) \<Rightarrow> Listener" where
  "deriveListenerSession l k8sListener gwAnnotations =
     (let proto = ToUpper (l_Protocol l) in
      if proto = ''HTTP'' then l\<lparr>l_SessionKind := SessionPlain\<rparr>
      else if proto = ''TCP'' then
        (if parseListenerProxyProtocol gwAnnotations (k_Name k8sListener)
         then l\<lparr>l_SessionKind := SessionProxyProto\<rparr> else l\<lparr>l_SessionKind := SessionPlain\<rparr>)
      else if proto = ''TLS'' then
        (if k_TLS k8sListener = Some (Some TLSModePassthrough)
         then l\<lparr>l_SessionKind := SessionSNIProxy\<rparr>
         else l\<lparr>l_Rejected := True, l_Reason := ''UnsupportedTLSMode''\<rparr>)
      else l\<lparr>l_Rejected := True, l_Reason := ''UnsupportedListenerProtocol''\<rparr>)"

definition createListener :: "K8sListener \<Rightarrow> (string \<Rightarrow> string option) \<Rightarrow> Listener" where
  "createListener k8sListener gwAnnotations =
     (let remoteHostname = (case k_Hostname k8sListener of None \<Rightarrow> ''localhost'' | Some h \<Rightarrow> h);
          l = \<lparr>l_route = None, l_Protocol = k_Protocol k8sListener, l_Hostname = remoteHostname,
               l_Port = k_Port k8sListener, l_SessionKind = SessionPlain, l_Rejected = False,
               l_Reason = []\<rparr>
      in deriveListenerSession l k8sListener gwAnnotations)"

lemma createListener_simps [simp]:
  "l_route (createListener k ann) = None"
  "l_Port (createListener k ann) = k_Port k"
  "l_Protocol (createListener k ann) = k_Protocol k"
  "l_Hostname (createListener k ann) = (case k_Hostname k of None \<Rightarrow> ''localhost'' | Some h \<Rightarrow> h)"
  by (simp_all add: createListener_def deriveListenerSession_def Let_def)

lemma createListener_rejected_plain:
  "l_Rejected (createListener k ann) \<Longrightarrow> l_SessionKind (createListener k ann) = SessionPlain"
  by (auto simp: createListener_def deriveListenerSession_def Let_def split: if_splits)

lemma createListener_reason:
  "l_Rejected (createListener k ann) \<longleftrightarrow> l_Reason (createListener k ann) \<noteq> []"
  by (auto simp: createListener_def deriveListenerSession_def Let_def)

section \<open>Route details\<close>

record routeDetails =
  rd_routeName :: string
  rd_routeNamespace :: string
  rd_gwName :: string
  rd_gwNamespace :: string
  rd_listenerName :: string
  rd_backendHost :: string
  rd_backendPort :: int

definition getSvcHostname :: "string \<Rightarrow> string \<Rightarrow> string" where
  "getSvcHostname svcName svcNamespace = svcName @ ''.'' @ svcNamespace @ ''.svc.cluster.local''"

definition extractParentGatewayRef :: "ParentReference list \<Rightarrow> string \<Rightarrow> go_error + (string \<times> string)" where
  "extractParentGatewayRef parentRefs routeNamespace =
     (case parentRefs of
        [] \<Rightarrow> Inl (Errorf ''route has no ParentRef'')
      | parent # _ \<Rightarrow>
          (if pr_Name parent = [] then Inl (Errorf ''ParentRef name is empty'')
           else Inr (case pr_Namespace parent of None \<Rightarrow> routeNamespace | Some ns \<Rightarrow> ns, pr_Name parent)))"

definition extractRouteDetailsFromParts ::
  "string \<Rightarrow> string \<Rightarrow> string \<Rightarrow> ParentReference list \<Rightarrow> nat \<Rightarrow> BackendRef list \<Rightarrow> go_error + routeDetails" where
  "extractRouteDetailsFromParts kind routeNS routeName parentRefs ruleCount backendRefs =
     (let routeKey = routeNS @ ''/'' @ routeName in
      case parentRefs of
        [] \<Rightarrow> Inl (Errorf (kind @ '' '' @ routeKey @ '' must have at least one ParentRef''))
      | parent # _ \<Rightarrow>
      if pr_Name parent = [] then Inl (Errorf (''ParentRef name is empty for '' @ kind @ '' '' @ routeKey))
      else
      let parentNamespace = (case pr_Namespace parent of None \<Rightarrow> routeNS | Some ns \<Rightarrow> ns) in
      case pr_SectionName parent of
        None \<Rightarrow> Inl (Errorf (''ParentRef sectionName is nil for '' @ kind @ '' '' @ routeKey))
      | Some sectionName \<Rightarrow>
      if ruleCount < 1 then Inl (Errorf (kind @ '' '' @ routeKey @ '' must have at least one Rule''))
      else
      case backendRefs of
        [] \<Rightarrow> Inl (Errorf (kind @ '' '' @ routeKey @ '' must have at least one BackendRef''))
      | k8Svc # _ \<Rightarrow>
      if b_Name k8Svc = [] then Inl (Errorf (''BackendRef name is empty for '' @ kind @ '' '' @ routeKey))
      else
      case b_Port k8Svc of
        None \<Rightarrow> Inl (Errorf (''BackendRef port is nil for '' @ kind @ '' '' @ routeKey))
      | Some port \<Rightarrow>
      if routeNS = [] then Inl (Errorf (kind @ '' namespace is nil or empty for '' @ kind @ '' '' @ routeName))
      else
      let backendNamespace = (case b_Namespace k8Svc of None \<Rightarrow> routeNS | Some ns \<Rightarrow> ns)
      in Inr \<lparr>rd_routeName = routeName, rd_routeNamespace = routeNS, rd_gwName = pr_Name parent,
              rd_gwNamespace = parentNamespace, rd_listenerName = sectionName,
              rd_backendHost = getSvcHostname (b_Name k8Svc) backendNamespace,
              rd_backendPort = port\<rparr>)"

definition extractTLSRouteDetails :: "K8sRoute \<Rightarrow> go_error + routeDetails" where
  "extractTLSRouteDetails k8sRoute =
     extractRouteDetailsFromParts ''TLSRoute'' (Namespace (rt_Meta k8sRoute)) (Name (rt_Meta k8sRoute))
       (rt_ParentRefs k8sRoute) (length (rt_Rules k8sRoute))
       (if length (rt_Rules k8sRoute) > 0 then rt_Rules k8sRoute ! 0 else [])"

definition extractTCPRouteDetails :: "K8sRoute \<Rightarrow> go_error + routeDetails" where
  "extractTCPRouteDetails k8sRoute =
     extractRouteDetailsFromParts ''TCPRoute'' (Namespace (rt_Meta k8sRoute)) (Name (rt_Meta k8sRoute))
       (rt_ParentRefs k8sRoute) (length (rt_Rules k8sRoute))
       (if length (rt_Rules k8sRoute) > 0 then rt_Rules k8sRoute ! 0 else [])"

text \<open>\<open>extractHTTPRouteDetails\<close> is written out a second time in the source, and so here.\<close>

definition extractHTTPRouteDetails :: "K8sRoute \<Rightarrow> go_error + routeDetails" where
  "extractHTTPRouteDetails k8sRoute =
     (let ns = Namespace (rt_Meta k8sRoute); name = Name (rt_Meta k8sRoute);
          key = ns @ ''/'' @ name in
      if length (rt_ParentRefs k8sRoute) < 1
      then Inl (Errorf (''HTTPRoute '' @ key @ '' must have at least one ParentRef''))
      else
      let parent = rt_ParentRefs k8sRoute ! 0 in
      if pr_Name parent = [] then Inl (Errorf (''ParentRef name is empty for HTTPRoute '' @ key))
      else
      let parentNamespace = (case pr_Namespace parent of Some pns \<Rightarrow> pns | None \<Rightarrow> ns) in
      if pr_SectionName parent = None
      then Inl (Errorf (''ParentRef sectionName is nil for HTTPRoute '' @ key))
      else if length (rt_Rules k8sRoute) < 1
      then Inl (Errorf (''HTTPRoute '' @ key @ '' must have at least one Rule''))
      else
      let rule = rt_Rules k8sRoute ! 0 in
      if length rule < 1 then Inl (Errorf (''HTTPRoute '' @ key @ '' must have at least one BackendRef''))
      else
      let k8Svc = rule ! 0 in
      if b_Name k8Svc = [] then Inl (Errorf (''BackendRef name is empty for HTTPRoute '' @ key))
      else if b_Port k8Svc = None then Inl (Errorf (''BackendRef port is nil for HTTPRoute '' @ key))
      else if ns = [] then Inl (Errorf (''HTTPRoute namespace is nil or empty for HTTPRoute '' @ name))
      else
      let backendNamespace = (case b_Namespace k8Svc of Some bns \<Rightarrow> bns | None \<Rightarrow> ns)
      in Inr \<lparr>rd_routeName = name, rd_routeNamespace = ns, rd_gwName = pr_Name parent,
              rd_gwNamespace = parentNamespace, rd_listenerName = the (pr_SectionName parent),
              rd_backendHost = getSvcHostname (b_Name k8Svc) backendNamespace,
              rd_backendPort = the (b_Port k8Svc)\<rparr>)"

section \<open>Properties\<close>

lemma extractHTTP_parts:
  "extractHTTPRouteDetails k8sRoute =
     extractRouteDetailsFromParts ''HTTPRoute'' (Namespace (rt_Meta k8sRoute)) (Name (rt_Meta k8sRoute))
       (rt_ParentRefs k8sRoute) (length (rt_Rules k8sRoute))
       (if length (rt_Rules k8sRoute) > 0 then rt_Rules k8sRoute ! 0 else [])"
proof -
  let ?rules = "rt_Rules k8sRoute"
  show ?thesis
    by (cases "rt_ParentRefs k8sRoute"; cases ?rules; cases "hd ?rules")
      (simp_all add: extractHTTPRouteDetails_def extractRouteDetailsFromParts_def Let_def
        split: option.splits)
qed

text \<open>When the parts are valid, and the details they give.\<close>

definition route_parts_ok :: "string \<Rightarrow> ParentReference list \<Rightarrow> nat \<Rightarrow> BackendRef list \<Rightarrow> bool" where
  "route_parts_ok ns parents ruleCount backends \<longleftrightarrow>
     ns \<noteq> [] \<and> parents \<noteq> [] \<and> pr_Name (hd parents) \<noteq> [] \<and> pr_SectionName (hd parents) \<noteq> None \<and>
     ruleCount > 0 \<and> backends \<noteq> [] \<and> b_Name (hd backends) \<noteq> [] \<and> b_Port (hd backends) \<noteq> None"

lemma extractParts_ok_iff:
  "(\<exists>d. extractRouteDetailsFromParts kind ns name parents n backends = Inr d) \<longleftrightarrow> route_parts_ok ns parents n backends"
  by (cases parents; cases backends)
    (auto simp: extractRouteDetailsFromParts_def route_parts_ok_def Let_def split: option.splits)

lemma extractParts_details:
  assumes "extractRouteDetailsFromParts kind ns name parents n backends = Inr d"
  shows "extractParentGatewayRef parents ns = Inr (rd_gwNamespace d, rd_gwName d) \<and>
    rd_routeName d = name \<and> rd_routeNamespace d = ns \<and>
    pr_SectionName (hd parents) = Some (rd_listenerName d) \<and> b_Port (hd backends) = Some (rd_backendPort d) \<and>
    rd_backendHost d = getSvcHostname (b_Name (hd backends))
      (case b_Namespace (hd backends) of None \<Rightarrow> ns | Some bns \<Rightarrow> bns)"
  using assms
  by (cases parents; cases backends)
    (auto simp: extractRouteDetailsFromParts_def extractParentGatewayRef_def Let_def
      split: option.splits if_splits)

definition first_backends :: "K8sRoute \<Rightarrow> BackendRef list" where
  "first_backends k8sRoute = (if rt_Rules k8sRoute = [] then [] else hd (rt_Rules k8sRoute))"

text \<open>The finalizers of this controller.\<close>

lemma ReplaceByte_gone: "a \<noteq> b \<Longrightarrow> a \<notin> set (ReplaceByte s a b)"
  by (auto simp: ReplaceByte_def)

lemma suffix_no_slash: "CHR ''/'' \<notin> set (controllerNameSuffix os_env)"
  unfolding controllerNameSuffix_def by (rule ReplaceByte_gone) simp

text \<open>
  The finalizers are usable and never confused with one another: each contains exactly
  one slash, as Kubernetes demands, whatever controller name is configured, and the four
  kinds of object have four different finalizers.
\<close>

theorem finalizers_wellformed:
  "map (\<lambda>f. length (filter (\<lambda>c. c = CHR ''/'') f))
      [getHTTPRouteFinalizer os_env, getTCPRouteFinalizer os_env, getTLSRouteFinalizer os_env,
       getGatewayFinalizer os_env] = [1, 1, 1, 1] \<and>
   distinct [getHTTPRouteFinalizer os_env, getTCPRouteFinalizer os_env, getTLSRouteFinalizer os_env,
       getGatewayFinalizer os_env]"
proof -
  have "filter (\<lambda>c. c = CHR ''/'') (controllerNameSuffix os_env) = []"
    using suffix_no_slash by (auto simp: filter_empty_conv)
  then show ?thesis
    by (simp add: getHTTPRouteFinalizer_def getTCPRouteFinalizer_def getTLSRouteFinalizer_def getGatewayFinalizer_def)
qed

text \<open>
  C38. The three extractors agree and are exact. The HTTPRoute extractor, written out separately
  in the source, is the shared one at another kind, error texts included; extraction succeeds
  exactly on routes with a usable first parent (name and section), rule and backend (name and
  port) and a namespace; and the Gateway it names is the one that the cheap ownership check
  looked at.
\<close>

theorem route_extraction_exact:
  assumes "extract \<in> {extractHTTPRouteDetails, extractTCPRouteDetails, extractTLSRouteDetails}"
  shows "((\<exists>d. extract k8sRoute = Inr d) \<longleftrightarrow>
       route_parts_ok (Namespace (rt_Meta k8sRoute)) (rt_ParentRefs k8sRoute)
         (length (rt_Rules k8sRoute)) (first_backends k8sRoute)) \<and>
    (\<forall>d. extract k8sRoute = Inr d \<longrightarrow>
       extractParentGatewayRef (rt_ParentRefs k8sRoute) (Namespace (rt_Meta k8sRoute))
         = Inr (rd_gwNamespace d, rd_gwName d) \<and>
       rd_routeName d = Name (rt_Meta k8sRoute) \<and> rd_routeNamespace d = Namespace (rt_Meta k8sRoute) \<and>
       pr_SectionName (hd (rt_ParentRefs k8sRoute)) = Some (rd_listenerName d) \<and>
       b_Port (hd (first_backends k8sRoute)) = Some (rd_backendPort d) \<and>
       rd_backendHost d = getSvcHostname (b_Name (hd (first_backends k8sRoute)))
         (case b_Namespace (hd (first_backends k8sRoute)) of
            None \<Rightarrow> Namespace (rt_Meta k8sRoute) | Some bns \<Rightarrow> bns))"
proof -
  have b: "(if length (rt_Rules k8sRoute) > 0 then rt_Rules k8sRoute ! 0 else []) = first_backends k8sRoute"
    by (cases "rt_Rules k8sRoute") (simp_all add: first_backends_def)
  obtain kind where e: "extract k8sRoute = extractRouteDetailsFromParts kind (Namespace (rt_Meta k8sRoute))
      (Name (rt_Meta k8sRoute)) (rt_ParentRefs k8sRoute) (length (rt_Rules k8sRoute)) (first_backends k8sRoute)"
    using assms extractHTTP_parts [of k8sRoute, unfolded b] extractTCPRouteDetails_def [of k8sRoute, unfolded b]
      extractTLSRouteDetails_def [of k8sRoute, unfolded b]
    by (metis insertE singletonD)
  show ?thesis using extractParts_ok_iff extractParts_details unfolding e by blast
qed

definition demo_route :: K8sRoute where
  "demo_route = \<lparr>rt_Meta = \<lparr>Namespace = ''apps'', Name = ''r'', Annotations = (\<lambda>_. None),
       Finalizers = [], Deleted = False, Generation = 1\<rparr>,
     rt_ParentRefs = [\<lparr>pr_Group = None, pr_Kind = None, pr_Namespace = None, pr_Name = ''gw'',
       pr_SectionName = Some ''web'', pr_Port = None\<rparr>],
     rt_Rules = [[\<lparr>b_Name = ''svc'', b_Namespace = Some ''other'', b_Port = Some 80\<rparr>]],
     rt_Parents = []\<rparr>"

theorem route_extraction_exact_witness:
  "\<exists>d. extractHTTPRouteDetails demo_route = Inr d \<and> rd_gwNamespace d = ''apps'' \<and>
     rd_backendHost d = ''svc.other.svc.cluster.local''"
  using route_extraction_exact [of extractHTTPRouteDetails demo_route]
  by (auto simp: demo_route_def route_parts_ok_def first_backends_def getSvcHostname_def extractParentGatewayRef_def)

end
