(* ===== verification/Pool_Interface.thy ===== *)
theory Pool_Interface
  imports Ssh_Types
begin

text \<open>
  The Go interface \<open>SSHSessionPoolInterface\<close> of \<open>controllers/gateway_controller.go\<close>: the
  controller's view of the session pool, as a record of functions over a pool state \<open>'p\<close>;
  and the contract that the Gateway registry relies on, as a locale. \<open>active p kind\<close> is
  the table of forwardings held by the session of a kind.
\<close>

record 'p sessionPool =
  sp_ConfigureSessions :: "int \<Rightarrow> bool \<Rightarrow> 'p \<Rightarrow> go_error option \<times> 'p"
  sp_StartForwarding :: "SessionKind \<Rightarrow> ForwardingConfig \<Rightarrow> 'p \<Rightarrow> go_error option \<times> 'p"
  sp_StopForwarding :: "SessionKind \<Rightarrow> ForwardingConfig \<Rightarrow> 'p \<Rightarrow> go_error option \<times> 'p"
  sp_GetAssignedAddresses :: "SessionKind \<Rightarrow> string \<Rightarrow> int \<Rightarrow> 'p \<Rightarrow> string list"
  sp_IsConnected :: "SessionKind \<Rightarrow> 'p \<Rightarrow> bool"
  sp_Connect :: "'p \<Rightarrow> 'p"
  sp_Stop :: "'p \<Rightarrow> 'p"

locale session_pool =
  fixes P :: "'p sessionPool"
    and inv :: "'p \<Rightarrow> bool"
    and active :: "'p \<Rightarrow> SessionKind \<Rightarrow> string \<Rightarrow> ForwardingConfig option"
  assumes start_inv: "inv p \<Longrightarrow> sp_StartForwarding P kind cfg p = (e, p') \<Longrightarrow> inv p'"
    and stop_inv: "inv p \<Longrightarrow> sp_StopForwarding P kind cfg p = (e, p') \<Longrightarrow> inv p'"
    and connect_inv: "inv p \<Longrightarrow> inv (sp_Connect P p)"
    and configure_inv: "inv p \<Longrightarrow> sp_ConfigureSessions P v sni p = (e, p') \<Longrightarrow> inv p'"
    and offline_empty: "inv p \<Longrightarrow> \<not> sp_IsConnected P kind p \<Longrightarrow> active p kind k = None"
    and addrs_active: "inv p \<Longrightarrow> active p kind (forwardingKey h n) = None \<Longrightarrow>
      sp_GetAssignedAddresses P kind h n p = []"
    and start_offline: "\<not> sp_IsConnected P kind p \<Longrightarrow> \<exists>e. sp_StartForwarding P kind cfg p = (Some e, p)"
    and start_exists: "inv p \<Longrightarrow> sp_IsConnected P kind p \<Longrightarrow> active p kind (cfgKey cfg) = Some old \<Longrightarrow>
      sp_StartForwarding P kind cfg p = (Some (ErrSSHForwardingExists (cfgKey cfg)), p)"
    and start_active: "inv p \<Longrightarrow> sp_StartForwarding P kind cfg p = (e, p') \<Longrightarrow>
      active p' = (if e = None then (active p)(kind := (active p kind)(cfgKey cfg \<mapsto> cfg)) else active p)"
    and start_connected: "inv p \<Longrightarrow> sp_StartForwarding P kind cfg p = (e, p') \<Longrightarrow>
      sp_IsConnected P kind' p' = sp_IsConnected P kind' p"
    and start_addrs_other: "inv p \<Longrightarrow> sp_StartForwarding P kind cfg p = (e, p') \<Longrightarrow>
      kind' \<noteq> kind \<or> forwardingKey h n \<noteq> cfgKey cfg \<Longrightarrow>
      sp_GetAssignedAddresses P kind' h n p' = sp_GetAssignedAddresses P kind' h n p"
    and stop_offline: "\<not> sp_IsConnected P kind p \<Longrightarrow> \<exists>e. sp_StopForwarding P kind cfg p = (Some e, p) \<and>
      (e = ErrSSHClientNotReady \<or> e = ErrSessionNotEnabled (SessionKind_String kind))"
    and stop_missing: "inv p \<Longrightarrow> sp_IsConnected P kind p \<Longrightarrow> active p kind (cfgKey cfg) = None \<Longrightarrow>
      sp_StopForwarding P kind cfg p = (Some (ErrSSHForwardingNotFound (cfgKey cfg)), p)"
    and stop_active: "inv p \<Longrightarrow> sp_StopForwarding P kind cfg p = (e, p') \<Longrightarrow>
      active p' = (active p)(kind := (active p kind)(cfgKey cfg := None))"
    and stop_connected: "inv p \<Longrightarrow> sp_StopForwarding P kind cfg p = (e, p') \<Longrightarrow>
      sp_IsConnected P kind' p' = sp_IsConnected P kind' p"
    and connect_connected: "inv p \<Longrightarrow> sp_IsConnected P kind p \<Longrightarrow> sp_IsConnected P kind (sp_Connect P p)"
    and connect_active: "inv p \<Longrightarrow> active (sp_Connect P p) = active p"
    and start_exists_only: "inv p \<Longrightarrow> sp_StartForwarding P kind cfg p = (Some err, p') \<Longrightarrow>
      errors_As is_ForwardingExists err \<Longrightarrow> active p kind (cfgKey cfg) \<noteq> None"
    and stop_error: "sp_StopForwarding P kind cfg p = (Some err, p') \<Longrightarrow>
      \<not> errors_As is_GatewayNotFound err \<and> \<not> errors_As is_RouteNotFound err"
begin

lemma start_ok_connected:
  "sp_StartForwarding P kind cfg p = (None, p') \<Longrightarrow> sp_IsConnected P kind p"
  using start_offline [of kind p cfg] by force

lemma start_ok_fresh:
  "inv p \<Longrightarrow> sp_StartForwarding P kind cfg p = (None, p') \<Longrightarrow> active p kind (cfgKey cfg) = None"
  using start_exists [of p kind cfg] start_ok_connected [of kind cfg p p']
  by (cases "active p kind (cfgKey cfg)") auto

lemma start_fail_same:
  "inv p \<Longrightarrow> sp_StartForwarding P kind cfg p = (Some e, p') \<Longrightarrow> active p' = active p"
  using start_active by fastforce

text \<open>A stop that succeeds was for a forwarding that was held.\<close>

lemma stop_ok_held:
  assumes "inv p" "sp_StopForwarding P kind cfg p = (None, p')"
  shows "active p kind (cfgKey cfg) \<noteq> None"
proof
  assume n: "active p kind (cfgKey cfg) = None"
  show False
  proof (cases "sp_IsConnected P kind p")
    case True
    with n assms show False using stop_missing [of p kind cfg] by simp
  next
    case False
    with assms show False using stop_offline [of kind p cfg] by auto
  qed
qed

text \<open>A stop that fails for a forwarding that is not held changes nothing.\<close>

lemma stop_not_held:
  assumes "inv p" "active p kind (cfgKey cfg) = None"
  shows "\<exists>e. sp_StopForwarding P kind cfg p = (Some e, p) \<and>
    (e = ErrSSHClientNotReady \<or> e = ErrSessionNotEnabled (SessionKind_String kind) \<or>
     e = ErrSSHForwardingNotFound (cfgKey cfg))"
  using assms stop_missing [of p kind cfg] stop_offline [of kind p cfg]
  by (cases "sp_IsConnected P kind p") auto

lemma active_connected: "inv p \<Longrightarrow> active p kind k = Some f \<Longrightarrow> sp_IsConnected P kind p"
  using offline_empty [of p kind k] by force

end

end
