(* ===== verification/Go_Url.thy ===== *)
theory Go_Url
  imports Go_Strings
begin

text \<open>
  What the program uses of Go's package \<open>net/url\<close>: scheme and host of a parsed URI. The
  addresses that are parsed come from \<open>getRemoteAddress\<close>, whose patterns admit only word
  characters, dots and hyphens in a host. \<open>url_Parse\<close> follows the parser of Go 1.26 on every
  URI without fragment, query, escape, user info or brackets; for the others the parser is
  the argument \<open>url_other\<close>.
\<close>

definition is_letter :: "char \<Rightarrow> bool" where
  "is_letter c \<longleftrightarrow> (let n = of_char c :: nat in 65 \<le> n \<and> n \<le> 90 \<or> 97 \<le> n \<and> n \<le> 122)"

definition is_digit :: "char \<Rightarrow> bool" where
  "is_digit c \<longleftrightarrow> (let n = of_char c :: nat in 48 \<le> n \<and> n \<le> 57)"

definition is_control :: "char \<Rightarrow> bool" where
  "is_control c \<longleftrightarrow> (let n = of_char c :: nat in n < 32 \<or> n = 127)"

definition lower_char :: "char \<Rightarrow> char" where
  "lower_char c = (let n = of_char c :: nat in if 65 \<le> n \<and> n \<le> 90 then char_of (n + 32) else c)"

definition host_char :: "char \<Rightarrow> bool" where
  "host_char c \<longleftrightarrow> is_letter c \<or> is_digit c \<or> (of_char c :: nat) \<ge> 128 \<or>
     c \<in> set ''-_.~!$&()*+,;=:<>'' \<or> c = CHR 0x22 \<or> c = CHR 0x27"

text \<open>The scheme of a URI: nothing when there is none, and an error for an empty one.\<close>

fun getScheme :: "string \<Rightarrow> string \<Rightarrow> string \<Rightarrow> (string \<times> string) option" where
  "getScheme raw seen [] = Some ([], raw)"
| "getScheme raw seen (c # cs) =
     (if is_letter c then getScheme raw (seen @ [c]) cs
      else if is_digit c \<or> c \<in> set ''+-.''
      then (if seen = [] then Some ([], raw) else getScheme raw (seen @ [c]) cs)
      else if c = CHR '':'' then (if seen = [] then None else Some (seen, cs))
      else Some ([], raw))"

fun validOptionalPort :: "string \<Rightarrow> bool" where
  "validOptionalPort [] = True"
| "validOptionalPort (c # ds) \<longleftrightarrow> c = CHR '':'' \<and> list_all is_digit ds"

definition parseHost :: "string \<Rightarrow> string option" where
  "parseHost host =
     (case IndexByte host (CHR '':'') of
        None \<Rightarrow> if list_all host_char host then Some host else None
      | Some i \<Rightarrow>
          if \<not> validOptionalPort (drop i host) then None
          else if list_all host_char host then Some host else None)"

definition url_Parse :: "(string \<Rightarrow> (string \<times> string) option) \<Rightarrow> string \<Rightarrow> (string \<times> string) option" where
  "url_Parse url_other raw =
     (if list_ex (\<lambda>c. c \<in> set ''#?%@[]'') raw then url_other raw
      else if list_ex is_control raw then None
      else if raw = ''*'' then Some ([], [])
      else case getScheme raw [] raw of
        None \<Rightarrow> None
      | Some (scheme0, rest) \<Rightarrow>
          let scheme = map lower_char scheme0 in
          if \<not> HasPrefix rest ''/'' then
            (if scheme \<noteq> [] then Some (scheme, [])
             else if CHR '':'' \<in> set (takeWhile (\<lambda>c. c \<noteq> CHR ''/'') rest) then None
             else Some ([], []))
          else if (scheme \<noteq> [] \<or> \<not> HasPrefix rest ''///'') \<and> HasPrefix rest ''//'' then
            (case parseHost (takeWhile (\<lambda>c. c \<noteq> CHR ''/'') (drop 2 rest)) of
               None \<Rightarrow> None
             | Some host \<Rightarrow> Some (scheme, host))
          else Some (scheme, []))"

text \<open>\<open>URL.Hostname\<close>: the host without a valid port and without brackets.\<close>

definition Hostname :: "string \<Rightarrow> string" where
  "Hostname hostPort =
     (let host = (case LastIndexByte hostPort (CHR '':'') of
            None \<Rightarrow> hostPort
          | Some colon \<Rightarrow> if validOptionalPort (drop colon hostPort) then take colon hostPort else hostPort)
      in if HasPrefix host ''['' \<and> host \<noteq> [] \<and> last host = CHR '']'' then butlast (tl host) else host)"

text \<open>A host as the patterns admit it: word characters, dots and hyphens.\<close>

definition name_char :: "char \<Rightarrow> bool" where
  "name_char c \<longleftrightarrow> is_letter c \<or> is_digit c \<or> c \<in> set ''_.-''"

lemma name_char_plain:
  "name_char c \<Longrightarrow> c \<notin> set ''#?%@[]:/ ''"
  by (auto simp: name_char_def is_letter_def is_digit_def)

lemma name_char_host: "name_char c \<Longrightarrow> host_char c"
  by (auto simp: name_char_def host_char_def)

lemma host_char_colon: "host_char (CHR '':'')"
  by (simp add: host_char_def)

lemma name_char_no_control: "name_char c \<Longrightarrow> \<not> is_control c"
  by (auto simp: name_char_def is_control_def is_letter_def is_digit_def Let_def)

lemma uri_char_plain: "c = CHR '':'' \<or> c = CHR ''/'' \<or> name_char c \<Longrightarrow> c \<notin> set ''#?%@[]''"
  by (auto dest: name_char_plain)

lemma uri_char_no_control: "c = CHR '':'' \<or> c = CHR ''/'' \<or> name_char c \<Longrightarrow> \<not> is_control c"
  by (auto simp: is_control_def dest: name_char_no_control)

lemma name_char_seps: "name_char c \<Longrightarrow> c \<noteq> CHR '':'' \<and> c \<noteq> CHR ''/'' \<and> c \<noteq> CHR ''['' \<and> c \<noteq> CHR '' ''"
  by (auto dest: name_char_plain)

lemma is_digit_name: "is_digit c \<Longrightarrow> name_char c"
  by (simp add: name_char_def)

lemma getScheme_letters:
  "list_all is_letter s \<Longrightarrow> seen @ s \<noteq> [] \<Longrightarrow> getScheme raw seen (s @ CHR '':'' # cs) = Some (seen @ s, cs)"
proof (induction s arbitrary: seen)
  case Nil
  then show ?case by (auto simp: is_letter_def is_digit_def)
next
  case (Cons c s)
  then show ?case by simp
qed

lemma not_list_ex: "(\<And>x. x \<in> set xs \<Longrightarrow> \<not> P x) \<Longrightarrow> \<not> list_ex P xs"
  by (auto simp: list_ex_iff)

text \<open>Parsing a URI made of a scheme and a plain host, with or without a port.\<close>

lemma url_Parse_plain:
  assumes "list_all is_letter s" "s \<noteq> []" "list_all name_char h"
    and "p = [] \<or> (\<exists>ds. p = CHR '':'' # ds \<and> list_all is_digit ds)"
  shows "url_Parse other (s @ ''://'' @ h @ p) = Some (map lower_char s, h @ p)"
proof -
  let ?raw = "s @ ''://'' @ h @ p"
  have s: "\<forall>c \<in> set s. name_char c" using assms(1) by (auto simp: name_char_def list_all_iff)
  have h: "\<forall>c \<in> set h. name_char c" using assms(3) by (simp add: list_all_iff)
  have p: "\<forall>c \<in> set p. c = CHR '':'' \<or> name_char c" using assms(4) is_digit_name by (auto simp: list_all_iff)
  have chars: "\<forall>c \<in> set ?raw. c = CHR '':'' \<or> c = CHR ''/'' \<or> name_char c" using s h p by auto
  have special: "\<not> list_ex (\<lambda>c. c \<in> set ''#?%@[]'') ?raw" and control: "\<not> list_ex is_control ?raw"
    by (rule not_list_ex, erule uri_char_plain [OF bspec [OF chars]])
      (rule not_list_ex, erule uri_char_no_control [OF bspec [OF chars]])
  have scheme: "getScheme ?raw [] ?raw = Some (s, ''//'' @ h @ p)"
    using getScheme_letters [OF assms(1), of "[]" ?raw "''//'' @ h @ p"] assms(2) by simp
  have "\<forall>c \<in> set (h @ p). c \<noteq> CHR ''/''" using h p name_char_seps by fastforce
  then have auth: "takeWhile (\<lambda>c. c \<noteq> CHR ''/'') (h @ p) = h @ p"
      "takeWhile (\<lambda>c. c \<noteq> CHR ''/'') p = p"
    by (auto simp: takeWhile_eq_all_conv)
  have hc: "list_all host_char (h @ p)"
    unfolding list_all_iff
  proof
    fix c assume "c \<in> set (h @ p)"
    then have "c = CHR '':'' \<or> name_char c" using h p by auto
    then show "host_char c" by (elim disjE) (simp_all add: name_char_host host_char_colon)
  qed
  have colon: "CHR '':'' \<notin> set h" using h name_char_seps by blast
  have "parseHost (h @ p) = Some (h @ p)"
    using assms(4) hc colon by (auto simp: parseHost_def IndexByte_append)
  then show ?thesis
    using special control scheme assms(2) by (simp add: url_Parse_def Let_def auth)
qed

lemma Hostname_plain:
  assumes "list_all name_char h" and "p = [] \<or> (\<exists>ds. p = CHR '':'' # ds \<and> list_all is_digit ds)"
  shows "Hostname (h @ p) = h"
proof -
  have "\<forall>c \<in> set h. name_char c" using assms(1) by (simp add: list_all_iff)
  then have no: "CHR '':'' \<notin> set h" "CHR ''['' \<notin> set h" using name_char_seps by blast+
  then have br: "\<not> HasPrefix h ''['' " by (cases h) auto
  from assms(2) show ?thesis
  proof
    assume "p = []"
    with no br show ?thesis by (simp add: Hostname_def LastIndexByte_def)
  next
    assume "\<exists>ds. p = CHR '':'' # ds \<and> list_all is_digit ds"
    then obtain ds where ds: "p = CHR '':'' # ds" "list_all is_digit ds" by blast
    then have "CHR '':'' \<notin> set ds" by (auto simp: list_all_iff is_digit_def)
    with ds br show ?thesis by (simp add: Hostname_def LastIndexByte_append)
  qed
qed

end
