(* ===== verification/Gateway_Status.thy ===== *)
theory Gateway_Status
  imports Ctl_Common Pool_Interface Go_Url
begin

text \<open>
  The status that the controller publishes for a Gateway
  (\<open>controllers/gateway_controller.go\<close>): the addresses of its tunnels, the Programmed
  condition of each listener, and the two functions that write them to the API. \<open>P\<close> is
  the interface of the session pool, \<open>C\<close> the API client, \<open>ssc\<close> the library function
  \<open>SetStatusCondition\<close>, \<open>now\<close> the clock.
\<close>

section \<open>The registry\<close>

type_synonym gateway = "(string, Listener) gomap"

record 'p GatewayReconciler =
  gr_pool :: 'p
  gr_gateways :: "(string, gateway) gomap"

section \<open>Addresses\<close>

definition extractHostnameFromURI :: "(string \<Rightarrow> (string \<times> string) option) \<Rightarrow> string \<Rightarrow> string" where
  "extractHostnameFromURI url_other uri =
     (case url_Parse url_other uri of
        None \<Rightarrow> uri
      | Some (scheme, host) \<Rightarrow>
          if scheme = ''http'' \<or> scheme = ''https'' then Hostname host
          else if scheme = ''tcp'' then TrimPrefix uri ''tcp://''
          else if host \<noteq> [] then host else uri)"

definition status_address :: "string \<Rightarrow> GatewayStatusAddress" where
  "status_address hostname =
     \<lparr>a_Type = Some (if Contains hostname '':'' then NamedAddressType else HostnameAddressType),
      a_Value = hostname\<rparr>"

text \<open>The inner and the outer loop; \<open>seen\<close> is the set of hostnames already added.\<close>

fun add_addresses ::
  "(string \<Rightarrow> (string \<times> string) option) \<Rightarrow> string list \<Rightarrow>
     GatewayStatusAddress list \<Rightarrow> string list \<Rightarrow> GatewayStatusAddress list \<times> string list" where
  "add_addresses url_other [] statusAddresses seen = (statusAddresses, seen)"
| "add_addresses url_other (addr # addrs) statusAddresses seen =
     (let hostname = extractHostnameFromURI url_other addr
      in if hostname \<in> set seen then add_addresses url_other addrs statusAddresses seen
         else add_addresses url_other addrs (statusAddresses @ [status_address hostname]) (hostname # seen))"

fun add_listeners ::
  "'p sessionPool \<Rightarrow> (string \<Rightarrow> (string \<times> string) option) \<Rightarrow> 'p \<Rightarrow> gateway \<Rightarrow>
     GatewayStatusAddress list \<Rightarrow> string list \<Rightarrow> GatewayStatusAddress list" where
  "add_listeners P url_other p [] statusAddresses seen = statusAddresses"
| "add_listeners P url_other p ((name, l) # ls) statusAddresses seen =
     (if l_Rejected l then add_listeners P url_other p ls statusAddresses seen
      else (let (sa, seen') = add_addresses url_other
                  (sp_GetAssignedAddresses P (l_SessionKind l) (l_Hostname l) (l_Port l) p)
                  statusAddresses seen
            in add_listeners P url_other p ls sa seen'))"

definition updateGatewayAddresses ::
  "'p sessionPool \<Rightarrow> (string \<Rightarrow> (string \<times> string) option) \<Rightarrow> 'p GatewayReconciler \<Rightarrow> Gateway \<Rightarrow> Gateway" where
  "updateGatewayAddresses P url_other gr k8sGw =
     (case mget (gr_gateways gr) (getGwKey (Namespace (gw_Meta k8sGw)) (Name (gw_Meta k8sGw))) of
        None \<Rightarrow> k8sGw
      | Some gw \<Rightarrow> k8sGw\<lparr>gw_Addresses := add_listeners P url_other (gr_pool gr) gw [] []\<rparr>)"

text \<open>The comparison of two address lists: a map from value to type, then a lookup of each.\<close>

definition address_type :: "GatewayStatusAddress \<Rightarrow> AddressType" where
  "address_type addr = (case a_Type addr of None \<Rightarrow> HostnameAddressType | Some t \<Rightarrow> t)"

fun address_map :: "GatewayStatusAddress list \<Rightarrow> (string, AddressType) gomap \<Rightarrow> (string, AddressType) gomap" where
  "address_map [] aMap = aMap"
| "address_map (addr # a) aMap = address_map a (mput (a_Value addr) (address_type addr) aMap)"

fun addresses_in_map :: "(string, AddressType) gomap \<Rightarrow> GatewayStatusAddress list \<Rightarrow> bool" where
  "addresses_in_map aMap [] = True"
| "addresses_in_map aMap (addr # b) =
     (case mget aMap (a_Value addr) of
        None \<Rightarrow> False
      | Some existingType \<Rightarrow>
          if existingType \<noteq> address_type addr then False else addresses_in_map aMap b)"

definition gatewayAddressesEqual :: "GatewayStatusAddress list \<Rightarrow> GatewayStatusAddress list \<Rightarrow> bool" where
  "gatewayAddressesEqual a b =
     (if length a \<noteq> length b then False else addresses_in_map (address_map a []) b)"

section \<open>Listener statuses\<close>

definition listenerProgrammedCondition ::
  "'p sessionPool \<Rightarrow> int option \<Rightarrow> 'p \<Rightarrow> Listener \<Rightarrow> ClassSessionConfig \<Rightarrow> Condition" where
  "listenerProgrammedCondition P now p l sessions =
     (if l_Rejected l then
        \<lparr>c_Type = ''Programmed'', c_Status = ConditionFalse, c_ObservedGeneration = 0,
         c_LastTransitionTime = now, c_Reason = l_Reason l,
         c_Message = ''Listener rejected: '' @ l_Reason l\<rparr>
      else if l_SessionKind l = SessionProxyProto \<and> ClassPPVersion sessions = 0 then
        \<lparr>c_Type = ''Programmed'', c_Status = ConditionFalse, c_ObservedGeneration = 0,
         c_LastTransitionTime = now, c_Reason = ''SessionNotEnabled'',
         c_Message = ''Listener requires proxy-protocol session but GatewayClass has not enabled it''\<rparr>
      else if l_SessionKind l = SessionSNIProxy \<and> \<not> SNIProxyEnabled sessions then
        \<lparr>c_Type = ''Programmed'', c_Status = ConditionFalse, c_ObservedGeneration = 0,
         c_LastTransitionTime = now, c_Reason = ''SessionNotEnabled'',
         c_Message = ''Listener requires sni-proxy session but GatewayClass has not enabled it''\<rparr>
      else if \<not> sp_IsConnected P (l_SessionKind l) p then
        \<lparr>c_Type = ''Programmed'', c_Status = ConditionFalse, c_ObservedGeneration = 0,
         c_LastTransitionTime = now, c_Reason = ''Pending'',
         c_Message = ''SSH session not connected''\<rparr>
      else
        \<lparr>c_Type = ''Programmed'', c_Status = ConditionTrue, c_ObservedGeneration = 0,
         c_LastTransitionTime = now, c_Reason = ''Programmed'',
         c_Message = ''Listener programmed''\<rparr>)"

definition attachedRouteCount :: "Listener \<Rightarrow> int" where
  "attachedRouteCount l = (if l_route l \<noteq> None then 1 else 0)"

definition supportedKindsFor :: "Listener \<Rightarrow> RouteGroupKind list" where
  "supportedKindsFor l =
     (let grp = Some ''gateway.networking.k8s.io''; proto = ToUpper (l_Protocol l) in
      if proto = ''HTTP'' then [\<lparr>g_Group = grp, g_Kind = ''HTTPRoute''\<rparr>]
      else if proto = ''TCP'' then [\<lparr>g_Group = grp, g_Kind = ''TCPRoute''\<rparr>]
      else if proto = ''TLS'' then [\<lparr>g_Group = grp, g_Kind = ''TLSRoute''\<rparr>]
      else [])"

fun listener_statuses ::
  "'p sessionPool \<Rightarrow> int option \<Rightarrow> 'p \<Rightarrow> ClassSessionConfig \<Rightarrow> gateway \<Rightarrow> K8sListener list \<Rightarrow>
     ListenerStatus list \<times> bool" where
  "listener_statuses P now p sessions gw [] = ([], True)"
| "listener_statuses P now p sessions gw (k8sListener # ks) =
     (case mget gw (k_Name k8sListener) of
        None \<Rightarrow> listener_statuses P now p sessions gw ks
      | Some l \<Rightarrow>
          (let cond = listenerProgrammedCondition P now p l sessions;
               (statuses, allProgrammed) = listener_statuses P now p sessions gw ks
           in (\<lparr>ls_Name = k_Name k8sListener, ls_SupportedKinds = supportedKindsFor l,
                ls_AttachedRoutes = attachedRouteCount l, ls_Conditions = [cond]\<rparr> # statuses,
               c_Status cond = ConditionTrue \<and> allProgrammed)))"

definition populateListenerStatuses ::
  "'p sessionPool \<Rightarrow> int option \<Rightarrow> 'p GatewayReconciler \<Rightarrow> Gateway \<Rightarrow> GatewayClass \<Rightarrow> Gateway \<times> bool" where
  "populateListenerStatuses P now gr k8sGw gc =
     (let sessions = parseClassSessionConfig (Annotations (gc_Meta gc)) in
      case mget (gr_gateways gr) (getGwKey (Namespace (gw_Meta k8sGw)) (Name (gw_Meta k8sGw))) of
        None \<Rightarrow> (k8sGw, True)
      | Some gw \<Rightarrow>
          (let (statuses, allProgrammed) =
                 listener_statuses P now (gr_pool gr) sessions gw (gw_Listeners k8sGw)
           in (k8sGw\<lparr>gw_ListenerStatuses := statuses\<rparr>, allProgrammed)))"

section \<open>Writing the status\<close>

definition updateGatewayStatus ::
  "'p sessionPool \<Rightarrow> (string \<Rightarrow> (string \<times> string) option) \<Rightarrow> 'w api_client \<Rightarrow> int option \<Rightarrow>
     'p GatewayReconciler \<Rightarrow> string \<Rightarrow> string \<Rightarrow> 'w \<Rightarrow> go_error option \<times> 'w" where
  "updateGatewayStatus P url_other C now gr gwNamespace gwName w =
     (let gwKey = getGwKey gwNamespace gwName in
      case c_GetGateway C gwNamespace gwName w of
        (Inl err, w1) \<Rightarrow> (Some (Wrapf (''failed to fetch Gateway '' @ gwKey) err), w1)
      | (Inr k8sGw, w1) \<Rightarrow>
          (case c_GetGatewayClass C (gw_ClassName k8sGw) w1 of
             (gcr, w2) \<Rightarrow>
               (let k8sGw1 = (case gcr of Inl err \<Rightarrow> k8sGw
                                        | Inr gc \<Rightarrow> fst (populateListenerStatuses P now gr k8sGw gc));
                    k8sGw2 = updateGatewayAddresses P url_other gr k8sGw1
                in case c_UpdateGatewayStatus C k8sGw2 w2 of
                     (Some err, _, w3) \<Rightarrow> (Some (Wrapf (''failed to update Gateway status for '' @ gwKey) err), w3)
                   | (None, _, w3) \<Rightarrow> (None, w3))))"

definition gateway_accepted :: "int option \<Rightarrow> Condition" where
  "gateway_accepted now =
     \<lparr>c_Type = ''Accepted'', c_Status = ConditionTrue, c_ObservedGeneration = 0,
      c_LastTransitionTime = now, c_Reason = ''Accepted'',
      c_Message = ''Gateway accepted by controller''\<rparr>"

definition gateway_programmed :: "int option \<Rightarrow> bool \<Rightarrow> Condition" where
  "gateway_programmed now allProgrammed =
     \<lparr>c_Type = ''Programmed'',
      c_Status = (if allProgrammed then ConditionTrue else ConditionFalse), c_ObservedGeneration = 0,
      c_LastTransitionTime = now,
      c_Reason = (if allProgrammed then ''Programmed'' else ''ListenersNotProgrammed''),
      c_Message = (if allProgrammed then ''Gateway programmed successfully''
                   else ''At least one listener is not Programmed'')\<rparr>"

definition updateGatewayStatusIfChanged ::
  "'p sessionPool \<Rightarrow> (string \<Rightarrow> (string \<times> string) option) \<Rightarrow>
     (Condition list \<Rightarrow> Condition \<Rightarrow> Condition list \<times> bool) \<Rightarrow> 'w api_client \<Rightarrow> int option \<Rightarrow>
     'p GatewayReconciler \<Rightarrow> Gateway \<Rightarrow> GatewayClass \<Rightarrow> 'w \<Rightarrow> go_error option \<times> Gateway \<times> 'w" where
  "updateGatewayStatusIfChanged P url_other ssc C now gr k8sGw gc w =
     (let (g1, allProgrammed) = populateListenerStatuses P now gr k8sGw gc;
          (cs1, changed1) = ssc (gw_Conditions g1) (gateway_accepted now);
          (cs2, changed2) = ssc cs1 (gateway_programmed now allProgrammed);
          conditionsChanged = (changed2 \<or> changed1);
          g2 = g1\<lparr>gw_Conditions := cs2\<rparr>;
          oldAddresses = gw_Addresses g2;
          g3 = updateGatewayAddresses P url_other gr g2;
          addressesChanged = (\<not> gatewayAddressesEqual oldAddresses (gw_Addresses g3))
      in if conditionsChanged \<or> addressesChanged then c_UpdateGatewayStatus C g3 w
         else (None, g3, w))"

section \<open>The collected addresses\<close>

text \<open>The first occurrences of the hostnames that were not seen before.\<close>

fun new_hosts :: "string list \<Rightarrow> string list \<Rightarrow> string list" where
  "new_hosts seen [] = []"
| "new_hosts seen (x # xs) = (if x \<in> set seen then new_hosts seen xs else x # new_hosts (x # seen) xs)"

lemma set_new_hosts: "set (new_hosts seen xs) = set xs - set seen"
  by (induction seen xs rule: new_hosts.induct) auto

lemma distinct_new_hosts: "distinct (new_hosts seen xs)"
  by (induction seen xs rule: new_hosts.induct) (auto simp: set_new_hosts)

lemma add_addresses_eq:
  "add_addresses uo addrs sa seen =
     (sa @ map status_address (new_hosts seen (map (extractHostnameFromURI uo) addrs)),
      rev (new_hosts seen (map (extractHostnameFromURI uo) addrs)) @ seen)"
  by (induction uo addrs sa seen rule: add_addresses.induct) (simp_all add: Let_def)

lemma new_hosts_append:
  "new_hosts seen (xs @ ys) = new_hosts seen xs @ new_hosts (rev (new_hosts seen xs) @ seen) ys"
  by (induction seen xs rule: new_hosts.induct) auto

definition listener_hosts ::
  "'p sessionPool \<Rightarrow> (string \<Rightarrow> (string \<times> string) option) \<Rightarrow> 'p \<Rightarrow> Listener \<Rightarrow> string list" where
  "listener_hosts P uo p l =
     (if l_Rejected l then []
      else map (extractHostnameFromURI uo) (sp_GetAssignedAddresses P (l_SessionKind l) (l_Hostname l) (l_Port l) p))"

lemma add_listeners_eq:
  "add_listeners P uo p ls sa seen =
     sa @ map status_address (new_hosts seen (concat (map (\<lambda>e. listener_hosts P uo p (snd e)) ls)))"
  by (induction P uo p ls sa seen rule: add_listeners.induct)
    (auto simp: listener_hosts_def add_addresses_eq new_hosts_append)

lemma status_address_value [simp]: "a_Value (status_address h) = h"
  by (simp add: status_address_def)

lemma updateGatewayAddresses_frame:
  "updateGatewayAddresses P uo gr g = g\<lparr>gw_Addresses := gw_Addresses (updateGatewayAddresses P uo gr g)\<rparr>"
  by (auto simp: updateGatewayAddresses_def split: option.splits)

text \<open>What an address stands for: its value and its type, a missing type meaning a hostname.\<close>

definition address_view :: "GatewayStatusAddress \<Rightarrow> string \<times> AddressType" where
  "address_view a = (a_Value a, address_type a)"

lemma address_view_sel [simp]: "fst (address_view a) = a_Value a" "snd (address_view a) = address_type a"
  by (simp_all add: address_view_def)

lemma address_map_get:
  "distinct (map a_Value a) \<Longrightarrow>
   mget (address_map a m) v =
     (case mget (map address_view a) v of Some t \<Rightarrow> Some t | None \<Rightarrow> mget m v)"
proof (induction a arbitrary: m)
  case Nil
  then show ?case by simp
next
  case (Cons x a)
  then have "v = a_Value x \<Longrightarrow> mget (map address_view a) v = None"
    by (auto simp: map_of_eq_None_iff address_view_def image_iff)
  with Cons show ?case
    by (cases "v = a_Value x") (simp_all add: address_view_def [of x] split: option.splits)
qed

lemma addresses_in_map_iff:
  "addresses_in_map m b \<longleftrightarrow> (\<forall>x \<in> set b. mget m (a_Value x) = Some (address_type x))"
  by (induction m b rule: addresses_in_map.induct) (auto split: option.splits)

lemma distinct_address_view: "distinct (map a_Value a) \<Longrightarrow> distinct (map address_view a)"
  by (auto simp: distinct_map inj_on_def address_view_def)

lemma address_view_fst [simp]: "map (fst \<circ> address_view) a = map a_Value a"
  by simp

lemma gatewayAddressesEqual_sets:
  assumes "distinct (map a_Value a)" "distinct (map a_Value b)"
  shows "gatewayAddressesEqual a b \<longleftrightarrow> address_view ` set a = address_view ` set b"
proof -
  let ?va = "map address_view a" and ?vb = "map address_view b"
  have ka: "gomap_ok ?va" unfolding gomap_ok_def using assms(1) by simp
  have "addresses_in_map (address_map a []) b \<longleftrightarrow> (\<forall>x \<in> set b. mget ?va (a_Value x) = Some (address_type x))"
    using address_map_get [OF assms(1), of "[]"] by (auto simp: addresses_in_map_iff split: option.splits)
  also have "\<dots> \<longleftrightarrow> set ?vb \<subseteq> set ?va"
    using mget_Some_iff [OF ka] by (auto simp: address_view_def image_subset_iff)
  finally have m: "addresses_in_map (address_map a []) b \<longleftrightarrow> set ?vb \<subseteq> set ?va" .
  have d: "distinct ?va" "distinct ?vb" using assms by (simp_all add: distinct_address_view)
  have c: "card (set ?va) = length a" "card (set ?vb) = length b"
    using distinct_card [OF d(1)] distinct_card [OF d(2)] by simp_all
  show ?thesis
  proof
    assume "gatewayAddressesEqual a b"
    then have "length a = length b" "set ?vb \<subseteq> set ?va"
      using m by (auto simp: gatewayAddressesEqual_def split: if_splits)
    then show "address_view ` set a = address_view ` set b"
      using c card_subset_eq [of "set ?va" "set ?vb"] by simp
  next
    assume "address_view ` set a = address_view ` set b"
    then have "set ?va = set ?vb" by simp
    then show "gatewayAddressesEqual a b"
      using c m by (simp add: gatewayAddressesEqual_def)
  qed
qed

section \<open>Listener conditions\<close>

definition listener_entry ::
  "'p sessionPool \<Rightarrow> int option \<Rightarrow> 'p \<Rightarrow> ClassSessionConfig \<Rightarrow> K8sListener \<Rightarrow> Listener \<Rightarrow> ListenerStatus" where
  "listener_entry P now p ses k l =
     \<lparr>ls_Name = k_Name k, ls_SupportedKinds = supportedKindsFor l,
      ls_AttachedRoutes = attachedRouteCount l,
      ls_Conditions = [listenerProgrammedCondition P now p l ses]\<rparr>"

lemma listener_statuses_Cons:
  "listener_statuses P now p ses gw (k # ks) =
     (case mget gw (k_Name k) of
        None \<Rightarrow> listener_statuses P now p ses gw ks
      | Some l \<Rightarrow> (listener_entry P now p ses k l # fst (listener_statuses P now p ses gw ks),
                   c_Status (listenerProgrammedCondition P now p l ses) = ConditionTrue \<and>
                   snd (listener_statuses P now p ses gw ks)))"
  by (simp add: listener_entry_def Let_def split_beta split: option.splits)

declare listener_statuses.simps(2) [simp del]

lemma listener_statuses_eq:
  "listener_statuses P now p ses gw ks =
     (map (\<lambda>k. listener_entry P now p ses k (the (mget gw (k_Name k)))) (filter (\<lambda>k. mget gw (k_Name k) \<noteq> None) ks),
      list_all (\<lambda>k. \<forall>l. mget gw (k_Name k) = Some l \<longrightarrow>
        c_Status (listenerProgrammedCondition P now p l ses) = ConditionTrue) ks)"
  by (induction ks) (simp_all add: listener_statuses_Cons split: option.splits)

lemma programmed_status_iff:
  "c_Status (listenerProgrammedCondition P now p l (parseClassSessionConfig ann)) = ConditionTrue \<longleftrightarrow>
     \<not> l_Rejected l \<and> l_SessionKind l \<in> set (requiredSessionKinds (parseClassSessionConfig ann)) \<and>
     sp_IsConnected P (l_SessionKind l) p"
  using parseProxyProtocol_range [of ann]
  by (cases "l_SessionKind l")
    (auto simp: listenerProgrammedCondition_def set_requiredSessionKinds parseClassSessionConfig_def)

section \<open>When the status is written\<close>

definition has_condition :: "string \<Rightarrow> ConditionStatus \<Rightarrow> string \<Rightarrow> string \<Rightarrow> Condition list \<Rightarrow> bool" where
  "has_condition t st reason msg cs \<longleftrightarrow>
     (case condition_of t cs of None \<Rightarrow> False
      | Some d \<Rightarrow> c_Status d = st \<and> c_Reason d = reason \<and> c_Message d = msg \<and> c_ObservedGeneration d = 0)"

text \<open>The conditions that a Gateway should carry.\<close>

abbreviation says_accepted :: "Condition list \<Rightarrow> bool" where
  "says_accepted \<equiv> has_condition ''Accepted'' ConditionTrue ''Accepted'' ''Gateway accepted by controller''"

abbreviation says_programmed :: "bool \<Rightarrow> Condition list \<Rightarrow> bool" where
  "says_programmed ok \<equiv> has_condition ''Programmed'' (if ok then ConditionTrue else ConditionFalse)
     (if ok then ''Programmed'' else ''ListenersNotProgrammed'')
     (if ok then ''Gateway programmed successfully'' else ''At least one listener is not Programmed'')"

lemma gateway_condition_types [simp]:
  "c_Type (gateway_accepted now) = ''Accepted''" "c_Type (gateway_programmed now ok) = ''Programmed''"
  by (simp_all add: gateway_accepted_def gateway_programmed_def)

lemma has_condition_same:
  "(\<exists>d. condition_of ''Accepted'' cs = Some d \<and> same_content d (gateway_accepted now)) \<longleftrightarrow> says_accepted cs"
  "(\<exists>d. condition_of ''Programmed'' cs = Some d \<and> same_content d (gateway_programmed now ok)) \<longleftrightarrow> says_programmed ok cs"
  by (auto simp: has_condition_def same_content_def gateway_accepted_def gateway_programmed_def
      dest: condition_of_type split: option.splits)

lemma has_condition_cong: "condition_of t cs = condition_of t cs' \<Longrightarrow> has_condition t st r m cs = has_condition t st r m cs'"
  by (simp add: has_condition_def)

lemma populate_frame:
  "fst (populateListenerStatuses P now gr g gc)
     = g\<lparr>gw_ListenerStatuses := gw_ListenerStatuses (fst (populateListenerStatuses P now gr g gc))\<rparr>"
  by (auto simp: populateListenerStatuses_def Let_def split: option.splits prod.splits)

definition published_addresses ::
  "'p sessionPool \<Rightarrow> (string \<Rightarrow> (string \<times> string) option) \<Rightarrow> 'p GatewayReconciler \<Rightarrow> Gateway \<Rightarrow> GatewayStatusAddress list" where
  "published_addresses P uo gr g = gw_Addresses (updateGatewayAddresses P uo gr g)"

lemma published_addresses_cases:
  "published_addresses P uo gr g =
     (case mget (gr_gateways gr) (getGwKey (Namespace (gw_Meta g)) (Name (gw_Meta g))) of
        None \<Rightarrow> gw_Addresses g
      | Some gw \<Rightarrow> map status_address
          (new_hosts [] (concat (map (\<lambda>e. listener_hosts P uo (gr_pool gr) (snd e)) gw))))"
  by (auto simp: published_addresses_def updateGatewayAddresses_def add_listeners_eq split: option.splits)

lemma published_addresses_cong:
  "gw_Meta g' = gw_Meta g \<Longrightarrow> gw_Addresses g' = gw_Addresses g \<Longrightarrow>
   published_addresses P uo gr g' = published_addresses P uo gr g"
  by (simp add: published_addresses_cases split: option.splits)

lemma published_distinct:
  "distinct (map a_Value (gw_Addresses g)) \<Longrightarrow> distinct (map a_Value (published_addresses P uo gr g))"
  by (auto simp: published_addresses_cases comp_def distinct_new_hosts split: option.splits)

section \<open>Properties\<close>

text \<open>
  C11. The listener statuses of a Gateway. There is one entry per listener of the spec that is
  registered, in the order of the spec. Its only condition is Programmed, which is True exactly
  when the listener was not rejected, the GatewayClass asks for a session of its kind, and that
  session is connected; and a listener has at most one route. The Gateway as a whole counts
  as programmed exactly when all these listeners do.
\<close>

theorem listener_statuses_exact:
  assumes "mget (gr_gateways gr) (getGwKey (Namespace (gw_Meta g)) (Name (gw_Meta g))) = Some gw"
    and "populateListenerStatuses P now gr g gc = (g', allProgrammed)"
  shows "map ls_Name (gw_ListenerStatuses g') =
       map k_Name (filter (\<lambda>k. mget gw (k_Name k) \<noteq> None) (gw_Listeners g)) \<and>
     (allProgrammed \<longleftrightarrow> (\<forall>st \<in> set (gw_ListenerStatuses g'). map c_Status (ls_Conditions st) = [ConditionTrue])) \<and>
     (\<forall>st \<in> set (gw_ListenerStatuses g'). \<exists>l. mget gw (ls_Name st) = Some l \<and>
        map c_Type (ls_Conditions st) = [''Programmed''] \<and>
        (map c_Status (ls_Conditions st) = [ConditionTrue] \<longleftrightarrow>
           \<not> l_Rejected l \<and>
           l_SessionKind l \<in> set (requiredSessionKinds (parseClassSessionConfig (Annotations (gc_Meta gc)))) \<and>
           sp_IsConnected P (l_SessionKind l) (gr_pool gr)) \<and>
        ls_AttachedRoutes st = (if l_route l = None then 0 else 1))"
proof -
  let ?ses = "parseClassSessionConfig (Annotations (gc_Meta gc))"
  have r: "gw_ListenerStatuses g' = fst (listener_statuses P now (gr_pool gr) ?ses gw (gw_Listeners g))"
      "allProgrammed = snd (listener_statuses P now (gr_pool gr) ?ses gw (gw_Listeners g))"
    using assms by (auto simp: populateListenerStatuses_def Let_def split: prod.splits)
  have t: "c_Type (listenerProgrammedCondition P now p l s) = ''Programmed''" for p l s
    by (simp add: listenerProgrammedCondition_def)
  show ?thesis
    unfolding r listener_statuses_eq
    by (auto simp: listener_entry_def comp_def list_all_iff t programmed_status_iff attachedRouteCount_def)
qed

definition demo_listener :: Listener where
  "demo_listener = \<lparr>l_route = None, l_Protocol = ''HTTP'', l_Hostname = ''h'', l_Port = 80,
     l_SessionKind = SessionPlain, l_Rejected = False, l_Reason = []\<rparr>"

definition demo_status_pool :: "unit sessionPool" where
  "demo_status_pool = \<lparr>sp_ConfigureSessions = (\<lambda>v s p. (None, p)), sp_StartForwarding = (\<lambda>k c p. (None, p)),
     sp_StopForwarding = (\<lambda>k c p. (None, p)), sp_GetAssignedAddresses = (\<lambda>k h n p. [''http://h'', ''tcp://h:9'', ''https://h'']),
     sp_IsConnected = (\<lambda>k p. True), sp_Connect = (\<lambda>p. p), sp_Stop = (\<lambda>p. p)\<rparr>"

definition demo_meta :: ObjectMeta where
  "demo_meta = \<lparr>Namespace = ''ns'', Name = ''gw'', Annotations = (\<lambda>_. None), Finalizers = [],
     Deleted = False, Generation = 1\<rparr>"

definition demo_gateway :: Gateway where
  "demo_gateway = \<lparr>gw_Meta = demo_meta, gw_ClassName = ''c'',
     gw_Listeners = [\<lparr>k_Name = ''web'', k_Hostname = Some ''h'', k_Port = 80, k_Protocol = ''HTTP'', k_TLS = None\<rparr>],
     gw_Addresses = [], gw_Conditions = [], gw_ListenerStatuses = []\<rparr>"

definition demo_class :: GatewayClass where
  "demo_class = \<lparr>gc_Meta = demo_meta, gc_ControllerName = ''x'', gc_Conditions = []\<rparr>"

definition demo_registry :: "unit GatewayReconciler" where
  "demo_registry = \<lparr>gr_pool = (), gr_gateways = [(''ns/gw'', [(''web'', demo_listener)])]\<rparr>"

lemmas demo_status_defs = demo_listener_def demo_status_pool_def demo_meta_def demo_gateway_def
  demo_class_def demo_registry_def

theorem listener_statuses_exact_witness:
  "snd (populateListenerStatuses demo_status_pool None demo_registry demo_gateway demo_class)"
proof -
  have k: "mget (gr_gateways demo_registry) (getGwKey (Namespace (gw_Meta demo_gateway)) (Name (gw_Meta demo_gateway)))
      = Some [(''web'', demo_listener)]" by code_simp
  have p: "populateListenerStatuses demo_status_pool None demo_registry demo_gateway demo_class =
      (fst (populateListenerStatuses demo_status_pool None demo_registry demo_gateway demo_class),
       snd (populateListenerStatuses demo_status_pool None demo_registry demo_gateway demo_class))" by simp
  have st: "gw_ListenerStatuses (fst (populateListenerStatuses demo_status_pool None demo_registry demo_gateway demo_class))
      = [listener_entry demo_status_pool None () (parseClassSessionConfig (\<lambda>_. None)) (hd (gw_Listeners demo_gateway)) demo_listener]"
    by code_simp
  have c: "map c_Status (ls_Conditions (listener_entry demo_status_pool None () (parseClassSessionConfig (\<lambda>_. None))
      (hd (gw_Listeners demo_gateway)) demo_listener)) = [ConditionTrue]" by code_simp
  show ?thesis using listener_statuses_exact [OF k p] st c by auto
qed

text \<open>
  C24. The published addresses do not depend on the order in which the listeners are visited:
  they are the hostnames (with a port for TCP) of exactly the addresses assigned to the
  listeners that were not rejected, each once, and an address is typed as named exactly when
  it contains a colon.
\<close>

theorem published_addresses_exact:
  assumes "mget (gr_gateways gr) (getGwKey (Namespace (gw_Meta g)) (Name (gw_Meta g))) = Some gw"
  shows "distinct (map a_Value (gw_Addresses (updateGatewayAddresses P uo gr g))) \<and>
     (\<forall>a. a \<in> set (gw_Addresses (updateGatewayAddresses P uo gr g)) \<longleftrightarrow>
        (\<exists>name l uri. (name, l) \<in> set gw \<and> \<not> l_Rejected l \<and>
           uri \<in> set (sp_GetAssignedAddresses P (l_SessionKind l) (l_Hostname l) (l_Port l) (gr_pool gr)) \<and>
           a = \<lparr>a_Type = Some (if CHR '':'' \<in> set (extractHostnameFromURI uo uri) then NamedAddressType else HostnameAddressType),
                a_Value = extractHostnameFromURI uo uri\<rparr>))"
proof -
  let ?hs = "concat (map (\<lambda>e. listener_hosts P uo (gr_pool gr) (snd e)) gw)"
  have e: "gw_Addresses (updateGatewayAddresses P uo gr g) = map status_address (new_hosts [] ?hs)"
    using published_addresses_cases [of P uo gr g] assms by (simp add: published_addresses_def)
  have c: "Contains h '':'' \<longleftrightarrow> CHR '':'' \<in> set h" for h
    by (auto simp: Contains_iff in_set_conv_decomp)
  have s: "a \<in> set (map status_address (new_hosts [] ?hs)) \<longleftrightarrow>
      (\<exists>name l uri. (name, l) \<in> set gw \<and> \<not> l_Rejected l \<and>
         uri \<in> set (sp_GetAssignedAddresses P (l_SessionKind l) (l_Hostname l) (l_Port l) (gr_pool gr)) \<and>
         a = status_address (extractHostnameFromURI uo uri))" for a
    by (fastforce simp: set_new_hosts listener_hosts_def split: if_splits)
  show ?thesis
    unfolding e using s by (simp add: status_address_def c comp_def distinct_new_hosts)
qed

theorem published_addresses_exact_witness:
  "map a_Value (gw_Addresses (updateGatewayAddresses demo_status_pool (\<lambda>_. None) demo_registry demo_gateway)) = [''h'', ''h:9''] \<and>
   distinct (map a_Value (gw_Addresses (updateGatewayAddresses demo_status_pool (\<lambda>_. None) demo_registry demo_gateway)))"
proof -
  have k: "mget (gr_gateways demo_registry) (getGwKey (Namespace (gw_Meta demo_gateway)) (Name (gw_Meta demo_gateway)))
      = Some [(''web'', demo_listener)]" by code_simp
  have v: "map a_Value (gw_Addresses (updateGatewayAddresses demo_status_pool (\<lambda>_. None) demo_registry demo_gateway))
      = [''h'', ''h:9'']" by code_simp
  show ?thesis using published_addresses_exact [OF k, of demo_status_pool "\<lambda>_. None"] v by simp
qed

lemma status_write_split:
  assumes "updateGatewayStatusIfChanged P uo ssc C now gr g gc w = (err, g', w')"
  obtains cs1 cs2 sent where
    "cs1 = fst (ssc (gw_Conditions g) (gateway_accepted now))"
    "cs2 = fst (ssc cs1 (gateway_programmed now (snd (populateListenerStatuses P now gr g gc))))"
    "gw_Conditions sent = cs2" "gw_Addresses sent = published_addresses P uo gr g"
    "(err, g', w') =
       (if snd (ssc cs1 (gateway_programmed now (snd (populateListenerStatuses P now gr g gc)))) \<or>
           snd (ssc (gw_Conditions g) (gateway_accepted now)) \<or>
           \<not> gatewayAddressesEqual (gw_Addresses g) (published_addresses P uo gr g)
        then c_UpdateGatewayStatus C sent w else (None, sent, w))"
proof -
  obtain g1 ok where p: "populateListenerStatuses P now gr g gc = (g1, ok)" by (metis prod.collapse)
  have "g1 = g\<lparr>gw_ListenerStatuses := gw_ListenerStatuses g1\<rparr>"
    using populate_frame [of P now gr g gc] by (simp add: p)
  then have g1: "gw_Meta g1 = gw_Meta g" "gw_Addresses g1 = gw_Addresses g" "gw_Conditions g1 = gw_Conditions g"
    by (metis Gateway.select_convs Gateway.surjective Gateway.update_convs(6))+
  obtain cs1 ch1 where s1: "ssc (gw_Conditions g) (gateway_accepted now) = (cs1, ch1)" by (metis prod.collapse)
  obtain cs2 ch2 where s2: "ssc cs1 (gateway_programmed now ok) = (cs2, ch2)" by (metis prod.collapse)
  let ?g2 = "g1\<lparr>gw_Conditions := cs2\<rparr>"
  let ?sent = "updateGatewayAddresses P uo gr ?g2"
  have a: "gw_Addresses ?sent = published_addresses P uo gr g"
    using published_addresses_cong [of ?g2 g P uo gr] g1 by (simp add: published_addresses_def)
  have "gw_Conditions ?sent = cs2" by (subst updateGatewayAddresses_frame) simp
  then show ?thesis
    using that [of cs1 cs2 ?sent] assms s1 s2 a g1 p
    by (simp add: updateGatewayStatusIfChanged_def Let_def)
qed

text \<open>
  C23. The status of a Gateway is written exactly when something changed. Given the documented
  behaviour of \<open>SetStatusCondition\<close> and an old address list without duplicates, the API is left
  alone when Accepted and Programmed already say what they should and the set of typed addresses
  is the same, in whatever order; otherwise one update is sent, which carries the new
  conditions and addresses.
\<close>

theorem status_written_iff_changed:
  assumes doc: "set_condition_doc ssc" and old: "distinct (map a_Value (gw_Addresses g))"
    and run: "updateGatewayStatusIfChanged P uo ssc C now gr g gc w = (err, g', w')"
    and ok: "ok = snd (populateListenerStatuses P now gr g gc)"
  shows
    "if says_accepted (gw_Conditions g) \<and> says_programmed ok (gw_Conditions g) \<and>
        address_view ` set (published_addresses P uo gr g) = address_view ` set (gw_Addresses g)
     then err = None \<and> w' = w
     else \<exists>sent. (err, g', w') = c_UpdateGatewayStatus C sent w \<and>
        gw_Addresses sent = published_addresses P uo gr g \<and>
        says_accepted (gw_Conditions sent) \<and> says_programmed ok (gw_Conditions sent)"
proof -
  obtain cs1 cs2 sent where
    cs: "cs1 = fst (ssc (gw_Conditions g) (gateway_accepted now))" "cs2 = fst (ssc cs1 (gateway_programmed now ok))" and
    sent: "gw_Conditions sent = cs2" "gw_Addresses sent = published_addresses P uo gr g" and
    r: "(err, g', w') =
       (if snd (ssc cs1 (gateway_programmed now ok)) \<or> snd (ssc (gw_Conditions g) (gateway_accepted now)) \<or>
           \<not> gatewayAddressesEqual (gw_Addresses g) (published_addresses P uo gr g)
        then c_UpdateGatewayStatus C sent w else (None, sent, w))"
    using run unfolding ok by (rule status_write_split)
  have set1: "says_accepted cs1"
    using ssc_set [OF doc, of "gateway_accepted now" "gw_Conditions g"] has_condition_same(1) [of cs1 now] cs(1) by simp
  have prog1: "says_programmed ok cs1 = says_programmed ok (gw_Conditions g)"
    using ssc_other [OF doc, of "''Programmed''" "gateway_accepted now" "gw_Conditions g"] cs(1)
    by (intro has_condition_cong) simp
  have acc2: "says_accepted cs2"
    using ssc_other [OF doc, of "''Accepted''" "gateway_programmed now ok" cs1] cs(2) set1
      has_condition_cong [of "''Accepted''" cs2 cs1] by simp
  have prog2: "says_programmed ok cs2"
    using ssc_set [OF doc, of "gateway_programmed now ok" cs1] has_condition_same(2) [of cs2 now ok] cs(2) by simp
  have c1: "snd (ssc (gw_Conditions g) (gateway_accepted now)) \<longleftrightarrow> \<not> says_accepted (gw_Conditions g)"
    by (simp only: ssc_changed_iff [OF doc] gateway_condition_types has_condition_same)
  have c2: "snd (ssc cs1 (gateway_programmed now ok)) \<longleftrightarrow> \<not> says_programmed ok (gw_Conditions g)"
    by (simp only: ssc_changed_iff [OF doc] gateway_condition_types has_condition_same prog1)
  have a: "gatewayAddressesEqual (gw_Addresses g) (published_addresses P uo gr g) \<longleftrightarrow>
      address_view ` set (published_addresses P uo gr g) = address_view ` set (gw_Addresses g)"
    by (subst gatewayAddressesEqual_sets [OF old published_distinct [OF old]]) (rule eq_commute)
  show ?thesis
    using r sent acc2 prog2 unfolding c1 c2 a by (auto split: if_splits)
qed

definition demo_client :: "nat api_client" where
  "demo_client = \<lparr>c_GetGateway = (\<lambda>ns n w. (Inr demo_gateway, w)), c_GetGatewayClass = (\<lambda>n w. (Inr demo_class, w)),
     c_GetRoute = (\<lambda>ns n w. (Inr demo_route, w)), c_UpdateGateway = (\<lambda>g w. (None, g, w + 1)),
     c_UpdateGatewayStatus = (\<lambda>g w. (None, g, w + 1)), c_UpdateGatewayClassStatus = (\<lambda>g w. (None, g, w + 1)),
     c_UpdateRoute = (\<lambda>r w. (None, r, w + 1)), c_UpdateRouteStatus = (\<lambda>r w. (None, r, w + 1))\<rparr>"

text \<open>The first run writes once, and a second run on what it wrote leaves the API alone.\<close>

theorem status_written_iff_changed_witness:
  "fst (snd (updateGatewayStatusIfChanged demo_status_pool (\<lambda>_. None) demo_ssc demo_client None demo_registry
      demo_gateway demo_class 0)) \<noteq> demo_gateway \<and>
   snd (snd (updateGatewayStatusIfChanged demo_status_pool (\<lambda>_. None) demo_ssc demo_client None demo_registry
      (fst (snd (updateGatewayStatusIfChanged demo_status_pool (\<lambda>_. None) demo_ssc demo_client None demo_registry
        demo_gateway demo_class 0))) demo_class 7)) = (7 :: nat)"
proof -
  let ?run = "\<lambda>g. updateGatewayStatusIfChanged demo_status_pool (\<lambda>_. None) demo_ssc demo_client None demo_registry g demo_class"
  let ?g1 = "fst (snd (?run demo_gateway 0))"
  let ?ok = "snd (populateListenerStatuses demo_status_pool None demo_registry ?g1 demo_class)"
  have d: "distinct (map a_Value (gw_Addresses ?g1))" by code_simp
  have cur: "says_accepted (gw_Conditions ?g1)" "says_programmed ?ok (gw_Conditions ?g1)"
      "address_view ` set (published_addresses demo_status_pool (\<lambda>_. None) demo_registry ?g1) = address_view ` set (gw_Addresses ?g1)"
    by code_simp+
  have r: "?run ?g1 7 = (fst (?run ?g1 7), fst (snd (?run ?g1 7)), snd (snd (?run ?g1 7)))" by simp
  have n: "map a_Value (gw_Addresses ?g1) = [''h'', ''h:9'']" "gw_Addresses demo_gateway = []" by code_simp+
  show ?thesis
    using status_written_iff_changed [OF demo_ssc_doc d r refl] cur n by fastforce
qed

text \<open>With a repeated value the comparison is not symmetric: the same two lists differ one way round only.\<close>

lemma address_comparison_duplicates:
  "x \<noteq> y \<Longrightarrow> gatewayAddressesEqual [status_address x, status_address y] [status_address x, status_address x] \<and>
     \<not> gatewayAddressesEqual [status_address x, status_address x] [status_address x, status_address y]"
  by (simp add: gatewayAddressesEqual_def)

end
