(* ===== verification/Host_Match.thy ===== *)
theory Host_Match
  imports Ssh_Types
begin

text \<open>
  The comparison of the URIs that the SSH server reports with the host and port that were
  requested: \<open>MatchesRequestedHost\<close>, \<open>httpURIHasHost\<close> and \<open>tcpURIPort\<close> of
  \<open>ssh/ssh_tunnel_manager.go\<close>.
\<close>

definition httpURIHasHost :: "string \<Rightarrow> string \<Rightarrow> bool" where
  "httpURIHasHost uri requestedHost =
     (let check = (\<lambda>rest.
            if \<not> HasPrefix rest requestedHost then False
            else (let remainder = drop (length requestedHost) rest
                  in if remainder = [] then True
                     else hd remainder = CHR ''/'' \<or> hd remainder = CHR '':''))
      in if HasPrefix uri ''http://'' then check (TrimPrefix uri ''http://'')
         else if HasPrefix uri ''https://'' then check (TrimPrefix uri ''https://'')
         else False)"

definition tcpURIPort :: "string \<Rightarrow> int option" where
  "tcpURIPort uri = (case SplitHostPort (TrimPrefix uri ''tcp://'') of
       Inl _ \<Rightarrow> None
     | Inr (_, portStr) \<Rightarrow> Atoi portStr)"

fun MatchesRequestedHost :: "string list \<Rightarrow> string \<Rightarrow> int \<Rightarrow> bool \<Rightarrow> bool" where
  "MatchesRequestedHost [] requestedHost requestedPort enforcePort = False"
| "MatchesRequestedHost (uri # uris) requestedHost requestedPort enforcePort =
     (let hostnameWildcard = wildcardHost requestedHost;
          continue = MatchesRequestedHost uris requestedHost requestedPort enforcePort
      in if HasPrefix uri ''http://'' \<or> HasPrefix uri ''https://'' then
           (if hostnameWildcard then True
            else if httpURIHasHost uri requestedHost then True
            else continue)
         else if HasPrefix uri ''tcp://'' then
           (if \<not> hostnameWildcard then
              (if Contains uri (requestedHost @ '':'' @ Itoa requestedPort) then True else continue)
            else if \<not> enforcePort then True
            else (case tcpURIPort uri of
                    None \<Rightarrow> continue
                  | Some uriPort \<Rightarrow> if uriPort = requestedPort then True else continue))
         else continue)"

section \<open>Reference definitions\<close>

text \<open>The host component of an http or https URI: what stands before the first \<open>/\<close> or \<open>:\<close>.\<close>

definition uri_host :: "string \<Rightarrow> string option" where
  "uri_host uri =
     (let host = takeWhile (\<lambda>c. c \<noteq> CHR ''/'' \<and> c \<noteq> CHR '':'')
      in if HasPrefix uri ''http://'' then Some (host (drop 7 uri))
         else if HasPrefix uri ''https://'' then Some (host (drop 8 uri))
         else None)"

text \<open>What one URI must satisfy, by the kind of the request.\<close>

definition uri_satisfies :: "string \<Rightarrow> int \<Rightarrow> bool \<Rightarrow> string \<Rightarrow> bool" where
  "uri_satisfies h p enforce uri \<longleftrightarrow>
     (if HasPrefix uri ''http://'' \<or> HasPrefix uri ''https://''
      then wildcardHost h \<or> httpURIHasHost uri h
      else HasPrefix uri ''tcp://'' \<and>
           (if wildcardHost h then enforce \<longrightarrow> tcpURIPort uri = Some p
            else Contains uri (forwardingKey h p)))"

lemma MatchesRequestedHost_iff:
  "MatchesRequestedHost uris h p enforce \<longleftrightarrow> (\<exists>uri \<in> set uris. uri_satisfies h p enforce uri)"
proof (induction uris)
  case Nil
  then show ?case by simp
next
  case (Cons u uris)
  have "MatchesRequestedHost (u # uris) h p enforce \<longleftrightarrow>
      uri_satisfies h p enforce u \<or> MatchesRequestedHost uris h p enforce"
    by (auto simp: uri_satisfies_def forwardingKey_def Let_def split: option.splits)
  with Cons show ?case by simp
qed

lemma http_https_disjoint: "HasPrefix uri ''http://'' \<Longrightarrow> \<not> HasPrefix uri ''https://''"
  by (auto simp: HasPrefix_iff)

lemma takeWhile_host_eq:
  assumes "CHR ''/'' \<notin> set h" "CHR '':'' \<notin> set h"
  shows "takeWhile (\<lambda>c. c \<noteq> CHR ''/'' \<and> c \<noteq> CHR '':'') r = h \<longleftrightarrow>
    HasPrefix r h \<and> (drop (length h) r = [] \<or> hd (drop (length h) r) = CHR ''/'' \<or> hd (drop (length h) r) = CHR '':'')"
    (is "takeWhile ?P r = h \<longleftrightarrow> _")
proof
  assume tw: "takeWhile ?P r = h"
  have r: "r = h @ dropWhile ?P r"
    using takeWhile_dropWhile_id [of ?P r] tw by simp
  then have "HasPrefix r h" "drop (length h) r = dropWhile ?P r"
    by (metis HasPrefix_append, metis append_eq_conv_conj)
  then show "HasPrefix r h \<and> (drop (length h) r = [] \<or> hd (drop (length h) r) = CHR ''/'' \<or> hd (drop (length h) r) = CHR '':'')"
    using hd_dropWhile [of ?P r] by auto
next
  assume a: "HasPrefix r h \<and> (drop (length h) r = [] \<or> hd (drop (length h) r) = CHR ''/'' \<or> hd (drop (length h) r) = CHR '':'')"
  then obtain t where r: "r = h @ t" by (auto simp: HasPrefix_iff)
  have h: "\<forall>c \<in> set h. ?P c" using assms by metis
  with a r show "takeWhile ?P r = h"
    by (cases t) (auto simp: takeWhile_append)
qed

lemma TrimPrefix_scheme:
  "HasPrefix uri ''http://'' \<Longrightarrow> TrimPrefix uri ''http://'' = drop 7 uri"
  "HasPrefix uri ''https://'' \<Longrightarrow> TrimPrefix uri ''https://'' = drop 8 uri"
  by (simp_all only: TrimPrefix_def if_True) (simp_all add: numeral_eq_Suc)

lemma httpURIHasHost_uri_host:
  assumes "CHR ''/'' \<notin> set h" "CHR '':'' \<notin> set h"
  shows "httpURIHasHost uri h \<longleftrightarrow> uri_host uri = Some h"
proof -
  note tw = takeWhile_host_eq [OF assms]
  consider (http) "HasPrefix uri ''http://''"
    | (https) "\<not> HasPrefix uri ''http://''" "HasPrefix uri ''https://''"
    | (other) "\<not> HasPrefix uri ''http://''" "\<not> HasPrefix uri ''https://''"
    by blast
  then show ?thesis
  proof cases
    case http
    then show ?thesis
      by (simp only: httpURIHasHost_def uri_host_def Let_def TrimPrefix_scheme if_True tw option.inject)
        (simp only: not_not if_distrib if_bool_eq_conj simp_thms, blast)
  next
    case https
    then show ?thesis
      by (simp only: httpURIHasHost_def uri_host_def Let_def TrimPrefix_scheme if_True if_False tw option.inject)
        (simp only: not_not if_distrib if_bool_eq_conj simp_thms, blast)
  next
    case other
    then show ?thesis
      by (simp only: httpURIHasHost_def uri_host_def Let_def if_False option.distinct)
  qed
qed

lemma tcpURIPort_tcp:
  assumes "CHR '':'' \<notin> set h" "CHR ''['' \<notin> set h" "CHR '']'' \<notin> set h"
    and "- (2 ^ 63) \<le> p" "p < 2 ^ 63"
  shows "tcpURIPort (''tcp://'' @ h @ '':'' @ Itoa p) = Some p"
  using assms
  by (simp add: tcpURIPort_def SplitHostPort_plain Itoa_no_sep Atoi_Itoa TrimPrefix_def HasPrefix_def)

section \<open>Properties\<close>

text \<open>
  C36. For a specific hostname (one without a slash or a colon), the comparison accepts a list of
  URIs exactly when one of them is an http or https URI whose host component is that
  hostname, or a tcp URI that contains host:port. Neither a longer host that ends in the
  requested one nor a path that mentions it is accepted for http.
\<close>

theorem specific_host_reference:
  assumes "\<not> wildcardHost h" "CHR ''/'' \<notin> set h" "CHR '':'' \<notin> set h"
  shows "MatchesRequestedHost uris h p enforce \<longleftrightarrow>
    (\<exists>uri \<in> set uris. uri_host uri = Some h \<or>
       HasPrefix uri ''tcp://'' \<and> Contains uri (forwardingKey h p))"
proof -
  have other: "uri_host uri = Some h \<Longrightarrow> HasPrefix uri ''http://'' \<or> HasPrefix uri ''https://''" for uri
    by (auto simp: uri_host_def Let_def simp del: HasPrefix_Cons split: if_splits)
  have tcp: "HasPrefix uri ''tcp://'' \<Longrightarrow> \<not> HasPrefix uri ''http://'' \<and> \<not> HasPrefix uri ''https://''" for uri
    by (auto simp: HasPrefix_iff)
  have "uri_satisfies h p enforce uri \<longleftrightarrow>
      uri_host uri = Some h \<or> HasPrefix uri ''tcp://'' \<and> Contains uri (forwardingKey h p)" for uri
    using assms(1) httpURIHasHost_uri_host [OF assms(2,3), of uri] other [of uri] tcp [of uri]
    unfolding uri_satisfies_def by argo
  then show ?thesis by (simp add: MatchesRequestedHost_iff)
qed

theorem specific_host_reference_witness:
  "MatchesRequestedHost [''https://dev.example.com/x''] ''dev.example.com'' 80 False \<and>
   \<not> MatchesRequestedHost [''https://user-dev.example.com''] ''dev.example.com'' 80 False"
proof -
  have h: "\<not> wildcardHost ''dev.example.com''" by (simp add: wildcardHost_def)
  show ?thesis
    using specific_host_reference [of "''dev.example.com''" "[''https://dev.example.com/x'']" 80 False]
      specific_host_reference [of "''dev.example.com''" "[''https://user-dev.example.com'']" 80 False] h
    by (simp add: uri_host_def HasPrefix_def)
qed

text \<open>
  C37. For a wildcard hostname with an enforced port, a tcp URI host:port as the server
  reports it is accepted exactly when its port is the requested one.
\<close>

theorem enforced_port_exact:
  assumes "wildcardHost w" "CHR '':'' \<notin> set h" "CHR ''['' \<notin> set h" "CHR '']'' \<notin> set h"
    and "0 \<le> q" "q \<le> 65535"
  shows "MatchesRequestedHost [''tcp://'' @ h @ '':'' @ Itoa q] w p True \<longleftrightarrow> q = p"
proof -
  have "tcpURIPort (''tcp://'' @ h @ '':'' @ Itoa q) = Some q"
    using assms by (intro tcpURIPort_tcp) auto
  with assms(1) show ?thesis by (simp add: MatchesRequestedHost_iff uri_satisfies_def)
qed

theorem enforced_port_exact_witness:
  "MatchesRequestedHost [''tcp://nue.tuns.sh:'' @ Itoa 34012] ''0.0.0.0'' 34012 True \<and>
   \<not> MatchesRequestedHost [''tcp://nue.tuns.sh:'' @ Itoa 34012] ''0.0.0.0'' 22 True"
  using enforced_port_exact [of "''0.0.0.0''" "''nue.tuns.sh''" 34012 34012]
    enforced_port_exact [of "''0.0.0.0''" "''nue.tuns.sh''" 34012 22]
  by (simp add: wildcardHost_def)

text \<open>
  For a specific hostname the comparison of a tcp URI is a substring test, also when the
  port is enforced: any text may stand before the host and after the port, so a longer
  hostname and a longer port number are accepted too (port 80 by a URI with port 8080).
\<close>

theorem specific_tcp_match_is_substring:
  assumes "\<not> wildcardHost h"
  shows "MatchesRequestedHost [''tcp://'' @ before @ h @ '':'' @ Itoa p @ after] h p enforce"
proof -
  have "Contains (''tcp://'' @ before @ h @ '':'' @ Itoa p @ after) (forwardingKey h p)"
    unfolding Contains_iff forwardingKey_def by (rule exI [of _ "''tcp://'' @ before"]) auto
  with assms show ?thesis
    by (simp add: MatchesRequestedHost_iff uri_satisfies_def del: Contains.simps)
qed

theorem specific_tcp_match_is_substring_witness:
  "MatchesRequestedHost [''tcp://my-example.com:8080''] ''example.com'' 80 True \<and>
   tcpURIPort ''tcp://my-example.com:8080'' = Some 8080"
proof
  have "Itoa 80 = ''80''" by code_simp
  then show "MatchesRequestedHost [''tcp://my-example.com:8080''] ''example.com'' 80 True"
    using specific_tcp_match_is_substring [of "''example.com''" "''my-''" 80 "''80''" True]
    by (simp add: wildcardHost_def)
  show "tcpURIPort ''tcp://my-example.com:8080'' = Some 8080" by code_simp
qed

end
