(* ===== verification/Session_Manager.thy ===== *)
theory Session_Manager
  imports Ssh_Types
begin

text \<open>
  The Go interface \<open>sessionManager\<close> of \<open>ssh/ssh_session_pool.go\<close>: the methods through
  which the pool drives one SSH session, as a record of functions over a manager state
  \<open>'m\<close> and a world \<open>'w\<close> (what has happened on the wire so far); and the contract that
  the pool and the controllers rely on, as a locale. \<open>active\<close> is the abstract view of a
  manager: the forwardings it holds, by key. The provider is \<open>SSHTunnelManager\<close>, whose
  theory interprets the locale.
\<close>

record ('m, 'w) sessionManager =
  sm_StartForwarding :: "ForwardingConfig \<Rightarrow> 'm \<Rightarrow> 'w \<Rightarrow> go_error option \<times> 'm \<times> 'w"
  sm_StopForwarding :: "ForwardingConfig \<Rightarrow> 'm \<Rightarrow> 'w \<Rightarrow> go_error option \<times> 'm \<times> 'w"
  sm_GetAssignedAddresses :: "string \<Rightarrow> int \<Rightarrow> 'm \<Rightarrow> string list"
  sm_IsConnected :: "'m \<Rightarrow> bool"
  sm_Stop :: "'m \<Rightarrow> 'w \<Rightarrow> 'm \<times> 'w"
  sm_Connect :: "'m \<Rightarrow> 'w \<Rightarrow> go_error option \<times> 'm \<times> 'w"

locale session_manager =
  fixes M :: "('m, 'w) sessionManager"
    and inv :: "'m \<Rightarrow> bool"
    and active :: "'m \<Rightarrow> string \<Rightarrow> ForwardingConfig option"
  assumes start_inv: "inv m \<Longrightarrow> sm_StartForwarding M fwd m w = (e, m', w') \<Longrightarrow> inv m'"
    and stop_inv: "inv m \<Longrightarrow> sm_StopForwarding M fwd m w = (e, m', w') \<Longrightarrow> inv m'"
    and shutdown_inv: "inv m \<Longrightarrow> sm_Stop M m w = (m', w') \<Longrightarrow> inv m'"
    and connect_inv: "inv m \<Longrightarrow> sm_Connect M m w = (e, m', w') \<Longrightarrow> inv m'"
    and offline_empty: "inv m \<Longrightarrow> \<not> sm_IsConnected M m \<Longrightarrow> active m k = None"
    and addrs_active: "inv m \<Longrightarrow> active m (forwardingKey h p) = None \<Longrightarrow> sm_GetAssignedAddresses M h p m = []"
    and start_offline: "\<not> sm_IsConnected M m \<Longrightarrow>
      sm_StartForwarding M fwd m w = (Some ErrSSHClientNotReady, m, w)"
    and start_exists: "inv m \<Longrightarrow> sm_IsConnected M m \<Longrightarrow> active m (cfgKey fwd) = Some old \<Longrightarrow>
      sm_StartForwarding M fwd m w = (Some (ErrSSHForwardingExists (cfgKey fwd)), m, w)"
    and start_ok: "inv m \<Longrightarrow> sm_StartForwarding M fwd m w = (None, m', w') \<Longrightarrow>
      active m' = (active m)(cfgKey fwd \<mapsto> fwd)"
    and start_fail: "inv m \<Longrightarrow> sm_StartForwarding M fwd m w = (Some err, m', w') \<Longrightarrow> m' = m"
    and start_connected: "inv m \<Longrightarrow> sm_StartForwarding M fwd m w = (e, m', w') \<Longrightarrow>
      sm_IsConnected M m' = sm_IsConnected M m"
    and start_addrs_other: "inv m \<Longrightarrow> sm_StartForwarding M fwd m w = (e, m', w') \<Longrightarrow>
      forwardingKey h p \<noteq> cfgKey fwd \<Longrightarrow> sm_GetAssignedAddresses M h p m' = sm_GetAssignedAddresses M h p m"
    and stop_offline: "\<not> sm_IsConnected M m \<Longrightarrow>
      sm_StopForwarding M fwd m w = (Some ErrSSHClientNotReady, m, w)"
    and stop_missing: "inv m \<Longrightarrow> sm_IsConnected M m \<Longrightarrow> active m (cfgKey fwd) = None \<Longrightarrow>
      sm_StopForwarding M fwd m w = (Some (ErrSSHForwardingNotFound (cfgKey fwd)), m, w)"
    and stop_active: "inv m \<Longrightarrow> sm_IsConnected M m \<Longrightarrow> active m (cfgKey fwd) = Some old \<Longrightarrow>
      sm_StopForwarding M fwd m w = (e, m', w') \<Longrightarrow> active m' = (active m)(cfgKey fwd := None)"
    and stop_connected: "inv m \<Longrightarrow> sm_StopForwarding M fwd m w = (e, m', w') \<Longrightarrow>
      sm_IsConnected M m' = sm_IsConnected M m"
    and stop_addrs_other: "inv m \<Longrightarrow> sm_StopForwarding M fwd m w = (e, m', w') \<Longrightarrow>
      forwardingKey h p \<noteq> cfgKey fwd \<Longrightarrow> sm_GetAssignedAddresses M h p m' = sm_GetAssignedAddresses M h p m"
    and connect_online: "sm_IsConnected M m \<Longrightarrow> sm_Connect M m w = (None, m, w)"
    and connect_ok: "inv m \<Longrightarrow> sm_Connect M m w = (None, m', w') \<Longrightarrow> sm_IsConnected M m'"
    and connect_fail: "sm_Connect M m w = (Some err, m', w') \<Longrightarrow> m' = m"
    and connect_active: "inv m \<Longrightarrow> sm_Connect M m w = (e, m', w') \<Longrightarrow> active m' = active m"
    and shutdown_offline: "inv m \<Longrightarrow> sm_Stop M m w = (m', w') \<Longrightarrow> \<not> sm_IsConnected M m'"
    and start_exists_only: "inv m \<Longrightarrow> sm_StartForwarding M fwd m w = (Some err, m', w') \<Longrightarrow>
      errors_As is_ForwardingExists err \<Longrightarrow> active m (cfgKey fwd) \<noteq> None"
    and stop_error: "sm_StopForwarding M fwd m w = (Some err, m', w') \<Longrightarrow>
      \<not> errors_As is_GatewayNotFound err \<and> \<not> errors_As is_RouteNotFound err"
begin

lemma active_connected: "inv m \<Longrightarrow> active m k = Some fwd \<Longrightarrow> sm_IsConnected M m"
  using offline_empty [of m k] by force

lemma start_ok_connected:
  "sm_StartForwarding M fwd m w = (None, m', w') \<Longrightarrow> sm_IsConnected M m"
  using start_offline [of m fwd w] by force

lemma start_ok_fresh:
  "inv m \<Longrightarrow> sm_StartForwarding M fwd m w = (None, m', w') \<Longrightarrow> active m (cfgKey fwd) = None"
  using start_exists [of m fwd _ w] start_ok_connected [of fwd m w m' w']
  by (cases "active m (cfgKey fwd)") auto

text \<open>Whatever a start answers, the forwardings it did not ask for stay as they were.\<close>

lemma start_active:
  "inv m \<Longrightarrow> sm_StartForwarding M fwd m w = (e, m', w') \<Longrightarrow>
     active m' = (if e = None then (active m)(cfgKey fwd \<mapsto> fwd) else active m)"
  by (cases e) (auto dest: start_ok start_fail)

lemma stop_active_general:
  assumes "inv m" "sm_StopForwarding M fwd m w = (e, m', w')"
  shows "active m' = (active m)(cfgKey fwd := None)"
proof (cases "sm_IsConnected M m")
  case False
  then have "m' = m" using stop_offline [of m fwd w] assms(2) by simp
  with False assms(1) offline_empty show ?thesis by (auto simp: fun_eq_iff)
next
  case True
  show ?thesis
  proof (cases "active m (cfgKey fwd)")
    case None
    then have "m' = m" using stop_missing [OF assms(1) True] assms(2) by simp
    with None show ?thesis by (simp add: fun_upd_idem)
  next
    case (Some old)
    then show ?thesis using stop_active [OF assms(1) True] assms(2) by blast
  qed
qed

text \<open>A stop succeeds only on a forwarding that is held.\<close>

lemma stop_ok_held:
  "inv m \<Longrightarrow> sm_StopForwarding M fwd m w = (None, m', w') \<Longrightarrow> active m (cfgKey fwd) \<noteq> None"
  using stop_offline [of m fwd w] stop_missing [of m fwd w] by fastforce

text \<open>Start and then stop: the forwardings are those from before.\<close>

lemma start_stop_active:
  assumes "inv m" "sm_StartForwarding M fwd m w = (None, m', w')"
    and "sm_StopForwarding M fwd m' w' = (e, m'', w'')"
  shows "active m'' = active m"
  using start_ok [OF assms(1,2)] stop_active_general [OF start_inv [OF assms(1,2)] assms(3)]
    start_ok_fresh [OF assms(1,2)]
  by auto

end

end
