(* ===== verification/Dial_Errors.thy ===== *)
theory Dial_Errors
  imports Ssh_Types
begin

text \<open>
  The rate-limited logging of backend dial failures in \<open>ssh/ssh_tunnel_manager.go\<close>:
  \<open>logBackendDialError\<close> and \<open>recordBackendDialSuccess\<close> over the map \<open>dialErrors\<close>.
  Times are nanoseconds; \<open>None\<close> is Go's zero time.
\<close>

record dialErrorStats =
  lastLogged :: "int option"
  suppressed :: int

type_synonym dial_map = "(string, dialErrorStats) gomap"

definition defaultDialErrorLogCooldown :: int where
  "defaultDialErrorLogCooldown = 10 * 1000000000"

text \<open>What is logged: a warning, with the number of suppressed errors when there are any, or a debug line.\<close>

datatype dial_log = DialWarn "int option" | DialDebug

definition recordBackendDialSuccess :: "string \<Rightarrow> dial_map \<Rightarrow> dial_map" where
  "recordBackendDialSuccess backendAddr dialErrors = mdel backendAddr dialErrors"

definition logBackendDialError :: "int \<Rightarrow> string \<Rightarrow> dial_map \<Rightarrow> dial_log \<times> dial_map" where
  "logBackendDialError now backendAddr dialErrors =
     (let stats = (case mget dialErrors backendAddr of
                     Some s \<Rightarrow> s
                   | None \<Rightarrow> \<lparr>lastLogged = None, suppressed = 0\<rparr>);
          shouldLogWarn = (case lastLogged stats of
                             None \<Rightarrow> True
                           | Some t \<Rightarrow> now - t \<ge> defaultDialErrorLogCooldown);
          old = suppressed stats;
          stats' = (if shouldLogWarn then stats\<lparr>lastLogged := Some now, suppressed := 0\<rparr>
                    else stats\<lparr>suppressed := suppressed stats + 1\<rparr>);
          log = (if shouldLogWarn then DialWarn (if old > 0 then Some old else None) else DialDebug)
      in (log, mput backendAddr stats' dialErrors))"

section \<open>Sequences of dial results\<close>

datatype dial_event = DialFail int string | DialOk string

fun run_dials :: "dial_event list \<Rightarrow> dial_map \<Rightarrow> (int \<times> string \<times> dial_log) list \<times> dial_map" where
  "run_dials [] d = ([], d)"
| "run_dials (DialFail now a # es) d =
     (let (l, d1) = logBackendDialError now a d; (ls, d2) = run_dials es d1 in ((now, a, l) # ls, d2))"
| "run_dials (DialOk a # es) d = run_dials es (recordBackendDialSuccess a d)"

fun warned_at :: "string \<Rightarrow> (int \<times> string \<times> dial_log) list \<Rightarrow> int list" where
  "warned_at a [] = []"
| "warned_at a ((t, b, DialWarn _) # ls) = (if b = a then t # warned_at a ls else warned_at a ls)"
| "warned_at a ((t, b, DialDebug) # ls) = warned_at a ls"

text \<open>The failures of one address that the log lines account for.\<close>

fun accounted :: "string \<Rightarrow> (int \<times> string \<times> dial_log) list \<Rightarrow> int" where
  "accounted a [] = 0"
| "accounted a ((t, b, DialWarn n) # ls) =
     (if b = a then 1 + (case n of None \<Rightarrow> 0 | Some k \<Rightarrow> k) else 0) + accounted a ls"
| "accounted a ((t, b, DialDebug) # ls) = accounted a ls"

fun failures :: "string \<Rightarrow> dial_event list \<Rightarrow> int" where
  "failures a [] = 0"
| "failures a (DialFail t b # es) = (if b = a then 1 else 0) + failures a es"
| "failures a (DialOk b # es) = failures a es"

definition last_warn :: "dial_map \<Rightarrow> string \<Rightarrow> int option" where
  "last_warn d a = Option.bind (mget d a) lastLogged"

definition pending_of :: "dial_map \<Rightarrow> string \<Rightarrow> int" where
  "pending_of d a = (case mget d a of None \<Rightarrow> 0 | Some s \<Rightarrow> suppressed s)"

definition dial_map_ok :: "dial_map \<Rightarrow> bool" where
  "dial_map_ok d \<longleftrightarrow> (\<forall>a s. mget d a = Some s \<longrightarrow> 0 \<le> suppressed s)"

lemma dial_map_ok_log: "dial_map_ok d \<Longrightarrow> dial_map_ok (snd (logBackendDialError now a d))"
  by (auto simp: dial_map_ok_def logBackendDialError_def Let_def split: option.splits)

lemma dial_map_ok_success: "dial_map_ok d \<Longrightarrow> dial_map_ok (recordBackendDialSuccess a d)"
  by (auto simp: dial_map_ok_def recordBackendDialSuccess_def)

text \<open>One failure: which fields move, for the address that failed and for the others.\<close>

lemma log_step:
  assumes "logBackendDialError now a d = (l, d')"
  shows "b \<noteq> a \<Longrightarrow> mget d' b = mget d b"
    and "l = DialWarn n \<Longrightarrow> last_warn d' a = Some now \<and> pending_of d' a = 0 \<and>
           (case last_warn d a of None \<Rightarrow> True | Some t \<Rightarrow> now - t \<ge> defaultDialErrorLogCooldown)"
    and "l = DialDebug \<Longrightarrow> last_warn d' a = last_warn d a \<and> pending_of d' a = pending_of d a + 1"
  using assms
  by (auto simp: logBackendDialError_def last_warn_def pending_of_def Let_def
      split: option.splits if_splits)

lemma log_step_counts:
  assumes "logBackendDialError now a d = (l, d')" and "dial_map_ok d"
  shows "l = DialWarn n \<Longrightarrow> (case n of None \<Rightarrow> 0 | Some k \<Rightarrow> k) = pending_of d a"
  using assms
  by (force simp: logBackendDialError_def pending_of_def dial_map_ok_def Let_def
      split: option.splits if_splits)

lemma last_warn_other: "mget d' b = mget d b \<Longrightarrow> last_warn d' b = last_warn d b"
  by (simp add: last_warn_def)

lemma pending_of_other: "mget d' b = mget d b \<Longrightarrow> pending_of d' b = pending_of d b"
  by (simp add: pending_of_def)

text \<open>
  What successes throw away: the count that was pending for the address when a success of it
  (or the stop of a forwarding to it) deleted its statistics.
\<close>

fun discarded :: "string \<Rightarrow> dial_event list \<Rightarrow> dial_map \<Rightarrow> int" where
  "discarded a [] d = 0"
| "discarded a (DialFail t b # es) d = discarded a es (snd (logBackendDialError t b d))"
| "discarded a (DialOk b # es) d =
     (if b = a then pending_of d a else 0) + discarded a es (recordBackendDialSuccess b d)"

lemma success_step:
  "b \<noteq> a \<Longrightarrow> mget (recordBackendDialSuccess a d) b = mget d b"
  "last_warn (recordBackendDialSuccess a d) a = None" "pending_of (recordBackendDialSuccess a d) a = 0"
  by (simp_all add: recordBackendDialSuccess_def last_warn_def pending_of_def)

lemma run_dials_fail:
  "logBackendDialError now b d = (l, d1) \<Longrightarrow>
   run_dials (DialFail now b # es) d = ((now, b, l) # fst (run_dials es d1), snd (run_dials es d1))"
  by (simp split: prod.splits)

lemma run_dials_append:
  "run_dials (es @ es') d =
     (fst (run_dials es d) @ fst (run_dials es' (snd (run_dials es d))), snd (run_dials es' (snd (run_dials es d))))"
  by (induction es d rule: run_dials.induct) (simp_all split: prod.splits)

text \<open>The spacing of warnings, generalised to a map that already holds a last warning.\<close>

lemma warned_spaced_from:
  assumes "DialOk a \<notin> set es"
  shows "successively (\<lambda>s t. t - s \<ge> defaultDialErrorLogCooldown)
           (case last_warn d a of None \<Rightarrow> warned_at a (fst (run_dials es d))
            | Some t \<Rightarrow> t # warned_at a (fst (run_dials es d)))"
  using assms
proof (induction es arbitrary: d)
  case Nil
  then show ?case by (simp split: option.split)
next
  case (Cons e es)
  show ?case
  proof (cases e)
    case (DialOk b)
    then have "a \<noteq> b" using Cons.prems by auto
    then have "last_warn (recordBackendDialSuccess b d) a = last_warn d a"
      by (rule last_warn_other [OF success_step(1)])
    with Cons.IH [of "recordBackendDialSuccess b d"] Cons.prems show ?thesis
      unfolding DialOk run_dials.simps by simp
  next
    case (DialFail now b)
    obtain l d1 where l: "logBackendDialError now b d = (l, d1)" by force
    have IH: "successively (\<lambda>s t. t - s \<ge> defaultDialErrorLogCooldown)
        (case last_warn d1 a of None \<Rightarrow> warned_at a (fst (run_dials es d1))
         | Some t \<Rightarrow> t # warned_at a (fst (run_dials es d1)))"
      using Cons by simp
    note run = run_dials_fail [OF l, of es]
    show ?thesis
    proof (cases "b = a")
      case False
      then have "last_warn d1 a = last_warn d a"
        using log_step(1) [OF l, of a] last_warn_other by blast
      with IH run False DialFail show ?thesis by (cases l) (auto split: option.splits)
    next
      case True
      show ?thesis
      proof (cases l)
        case (DialWarn n)
        with log_step(2) [OF l, of n] IH run True DialFail show ?thesis by (auto split: option.splits)
      next
        case DialDebug
        with log_step(3) [OF l] IH run True DialFail show ?thesis by (auto split: option.splits)
      qed
    qed
  qed
qed

lemma accounted_from:
  assumes "dial_map_ok d"
  shows "accounted a (fst (run_dials es d)) + pending_of (snd (run_dials es d)) a + discarded a es d
       = failures a es + pending_of d a"
  using assms
proof (induction es arbitrary: d)
  case Nil
  then show ?case by simp
next
  case (Cons e es)
  show ?case
  proof (cases e)
    case (DialOk b)
    have "a \<noteq> b \<Longrightarrow> pending_of (recordBackendDialSuccess b d) a = pending_of d a"
      by (rule pending_of_other [OF success_step(1)])
    with Cons.IH [OF dial_map_ok_success [OF Cons.prems, of b]] DialOk show ?thesis
      by (cases "b = a") (simp_all add: success_step(3))
  next
    case (DialFail now b)
    obtain l d1 where l: "logBackendDialError now b d = (l, d1)" by force
    have ok: "dial_map_ok d1" using dial_map_ok_log [OF Cons.prems, of now b] l by simp
    note run = run_dials_fail [OF l, of es] and IH = Cons.IH [OF ok]
    show ?thesis
    proof (cases "b = a")
      case False
      then have "pending_of d1 a = pending_of d a"
        using log_step(1) [OF l, of a] pending_of_other by blast
      with IH run l False DialFail show ?thesis by (cases l) auto
    next
      case True
      show ?thesis
      proof (cases l)
        case (DialWarn n)
        with log_step(2) [OF l, of n] log_step_counts [OF l Cons.prems, of n] IH run l True DialFail
        show ?thesis by simp
      next
        case DialDebug
        with log_step(3) [OF l] IH run l True DialFail show ?thesis by simp
      qed
    qed
  qed
qed

lemma first_failure_warns:
  "last_warn d a = None \<Longrightarrow> pending_of d a = 0 \<Longrightarrow> fst (logBackendDialError now a d) = DialWarn None"
  by (auto simp: logBackendDialError_def last_warn_def pending_of_def Let_def split: option.splits)

section \<open>Properties\<close>

text \<open>
  C39. In any sequence of failures and successes of dials to any backends (\<open>before\<close>, then
  \<open>after\<close>): as long as a backend has no success and no forwarding to it is stopped (both are
  \<open>DialOk\<close>, because both call \<open>recordBackendDialSuccess\<close>), two warnings about it are at least the
  cooldown of ten seconds apart, also across failures of other backends; and the first failure
  behind a success warns at once, whatever was logged before, with no suppressed count.
\<close>

theorem dial_warnings_spaced:
  "(DialOk a \<notin> set after \<longrightarrow>
      successively (\<lambda>s t. t - s \<ge> 10 * 1000000000) (warned_at a (fst (run_dials after (snd (run_dials before []))))))
   \<and> fst (logBackendDialError now a (snd (run_dials (before @ [DialOk a]) []))) = DialWarn None"
proof -
  have "successively (\<lambda>s t. t - s \<ge> defaultDialErrorLogCooldown) (warned_at a (fst (run_dials after d)))"
    if "DialOk a \<notin> set after" for d
    using warned_spaced_from [OF that, of d]
    by (cases "last_warn d a"; cases "warned_at a (fst (run_dials after d))") auto
  moreover have "fst (logBackendDialError now a (snd (run_dials (before @ [DialOk a]) []))) = DialWarn None"
    by (rule first_failure_warns) (simp_all add: run_dials_append success_step)
  ultimately show ?thesis by (simp add: defaultDialErrorLogCooldown_def)
qed

theorem dial_warnings_spaced_witness:
  "warned_at ''b:80'' (fst (run_dials [DialFail 1 ''b:80'', DialOk ''c:80'', DialFail 2 ''b:80'', DialFail 20000000000 ''b:80'']
      (snd (run_dials [DialOk ''b:80''] [])))) = [1, 20000000000] \<and>
   successively (\<lambda>s t. t - s \<ge> 10 * 1000000000) [1, 20000000000 :: int]"
proof -
  have w: "warned_at ''b:80'' (fst (run_dials [DialFail 1 ''b:80'', DialOk ''c:80'', DialFail 2 ''b:80'', DialFail 20000000000 ''b:80'']
      (snd (run_dials [DialOk ''b:80''] [])))) = [1, 20000000000]" by code_simp
  have "DialOk ''b:80'' \<notin> set [DialFail 1 ''b:80'', DialOk ''c:80'', DialFail 2 ''b:80'', DialFail 20000000000 ''b:80'']"
    by simp
  then show ?thesis
    using dial_warnings_spaced [of "''b:80''" _ "[DialOk ''b:80'']"] w by metis
qed

text \<open>
  C40. Every failed dial is accounted for, in any sequence of failures and successes: as a warning,
  in a suppressed count that a warning printed, in the count still pending, or in a pending
  count that a success of that backend (or the stop of a forwarding to it) discarded. What was
  discarded is lost from the log; nothing else is.
\<close>

theorem dial_failures_accounted:
  "accounted a (fst (run_dials es [])) + pending_of (snd (run_dials es [])) a + discarded a es [] = failures a es"
  using accounted_from [of "[]" a es] by (simp add: dial_map_ok_def pending_of_def)

end
