(* ===== verification/Tunnel_Manager.thy ===== *)
theory Tunnel_Manager
  imports Session_Manager Host_Match Dial_Errors
begin

text \<open>
  \<open>SSHTunnelManager\<close> of \<open>ssh/ssh_tunnel_manager.go\<close>: the connection, the forwardings and
  the addresses assigned to them. Each method holds \<open>clientMu\<close> from its first to its
  last line, so a method is one atomic step on the manager's state; the keepalive loop
  takes the lock twice in a round and is two steps.

  What the network answers is given by an environment \<open>ssh_env\<close>: every answer may depend
  on the session's flags and on everything that has happened on the wire so far (the
  trace). A theorem that holds for all environments holds for every server, every
  timeout and every loss. The trace records each interaction in order.
\<close>

section \<open>The wire\<close>

datatype ForwardRequest = ForwardStart | ForwardCancel

fun request_type :: "ForwardRequest \<Rightarrow> string" where
  "request_type ForwardStart = ''tcpip-forward''"
| "request_type ForwardCancel = ''cancel-tcpip-forward''"

text \<open>The outcome of \<open>SendRequest\<close> under the request timeout.\<close>

datatype send_outcome = Replied bool | SendFailed string | SendTimedOut

datatype wire_event =
    EvDial
  | EvAwaitCapture
  | EvSend string string "32 word"
  | EvAwaitURIs string
  | EvKeepalive
  | EvClose

type_synonym trace = "(SessionFlags \<times> wire_event) list"

text \<open>
  \<open>e_dial\<close> is the dial function: it receives the host key callback of the client
  configuration. \<open>e_capture\<close> tells whether \<open>captureReady\<close> is closed before the
  connection context is done; \<open>e_uris\<close> which URIs arrive on the notification channel of
  a key, or that the verification timeout fires first.
\<close>

record ssh_env =
  e_dial :: "SessionFlags \<Rightarrow> trace \<Rightarrow> (string \<Rightarrow> go_error option) \<Rightarrow> go_error option"
  e_capture :: "SessionFlags \<Rightarrow> trace \<Rightarrow> bool"
  e_send :: "SessionFlags \<Rightarrow> trace \<Rightarrow> string \<Rightarrow> string \<Rightarrow> 32 word \<Rightarrow> send_outcome"
  e_uris :: "SessionFlags \<Rightarrow> trace \<Rightarrow> string \<Rightarrow> string list option"
  e_keepalive :: "SessionFlags \<Rightarrow> trace \<Rightarrow> send_outcome"

section \<open>Configuration and state\<close>

record SSHConnectionConfig =
  RemoteAddrFunc :: bool
  ServerAddress :: string
  Username :: string
  HostKey :: string
  PrivateKey :: string
  ConnectTimeout :: int
  FwdReqTimeout :: int
  KeepAliveInterval :: int
  AddressVerificationTimeout :: int
  ConfigSessionFlags :: SessionFlags
  SessionLabel :: string

text \<open>
  \<open>m_client\<close> and \<open>m_connectionCancel\<close> tell whether the pointers are set;
  \<open>m_connectionCtx\<close> is \<open>None\<close> for nil and otherwise tells whether the context is
  cancelled; \<open>m_addrNotifications\<close> maps a key to the capacity of its channel.
\<close>

record SSHTunnelManager =
  m_client :: bool
  m_connectionCtx :: "bool option"
  m_connectionCancel :: bool
  m_connected :: bool
  m_captureReady :: bool
  m_forwardings :: "(string, ForwardingConfig) gomap"
  m_assignedAddrs :: "(string, string list) gomap"
  m_addrNotifications :: "(string, nat) gomap"
  m_dialErrors :: dial_map
  m_remoteAddrFunc :: bool
  m_flags :: SessionFlags
  m_label :: string
  m_hostKey :: string
  m_sshUser :: string
  m_sshServerAddress :: string
  m_connTimeout :: int
  m_fwdReqTimeout :: int
  m_keepAliveInterval :: int
  m_addressVerificationTimeout :: int

definition addressVerificationTimeout :: int where
  "addressVerificationTimeout = 30 * 1000000000"

definition addrNotificationChannelSize :: nat where
  "addrNotificationChannelSize = 5"

definition NewSSHTunnelManager ::
  "(string \<Rightarrow> go_error option) \<Rightarrow> SSHConnectionConfig \<Rightarrow> go_error + SSHTunnelManager" where
  "NewSSHTunnelManager ParsePrivateKey config =
     (case ParsePrivateKey (PrivateKey config) of
        Some err \<Rightarrow> Inl (Wrapf ''unable to parse private key'' err)
      | None \<Rightarrow>
          (let addrVerifyTimeout = (if AddressVerificationTimeout config = 0
                 then addressVerificationTimeout else AddressVerificationTimeout config);
               label = (if SessionLabel config = [] then DefaultLabel (ConfigSessionFlags config)
                        else SessionLabel config)
           in Inr \<lparr>m_client = False, m_connectionCtx = None, m_connectionCancel = False,
                m_connected = False, m_captureReady = False, m_forwardings = [],
                m_assignedAddrs = [], m_addrNotifications = [], m_dialErrors = [],
                m_remoteAddrFunc = RemoteAddrFunc config, m_flags = ConfigSessionFlags config,
                m_label = label, m_hostKey = HostKey config, m_sshUser = Username config,
                m_sshServerAddress = ServerAddress config, m_connTimeout = ConnectTimeout config,
                m_fwdReqTimeout = FwdReqTimeout config,
                m_keepAliveInterval = KeepAliveInterval config,
                m_addressVerificationTimeout = addrVerifyTimeout\<rparr>))"

section \<open>Connecting and closing\<close>

text \<open>
  The host key callback over the fingerprint of the key that the server presents:
  a pinned fingerprint must match, without one every key is accepted.
\<close>

definition HostKeyCallback :: "SSHTunnelManager \<Rightarrow> string \<Rightarrow> go_error option" where
  "HostKeyCallback m actualFingerprint =
     (if m_hostKey m \<noteq> [] then
        (if actualFingerprint \<noteq> m_hostKey m
         then Some (Errorf (''host key verification failed: expected '' @ m_hostKey m @ '', got '' @ actualFingerprint))
         else None)
      else None)"

definition connectClient ::
  "ssh_env \<Rightarrow> SSHTunnelManager \<Rightarrow> trace \<Rightarrow> go_error option \<times> SSHTunnelManager \<times> trace" where
  "connectClient env m tr =
     (case e_dial env (m_flags m) tr (HostKeyCallback m) of
        Some err \<Rightarrow> (Some (ErrSSHConnectionFailed (Some err)), m, tr @ [(m_flags m, EvDial)])
      | None \<Rightarrow>
          (None,
           m\<lparr>m_client := True, m_connected := True, m_connectionCtx := Some False,
             m_connectionCancel := True, m_captureReady := True\<rparr>,
           tr @ [(m_flags m, EvDial)]))"

definition Connect ::
  "ssh_env \<Rightarrow> SSHTunnelManager \<Rightarrow> trace \<Rightarrow> go_error option \<times> SSHTunnelManager \<times> trace" where
  "Connect env m tr = (if m_connected m then (None, m, tr) else connectClient env m tr)"

definition closeClient :: "SSHTunnelManager \<Rightarrow> trace \<Rightarrow> SSHTunnelManager \<times> trace" where
  "closeClient m tr =
     (if \<not> m_connected m then (m, tr)
      else
        (m\<lparr>m_connected := False,
           m_connectionCtx := (if m_connectionCancel m then Some True else m_connectionCtx m),
           m_client := False, m_connectionCancel := False,
           m_assignedAddrs := [], m_forwardings := []\<rparr>,
         if m_client m then tr @ [(m_flags m, EvClose)] else tr))"

definition IsConnected :: "SSHTunnelManager \<Rightarrow> bool" where
  "IsConnected m = m_connected m"

text \<open>
  One round of \<open>monitorConnection\<close>, in its two critical sections: the check under the read
  lock, before the keepalive is sent without a lock, and the reaction to its answer under
  the write lock. The first component of a result tells whether the loop goes on.
\<close>

definition monitorCheck :: "SSHTunnelManager \<Rightarrow> bool" where
  "monitorCheck m \<longleftrightarrow> \<not> (\<not> m_connected m \<or> \<not> m_client m \<or> m_connectionCtx m = Some True)"

definition monitorResult :: "send_outcome \<Rightarrow> SSHTunnelManager \<Rightarrow> trace \<Rightarrow> bool \<times> SSHTunnelManager \<times> trace" where
  "monitorResult answer m tr =
     (case answer of
        Replied ok \<Rightarrow> (True, m, tr)
      | SendFailed msg \<Rightarrow> (False, closeClient m tr)
      | SendTimedOut \<Rightarrow> (False, closeClient m tr))"

definition monitorTick ::
  "ssh_env \<Rightarrow> SSHTunnelManager \<Rightarrow> trace \<Rightarrow> bool \<times> SSHTunnelManager \<times> trace" where
  "monitorTick env m tr =
     (if \<not> monitorCheck m then (False, m, tr)
      else monitorResult (e_keepalive env (m_flags m) tr) m (tr @ [(m_flags m, EvKeepalive)]))"

lemmas monitor_defs = monitorTick_def monitorCheck_def monitorResult_def

section \<open>Forwarding requests\<close>

definition sendForwardingOnce ::
  "ssh_env \<Rightarrow> SSHTunnelManager \<Rightarrow> ForwardingConfig \<Rightarrow> ForwardRequest \<Rightarrow> trace \<Rightarrow> go_error option \<times> trace" where
  "sendForwardingOnce env m fwd req tr =
     (if RemotePort fwd < 0 \<or> RemotePort fwd > 65535
      then (Some (Errorf (''invalid remote port '' @ Itoa (RemotePort fwd) @ '': must be between 0 and 65535'')), tr)
      else
        (let addr = RemoteHost fwd;
             rport = word_of_int (RemotePort fwd);
             reqType = request_type req;
             tr' = tr @ [(m_flags m, EvSend reqType addr rport)]
         in case e_send env (m_flags m) tr reqType addr rport of
              SendTimedOut \<Rightarrow> (Some (Errorf (''ssh: '' @ reqType @ '' request timed out'')), tr')
            | SendFailed msg \<Rightarrow> (Some (ExternalError msg), tr')
            | Replied ok \<Rightarrow>
                (if \<not> ok then (Some (Errorf (''ssh: '' @ reqType @ '' request denied by server'')), tr')
                 else (None, tr'))))"

definition cancelForwarding ::
  "ssh_env \<Rightarrow> SSHTunnelManager \<Rightarrow> string \<Rightarrow> int \<Rightarrow> trace \<Rightarrow> trace" where
  "cancelForwarding env m host port tr =
     snd (sendForwardingOnce env m
            \<lparr>RemoteHost = host, InternalHost = [], RemotePort = port, InternalPort = 0,
             EnforcePort = False\<rparr> ForwardCancel tr)"

definition handleVerificationTimeout ::
  "ssh_env \<Rightarrow> SSHTunnelManager \<Rightarrow> ForwardingConfig \<Rightarrow> bool \<Rightarrow> trace \<Rightarrow> go_error option \<times> trace" where
  "handleVerificationTimeout env m fwd needsVerification tr =
     (if needsVerification then
        (let (cancelErr, tr') = sendForwardingOnce env m fwd ForwardCancel tr
         in (Some (Errorf (''timeout waiting for address verification for '' @ RemoteHost fwd)), tr'))
      else (None, tr))"

text \<open>The verb \<open>%v\<close> on a slice of strings.\<close>

definition fmt_slice :: "string list \<Rightarrow> string" where
  "fmt_slice xs = ''['' @ Join xs '' '' @ '']''"

definition handleAssignedURIs ::
  "ssh_env \<Rightarrow> SSHTunnelManager \<Rightarrow> ForwardingConfig \<Rightarrow> string \<Rightarrow> string list \<Rightarrow> bool \<Rightarrow> trace \<Rightarrow>
     go_error option \<times> SSHTunnelManager \<times> trace" where
  "handleAssignedURIs env m fwd key uris needsVerification tr =
     (if needsVerification \<and> \<not> MatchesRequestedHost uris (RemoteHost fwd) (RemotePort fwd) (EnforcePort fwd)
      then (Some (Errorf (''wrong hostname assigned: '' @ fmt_slice uris)), m,
            cancelForwarding env m (RemoteHost fwd) (RemotePort fwd) tr)
      else (None, m\<lparr>m_assignedAddrs := mput key uris (m_assignedAddrs m)\<rparr>, tr))"

definition needs_verification :: "ForwardingConfig \<Rightarrow> bool" where
  "needs_verification fwd \<longleftrightarrow> \<not> wildcardHost (RemoteHost fwd) \<or> EnforcePort fwd"

definition awaitAssignedAddresses ::
  "ssh_env \<Rightarrow> SSHTunnelManager \<Rightarrow> ForwardingConfig \<Rightarrow> string \<Rightarrow> trace \<Rightarrow>
     go_error option \<times> SSHTunnelManager \<times> trace" where
  "awaitAssignedAddresses env m fwd key tr =
     (let needsVerification = needs_verification fwd;
          tr' = tr @ [(m_flags m, EvAwaitURIs key)]
      in case e_uris env (m_flags m) tr key of
           None \<Rightarrow> (let (err, tr'') = handleVerificationTimeout env m fwd needsVerification tr'
                    in (err, m, tr''))
         | Some uris \<Rightarrow> handleAssignedURIs env m fwd key uris needsVerification tr')"

definition sendForwarding ::
  "ssh_env \<Rightarrow> SSHTunnelManager \<Rightarrow> ForwardingConfig \<Rightarrow> ForwardRequest \<Rightarrow> trace \<Rightarrow>
     go_error option \<times> SSHTunnelManager \<times> trace" where
  "sendForwarding env m fwd req tr =
     (let waits = (req = ForwardStart \<and> m_captureReady m);
          ready = (waits \<longrightarrow> e_capture env (m_flags m) tr);
          tr1 = (if waits then tr @ [(m_flags m, EvAwaitCapture)] else tr)
      in if \<not> ready
         then (Some (Errorf ''connection closed while waiting for capture session''), m, tr1)
         else
           (let collect = (req = ForwardStart \<and> m_remoteAddrFunc m);
                key = forwardingKey (RemoteHost fwd) (RemotePort fwd);
                m1 = (if collect then m\<lparr>m_addrNotifications := mput key addrNotificationChannelSize (m_addrNotifications m)\<rparr> else m);
                tr2 = (if req = ForwardStart \<and> EnforcePort fwd
                       then cancelForwarding env m1 (RemoteHost fwd) (RemotePort fwd) tr1 else tr1);
                (err, tr3) = sendForwardingOnce env m1 fwd req tr2;
                (res, m2, tr4) =
                  (if err \<noteq> None then (err, m1, tr3)
                   else if req = ForwardCancel then (None, m1, tr3)
                   else if \<not> collect then (None, m1, tr3)
                   else awaitAssignedAddresses env m1 fwd key tr3)
            in (res,
                (if collect then m2\<lparr>m_addrNotifications := mdel key (m_addrNotifications m2)\<rparr> else m2),
                tr4)))"

section \<open>The operations of the manager\<close>

definition StartForwarding ::
  "ssh_env \<Rightarrow> ForwardingConfig \<Rightarrow> SSHTunnelManager \<Rightarrow> trace \<Rightarrow> go_error option \<times> SSHTunnelManager \<times> trace" where
  "StartForwarding env fwd m tr =
     (if \<not> m_connected m \<or> \<not> m_client m then (Some ErrSSHClientNotReady, m, tr)
      else
        (let key = forwardingKey (RemoteHost fwd) (RemotePort fwd)
         in case mget (m_forwardings m) key of
              Some _ \<Rightarrow> (Some (ErrSSHForwardingExists key), m, tr)
            | None \<Rightarrow>
                (let (err, m', tr') = sendForwarding env m fwd ForwardStart tr
                 in case err of
                      Some e \<Rightarrow> (Some e, m', tr')
                    | None \<Rightarrow> (None, m'\<lparr>m_forwardings := mput key fwd (m_forwardings m')\<rparr>, tr'))))"

definition StopForwarding ::
  "ssh_env \<Rightarrow> ForwardingConfig \<Rightarrow> SSHTunnelManager \<Rightarrow> trace \<Rightarrow> go_error option \<times> SSHTunnelManager \<times> trace" where
  "StopForwarding env fwd m tr =
     (if \<not> m_connected m \<or> \<not> m_client m then (Some ErrSSHClientNotReady, m, tr)
      else
        (let key = forwardingKey (RemoteHost fwd) (RemotePort fwd)
         in case mget (m_forwardings m) key of
              None \<Rightarrow> (Some (ErrSSHForwardingNotFound key), m, tr)
            | Some forwardingSession \<Rightarrow>
                (let m1 = m\<lparr>m_forwardings := mdel key (m_forwardings m),
                            m_assignedAddrs := mdel key (m_assignedAddrs m),
                            m_dialErrors := recordBackendDialSuccess
                              (JoinHostPort (InternalHost forwardingSession)
                                 (Itoa (InternalPort forwardingSession))) (m_dialErrors m)\<rparr>
                 in sendForwarding env m1 forwardingSession ForwardCancel tr)))"

definition GetAssignedAddresses :: "string \<Rightarrow> int \<Rightarrow> SSHTunnelManager \<Rightarrow> string list" where
  "GetAssignedAddresses remoteHost remotePort m =
     (case mget (m_assignedAddrs m) (forwardingKey remoteHost remotePort) of
        Some addrs \<Rightarrow> addrs
      | None \<Rightarrow> [])"

fun cancel_all ::
  "ssh_env \<Rightarrow> SSHTunnelManager \<Rightarrow> (string, ForwardingConfig) gomap \<Rightarrow> trace \<Rightarrow> SSHTunnelManager \<times> trace" where
  "cancel_all env m [] tr = (m, tr)"
| "cancel_all env m ((key, forwardingSession) # fs) tr =
     (let (err, m', tr') = sendForwarding env m forwardingSession ForwardCancel tr
      in cancel_all env m' fs tr')"

definition Stop :: "ssh_env \<Rightarrow> SSHTunnelManager \<Rightarrow> trace \<Rightarrow> SSHTunnelManager \<times> trace" where
  "Stop env m tr =
     (let (m1, tr1) = (if m_client m \<and> m_connected m then cancel_all env m (m_forwardings m) tr
                       else (m, tr))
      in closeClient (m1\<lparr>m_forwardings := []\<rparr>) tr1)"

section \<open>What the building blocks do\<close>

named_theorems tm_defs "the definitions of the connection operations"

lemmas [tm_defs] = connectClient_def Connect_def closeClient_def IsConnected_def

text \<open>A request that succeeds went out once, in a port range where the width of the field is enough.\<close>

lemma sendForwardingOnce_ok:
  assumes "sendForwardingOnce env m fwd req tr = (None, tr')"
  shows "0 \<le> RemotePort fwd \<and> RemotePort fwd \<le> 65535 \<and>
    tr' = tr @ [(m_flags m, EvSend (request_type req) (RemoteHost fwd) (word_of_int (RemotePort fwd)))]"
  using assms
  by (auto simp: sendForwardingOnce_def Let_def split: if_splits send_outcome.splits)

lemma sendForwardingOnce_trace:
  "snd (sendForwardingOnce env m fwd req tr) =
     (if 0 \<le> RemotePort fwd \<and> RemotePort fwd \<le> 65535
      then tr @ [(m_flags m, EvSend (request_type req) (RemoteHost fwd) (word_of_int (RemotePort fwd)))]
      else tr)"
  by (auto simp: sendForwardingOnce_def Let_def split: send_outcome.splits)

lemma sendForwardingOnce_cong:
  "m_flags m = m_flags m' \<Longrightarrow> sendForwardingOnce env m fwd req tr = sendForwardingOnce env m' fwd req tr"
  by (simp add: sendForwardingOnce_def)

text \<open>
  How an address wait ends: with an error, and the manager as it was; or well, with the
  addresses stored, checked when a check was needed; or well without any addresses,
  when none were needed.
\<close>

lemma awaitAssignedAddresses_cases:
  assumes "awaitAssignedAddresses env m fwd key tr = (e, m', tr')"
  obtains (failed) err where "e = Some err" "m' = m" "needs_verification fwd"
  | (stored) uris where "e = None" "m' = m\<lparr>m_assignedAddrs := mput key uris (m_assignedAddrs m)\<rparr>"
      "needs_verification fwd \<longrightarrow> MatchesRequestedHost uris (RemoteHost fwd) (RemotePort fwd) (EnforcePort fwd)"
  | (unneeded) "e = None" "m' = m" "\<not> needs_verification fwd"
  using assms
  by (auto simp: awaitAssignedAddresses_def handleVerificationTimeout_def handleAssignedURIs_def Let_def
      split: option.splits if_splits prod.splits)

definition addrs_after :: "ForwardingConfig \<Rightarrow> SSHTunnelManager \<Rightarrow> (string, string list) gomap \<Rightarrow> bool" where
  "addrs_after fwd m as \<longleftrightarrow>
     as = m_assignedAddrs m \<and> \<not> (m_remoteAddrFunc m \<and> needs_verification fwd) \<or>
     (\<exists>uris. as = mput (cfgKey fwd) uris (m_assignedAddrs m) \<and> m_remoteAddrFunc m \<and>
        (needs_verification fwd \<longrightarrow>
           MatchesRequestedHost uris (RemoteHost fwd) (RemotePort fwd) (EnforcePort fwd)))"

lemma sendForwarding_cancel:
  "sendForwarding env m fwd ForwardCancel tr =
     (fst (sendForwardingOnce env m fwd ForwardCancel tr), m, snd (sendForwardingOnce env m fwd ForwardCancel tr))"
  by (simp add: sendForwarding_def Let_def split: prod.splits)

text \<open>
  A start with no channel registered, with the registration factored out: the channel is
  there while the answer is awaited and gone afterwards.
\<close>

lemma cancelForwarding_cong:
  "m_flags m = m_flags m' \<Longrightarrow> cancelForwarding env m h p tr = cancelForwarding env m' h p tr"
  by (simp add: cancelForwarding_def sendForwardingOnce_cong [of m m'])

lemma awaitAssignedAddresses_registered:
  "awaitAssignedAddresses env (m\<lparr>m_addrNotifications := n\<rparr>) fwd key tr =
     (case awaitAssignedAddresses env m fwd key tr of (e, m', tr') \<Rightarrow> (e, m'\<lparr>m_addrNotifications := n\<rparr>, tr'))"
  by (simp add: awaitAssignedAddresses_def handleVerificationTimeout_def handleAssignedURIs_def Let_def
      sendForwardingOnce_cong [of "m\<lparr>m_addrNotifications := n\<rparr>" m]
      cancelForwarding_cong [of "m\<lparr>m_addrNotifications := n\<rparr>" m]
      split: option.split prod.split)

lemma awaitAssignedAddresses_notif:
  "awaitAssignedAddresses env m fwd key tr = (e, m', tr') \<Longrightarrow> m_addrNotifications m' = m_addrNotifications m"
  by (elim awaitAssignedAddresses_cases) simp_all

lemma record_idle: "m_addrNotifications m = [] \<Longrightarrow> m\<lparr>m_addrNotifications := []\<rparr> = m"
  by (cases m) simp

definition start_request ::
  "ssh_env \<Rightarrow> SSHTunnelManager \<Rightarrow> ForwardingConfig \<Rightarrow> trace \<Rightarrow> go_error option \<times> trace" where
  "start_request env m fwd tr =
     sendForwardingOnce env m fwd ForwardStart
       (if EnforcePort fwd then cancelForwarding env m (RemoteHost fwd) (RemotePort fwd) tr else tr)"

lemma sendForwarding_start_eq:
  assumes "m_addrNotifications m = []"
  shows "sendForwarding env m fwd ForwardStart tr =
    (let tr1 = (if m_captureReady m then tr @ [(m_flags m, EvAwaitCapture)] else tr)
     in if m_captureReady m \<and> \<not> e_capture env (m_flags m) tr
        then (Some (Errorf ''connection closed while waiting for capture session''), m, tr1)
        else (case start_request env m fwd tr1 of
                (Some err, tr3) \<Rightarrow> (Some err, m, tr3)
              | (None, tr3) \<Rightarrow>
                  if m_remoteAddrFunc m then awaitAssignedAddresses env m fwd (cfgKey fwd) tr3
                  else (None, m, tr3)))"
proof -
  define n where "n = mput (cfgKey fwd) addrNotificationChannelSize (m_addrNotifications m)"
  have n: "mdel (cfgKey fwd) n = []" using assms by (simp add: n_def AList.delete_eq)
  have cong: "sendForwardingOnce env (m\<lparr>m_addrNotifications := n\<rparr>) f r t = sendForwardingOnce env m f r t"
    "cancelForwarding env (m\<lparr>m_addrNotifications := n\<rparr>) h p t = cancelForwarding env m h p t" for f r t h p
    by (rule sendForwardingOnce_cong cancelForwarding_cong, simp)+
  define tr1 where "tr1 = (if m_captureReady m then tr @ [(m_flags m, EvAwaitCapture)] else tr)"
  obtain e3 tr3 where r: "start_request env m fwd tr1 = (e3, tr3)" by force
  obtain e4 m4 tr4 where w: "awaitAssignedAddresses env m fwd (cfgKey fwd) tr3 = (e4, m4, tr4)"
    by (cases "awaitAssignedAddresses env m fwd (cfgKey fwd) tr3") auto
  have m4: "m4\<lparr>m_addrNotifications := []\<rparr> = m4"
    using awaitAssignedAddresses_notif [OF w] assms by (simp add: record_idle)
  have r1: "sendForwardingOnce env m fwd ForwardStart
      (if EnforcePort fwd then cancelForwarding env m (RemoteHost fwd) (RemotePort fwd) tr1 else tr1) = (e3, tr3)"
    using r by (simp add: start_request_def)
  then have r2: "EnforcePort fwd \<Longrightarrow> sendForwardingOnce env m fwd ForwardStart
        (cancelForwarding env m (RemoteHost fwd) (RemotePort fwd) tr1) = (e3, tr3)"
      "\<not> EnforcePort fwd \<Longrightarrow> sendForwardingOnce env m fwd ForwardStart tr1 = (e3, tr3)"
    by simp_all
  note m0 = record_idle [OF assms]
  show ?thesis
  proof (cases "m_captureReady m \<and> \<not> e_capture env (m_flags m) tr")
    case True
    then show ?thesis by (simp add: sendForwarding_def Let_def)
  next
    case False
    then have go: "(m_captureReady m \<and> \<not> e_capture env (m_flags m) tr) = False" by blast
    show ?thesis
    proof (cases "m_remoteAddrFunc m")
      case True
      then show ?thesis
        by (cases e3)
          (simp_all add: sendForwarding_def n_def [symmetric] tr1_def [symmetric] go r r2 cong n
            awaitAssignedAddresses_registered w m4 m0 Let_def)
    next
      case noaddr: False
      then show ?thesis
        by (cases e3)
          (simp_all add: sendForwarding_def tr1_def [symmetric] go r r2 Let_def)
    qed
  qed
qed

lemma start_request_ok:
  "start_request env m fwd tr = (None, tr') \<Longrightarrow> 0 \<le> RemotePort fwd \<and> RemotePort fwd \<le> 65535"
  unfolding start_request_def by (drule sendForwardingOnce_ok) simp

lemma sendForwarding_start:
  assumes "sendForwarding env m fwd ForwardStart tr = (e, m', tr')"
    and "m_addrNotifications m = []"
  shows "e = None \<longrightarrow> 0 \<le> RemotePort fwd \<and> RemotePort fwd \<le> 65535 \<and>
      addrs_after fwd m (m_assignedAddrs m')" (is ?ok)
    and "m' = m\<lparr>m_assignedAddrs := m_assignedAddrs m'\<rparr>" (is ?frame)
    and "e \<noteq> None \<longrightarrow> m' = m" (is ?err)
proof -
  have "?ok \<and> ?frame \<and> ?err"
  proof (cases "m_captureReady m \<and> \<not> e_capture env (m_flags m) tr")
    case True
    with assms show ?thesis by (auto simp: sendForwarding_start_eq)
  next
    case False
    define tr1 where "tr1 = (if m_captureReady m then tr @ [(m_flags m, EvAwaitCapture)] else tr)"
    obtain e3 tr3 where r: "start_request env m fwd tr1 = (e3, tr3)" by force
    consider (err) err where "e3 = Some err" "e = Some err" "m' = m"
      | (plain) "e3 = None" "\<not> m_remoteAddrFunc m" "e = None" "m' = m"
      | (await) "e3 = None" "m_remoteAddrFunc m" "awaitAssignedAddresses env m fwd (cfgKey fwd) tr3 = (e, m', tr')"
      using assms False r
      by (auto simp: sendForwarding_start_eq tr1_def [symmetric] Let_def split: option.splits if_splits)
    then show ?thesis
    proof cases
      case err
      then show ?thesis by simp
    next
      case plain
      with start_request_ok r show ?thesis by (auto simp: addrs_after_def)
    next
      case await
      from await(3) show ?thesis
        using start_request_ok [of env m fwd tr1 tr3] r await(1,2)
        by (cases rule: awaitAssignedAddresses_cases) (auto simp: addrs_after_def)
    qed
  qed
  then show ?ok ?frame ?err by blast+
qed

text \<open>A failed request never reports an existing forwarding: only the table of forwardings does.\<close>

lemma sendForwardingOnce_error:
  "sendForwardingOnce env m fwd req tr = (Some err, tr') \<Longrightarrow>
     \<not> errors_As is_ForwardingExists err \<and> \<not> errors_As is_GatewayNotFound err \<and> \<not> errors_As is_RouteNotFound err"
  by (auto simp: sendForwardingOnce_def Let_def split: if_splits send_outcome.splits)

lemma awaitAssignedAddresses_error:
  "awaitAssignedAddresses env m fwd key tr = (Some err, m', tr') \<Longrightarrow> \<not> errors_As is_ForwardingExists err"
  by (auto simp: awaitAssignedAddresses_def handleVerificationTimeout_def handleAssignedURIs_def Let_def
      split: if_splits option.splits prod.splits)

lemma sendForwarding_error:
  assumes "sendForwarding env m fwd ForwardStart tr = (Some err, m', tr')" "m_addrNotifications m = []"
  shows "\<not> errors_As is_ForwardingExists err"
  using assms(1)
  by (auto simp: sendForwarding_start_eq [OF assms(2)] start_request_def Let_def
      split: if_splits option.splits prod.splits dest: sendForwardingOnce_error awaitAssignedAddresses_error)

lemma StartForwarding_cases:
  assumes "StartForwarding env fwd m tr = (e, m', tr')" and "m_addrNotifications m = []"
  obtains (offline) "\<not> m_connected m \<or> \<not> m_client m" "e = Some ErrSSHClientNotReady" "m' = m" "tr' = tr"
  | (held) old where "m_connected m" "m_client m" "mget (m_forwardings m) (cfgKey fwd) = Some old"
      "e = Some (ErrSSHForwardingExists (cfgKey fwd))" "m' = m" "tr' = tr"
  | (failed) err where "m_connected m" "m_client m" "mget (m_forwardings m) (cfgKey fwd) = None"
      "sendForwarding env m fwd ForwardStart tr = (Some err, m, tr')" "e = Some err" "m' = m"
  | (started) as where "m_connected m" "m_client m" "mget (m_forwardings m) (cfgKey fwd) = None"
      "sendForwarding env m fwd ForwardStart tr = (None, m\<lparr>m_assignedAddrs := as\<rparr>, tr')"
      "e = None" "0 \<le> RemotePort fwd" "RemotePort fwd \<le> 65535" "addrs_after fwd m as"
      "m' = m\<lparr>m_assignedAddrs := as, m_forwardings := mput (cfgKey fwd) fwd (m_forwardings m)\<rparr>"
proof (cases "m_connected m \<and> m_client m \<and> mget (m_forwardings m) (cfgKey fwd) = None")
  case False
  with assms that(1,2) show ?thesis
    by (auto simp: StartForwarding_def Let_def split: option.splits if_splits)
next
  case True
  obtain e1 m1 tr1 where s: "sendForwarding env m fwd ForwardStart tr = (e1, m1, tr1)"
    by (cases "sendForwarding env m fwd ForwardStart tr") auto
  note sf = sendForwarding_start [OF s assms(2)]
  show ?thesis
  proof (cases e1)
    case None
    obtain as where m1: "m1 = m\<lparr>m_assignedAddrs := as\<rparr>" using sf(2) by blast
    moreover have "addrs_after fwd m as" using sf(1) None m1 by simp
    ultimately show ?thesis
      using that(4) [of as] assms(1) True s None sf(1)
      by (simp add: StartForwarding_def)
  next
    case (Some err)
    with sf(3) have "m1 = m" by simp
    with that(3) [of err] assms(1) True s Some show ?thesis
      by (simp add: StartForwarding_def)
  qed
qed

lemma StopForwarding_cases:
  assumes "StopForwarding env fwd m tr = (e, m', tr')"
  obtains (offline) "\<not> m_connected m \<or> \<not> m_client m" "e = Some ErrSSHClientNotReady" "m' = m" "tr' = tr"
  | (missing) "m_connected m" "m_client m" "mget (m_forwardings m) (cfgKey fwd) = None"
      "e = Some (ErrSSHForwardingNotFound (cfgKey fwd))" "m' = m" "tr' = tr"
  | (removed) old d where "m_connected m" "m_client m" "mget (m_forwardings m) (cfgKey fwd) = Some old"
      "m' = m\<lparr>m_forwardings := mdel (cfgKey fwd) (m_forwardings m),
              m_assignedAddrs := mdel (cfgKey fwd) (m_assignedAddrs m), m_dialErrors := d\<rparr>"
      "(e, tr') = sendForwardingOnce env m old ForwardCancel tr"
proof (cases "m_connected m \<and> m_client m")
  case False
  then have off: "\<not> m_connected m \<or> \<not> m_client m" by blast
  then have "(e, m', tr') = (Some ErrSSHClientNotReady, m, tr)"
    using assms by (simp add: StopForwarding_def)
  with off show ?thesis by (intro that(1)) simp_all
next
  case conn: True
  show ?thesis
  proof (cases "mget (m_forwardings m) (cfgKey fwd)")
    case None
    then have "(e, m', tr') = (Some (ErrSSHForwardingNotFound (cfgKey fwd)), m, tr)"
      using assms conn by (simp add: StopForwarding_def)
    with conn None show ?thesis by (intro that(2)) simp_all
  next
    case (Some old)
    let ?m1 = "m\<lparr>m_forwardings := mdel (cfgKey fwd) (m_forwardings m),
              m_assignedAddrs := mdel (cfgKey fwd) (m_assignedAddrs m),
              m_dialErrors := recordBackendDialSuccess (JoinHostPort (InternalHost old) (Itoa (InternalPort old))) (m_dialErrors m)\<rparr>"
    have "sendForwardingOnce env ?m1 old ForwardCancel tr = sendForwardingOnce env m old ForwardCancel tr"
      by (rule sendForwardingOnce_cong) simp
    moreover have "(e, m', tr') = (fst (sendForwardingOnce env ?m1 old ForwardCancel tr), ?m1,
        snd (sendForwardingOnce env ?m1 old ForwardCancel tr))"
      unfolding assms [symmetric] using conn Some by (simp add: StopForwarding_def sendForwarding_cancel Let_def)
    ultimately show ?thesis
      using conn Some by (intro that(3) [of old]) simp_all
  qed
qed

lemma cancel_all_state: "fst (cancel_all env m fs tr) = m"
  by (induction fs arbitrary: tr) (auto simp: sendForwarding_cancel split: prod.splits)

text \<open>The bookkeeping of the log map has no effect on the connection side.\<close>

lemma Stop_state:
  "fst (Stop env m tr) =
     (if m_connected m then
        m\<lparr>m_connected := False,
          m_connectionCtx := (if m_connectionCancel m then Some True else m_connectionCtx m),
          m_client := False, m_connectionCancel := False, m_assignedAddrs := [], m_forwardings := []\<rparr>
      else m\<lparr>m_forwardings := []\<rparr>)"
proof -
  obtain tr1 where t: "cancel_all env m (m_forwardings m) tr = (m, tr1)"
    using cancel_all_state [of env m "m_forwardings m" tr] by (metis prod.collapse)
  show ?thesis by (simp add: Stop_def closeClient_def t)
qed

section \<open>The invariant\<close>

text \<open>
  Between two operations: the maps are Go maps; the client pointer is set exactly while
  connected; a closed manager holds nothing; every held forwarding is filed under its own
  key, with a port that fits the wire; addresses belong to held forwardings, and those of a
  forwarding that needed verification match what it asked for; where addresses are collected,
  such a forwarding has addresses; no notification channel is left registered.
\<close>

definition addrs_verified :: "SSHTunnelManager \<Rightarrow> bool" where
  "addrs_verified m \<longleftrightarrow>
     (\<forall>k f. mget (m_forwardings m) k = Some f \<and> needs_verification f \<and> m_remoteAddrFunc m \<longrightarrow>
        (\<exists>uris. mget (m_assignedAddrs m) k = Some uris \<and>
           MatchesRequestedHost uris (RemoteHost f) (RemotePort f) (EnforcePort f)))"

definition forwardings_filed :: "SSHTunnelManager \<Rightarrow> bool" where
  "forwardings_filed m \<longleftrightarrow>
     (\<forall>k f. mget (m_forwardings m) k = Some f \<longrightarrow>
        k = cfgKey f \<and> 0 \<le> RemotePort f \<and> RemotePort f \<le> 65535)"

definition TM_inv :: "SSHTunnelManager \<Rightarrow> bool" where
  "TM_inv m \<longleftrightarrow>
     gomap_ok (m_forwardings m) \<and> gomap_ok (m_assignedAddrs m) \<and>
     (m_client m \<longleftrightarrow> m_connected m) \<and>
     (\<not> m_connected m \<longrightarrow> m_forwardings m = [] \<and> m_assignedAddrs m = []) \<and>
     (\<forall>k. mget (m_forwardings m) k = None \<longrightarrow> mget (m_assignedAddrs m) k = None) \<and>
     forwardings_filed m \<and> addrs_verified m \<and> m_addrNotifications m = []"

lemmas TM_inv_defs = TM_inv_def forwardings_filed_def addrs_verified_def

lemma TM_inv_parts [dest]:
  assumes "TM_inv m"
  shows "m_client m \<longleftrightarrow> m_connected m" "m_addrNotifications m = []" "forwardings_filed m" "addrs_verified m"
    "\<not> m_connected m \<Longrightarrow> m_forwardings m = []" "\<not> m_connected m \<Longrightarrow> m_assignedAddrs m = []"
    "mget (m_forwardings m) k = None \<Longrightarrow> mget (m_assignedAddrs m) k = None"
  using assms by (auto simp: TM_inv_def)

lemma TM_inv_New: "NewSSHTunnelManager pk cfg = Inr m \<Longrightarrow> TM_inv m"
  by (auto simp: NewSSHTunnelManager_def TM_inv_defs Let_def split: option.splits)

lemma TM_inv_Connect: "TM_inv m \<Longrightarrow> Connect env m tr = (e, m', tr') \<Longrightarrow> TM_inv m'"
  by (auto simp: tm_defs TM_inv_defs split: if_splits option.splits)

lemma TM_inv_closeClient: "TM_inv m \<Longrightarrow> TM_inv (fst (closeClient m tr))"
  by (auto simp: tm_defs TM_inv_defs)

lemma TM_inv_monitorResult: "TM_inv m \<Longrightarrow> monitorResult answer m tr = (b, m', tr') \<Longrightarrow> TM_inv m'"
  using TM_inv_closeClient [of m tr] by (auto simp: monitorResult_def split: send_outcome.splits)

lemma TM_inv_monitorTick: "TM_inv m \<Longrightarrow> monitorTick env m tr = (b, m', tr') \<Longrightarrow> TM_inv m'"
  by (auto simp: monitorTick_def split: if_splits dest: TM_inv_monitorResult)

lemma TM_inv_Stop: "TM_inv m \<Longrightarrow> TM_inv (fst (Stop env m tr))"
  by (auto simp: Stop_state TM_inv_defs)

lemma TM_inv_StartForwarding:
  assumes "TM_inv m" "StartForwarding env fwd m tr = (e, m', tr')"
  shows "TM_inv m'"
  using assms(2) TM_inv_parts(2) [OF assms(1)]
proof (cases rule: StartForwarding_cases)
  case (started as)
  have ok: "gomap_ok as"
    using started assms(1) by (auto simp: addrs_after_def TM_inv_def)
  have other: "mget as k = mget (m_assignedAddrs m) k" if "k \<noteq> cfgKey fwd" for k
    using started that by (auto simp: addrs_after_def)
  have "addrs_verified m'"
    using started assms(1) other
    by (auto simp: addrs_verified_def TM_inv_def addrs_after_def split: if_splits)
  moreover have "forwardings_filed m'"
    using started assms(1) by (auto simp: forwardings_filed_def TM_inv_def split: if_splits)
  ultimately show ?thesis
    using started assms(1) other ok by (auto simp: TM_inv_def)
qed (use assms(1) in simp_all)

lemma TM_inv_StopForwarding:
  assumes "TM_inv m" "StopForwarding env fwd m tr = (e, m', tr')"
  shows "TM_inv m'"
  using assms(2)
proof (cases rule: StopForwarding_cases)
  case (removed old d)
  have "addrs_verified m'" "forwardings_filed m'"
    using removed assms(1) by (auto simp: TM_inv_defs split: if_splits)
  then show ?thesis
    using removed assms(1) by (auto simp: TM_inv_def)
qed (use assms(1) in simp_all)

section \<open>The provider of the session manager contract\<close>

definition tunnel_manager :: "ssh_env \<Rightarrow> (SSHTunnelManager, trace) sessionManager" where
  "tunnel_manager env =
     \<lparr>sm_StartForwarding = StartForwarding env, sm_StopForwarding = StopForwarding env,
      sm_GetAssignedAddresses = GetAssignedAddresses, sm_IsConnected = IsConnected,
      sm_Stop = Stop env, sm_Connect = Connect env\<rparr>"

definition tm_active :: "SSHTunnelManager \<Rightarrow> string \<Rightarrow> ForwardingConfig option" where
  "tm_active m = mget (m_forwardings m)"

lemma tunnel_manager_simps [simp]:
  "sm_StartForwarding (tunnel_manager env) = StartForwarding env"
  "sm_StopForwarding (tunnel_manager env) = StopForwarding env"
  "sm_GetAssignedAddresses (tunnel_manager env) = GetAssignedAddresses"
  "sm_IsConnected (tunnel_manager env) = IsConnected"
  "sm_Stop (tunnel_manager env) = Stop env"
  "sm_Connect (tunnel_manager env) = Connect env"
  by (simp_all add: tunnel_manager_def)

lemma addrs_after_other:
  "addrs_after fwd m as \<Longrightarrow> k \<noteq> cfgKey fwd \<Longrightarrow> mget as k = mget (m_assignedAddrs m) k"
  by (auto simp: addrs_after_def)

lemma GetAssignedAddresses_held:
  "TM_inv m \<Longrightarrow> tm_active m (forwardingKey h p) = None \<Longrightarrow> GetAssignedAddresses h p m = []"
  using TM_inv_parts(7) [of m "forwardingKey h p"]
  by (simp add: tm_active_def GetAssignedAddresses_def)

interpretation tm: session_manager "tunnel_manager env" TM_inv tm_active
  for env
proof (unfold_locales, goal_cases)
  case (1 m fwd w e m' w')
  then show ?case by (auto intro: TM_inv_StartForwarding)
next
  case (2 m fwd w e m' w')
  then show ?case by (auto intro: TM_inv_StopForwarding)
next
  case (3 m w m' w')
  then show ?case using TM_inv_Stop [of m env w] by simp
next
  case (4 m w e m' w')
  then show ?case by (auto intro: TM_inv_Connect)
next
  case (5 m k)
  then show ?case using TM_inv_parts(5) [of m] by (simp add: tm_active_def IsConnected_def)
next
  case (6 m h p)
  then show ?case by (simp add: GetAssignedAddresses_held)
next
  case (7 m fwd w)
  then show ?case by (simp add: StartForwarding_def IsConnected_def)
next
  case (8 m fwd old w)
  then show ?case using TM_inv_parts(1) [of m] by (simp add: StartForwarding_def IsConnected_def tm_active_def)
next
  case (9 m fwd w m' w')
  then have "StartForwarding env fwd m w = (None, m', w')" "m_addrNotifications m = []" by auto
  then show ?case by (cases rule: StartForwarding_cases) (simp_all add: tm_active_def fun_eq_iff)
next
  case (10 m fwd w err m' w')
  then have "StartForwarding env fwd m w = (Some err, m', w')" "m_addrNotifications m = []" by auto
  then show ?case by (cases rule: StartForwarding_cases) simp_all
next
  case (11 m fwd w e m' w')
  then have "StartForwarding env fwd m w = (e, m', w')" "m_addrNotifications m = []" by auto
  then show ?case by (cases rule: StartForwarding_cases) (simp_all add: IsConnected_def)
next
  case (12 m fwd w e m' w' h p)
  then have "StartForwarding env fwd m w = (e, m', w')" "m_addrNotifications m = []" by auto
  then show ?case
    using 12(3) by (cases rule: StartForwarding_cases)
      (auto simp: GetAssignedAddresses_def dest: addrs_after_other)
next
  case (13 m fwd w)
  then show ?case by (simp add: StopForwarding_def IsConnected_def)
next
  case (14 m fwd w)
  then show ?case using TM_inv_parts(1) [of m] by (simp add: StopForwarding_def IsConnected_def tm_active_def)
next
  case (15 m fwd old w e m' w')
  then have "StopForwarding env fwd m w = (e, m', w')" by simp
  then show ?case
    using 15(1-3) by (cases rule: StopForwarding_cases) (auto simp: tm_active_def IsConnected_def fun_eq_iff)
next
  case (16 m fwd w e m' w')
  then have "StopForwarding env fwd m w = (e, m', w')" by simp
  then show ?case by (cases rule: StopForwarding_cases) (simp_all add: IsConnected_def)
next
  case (17 m fwd w e m' w' h p)
  then have "StopForwarding env fwd m w = (e, m', w')" by simp
  then show ?case
    using 17(3) by (cases rule: StopForwarding_cases) (simp_all add: GetAssignedAddresses_def)
next
  case (18 m w)
  then show ?case by (simp add: tm_defs)
next
  case (19 m w m' w')
  then show ?case by (auto simp: tm_defs split: if_splits option.splits)
next
  case (20 m w err m' w')
  then show ?case by (auto simp: tm_defs split: if_splits option.splits)
next
  case (21 m w e m' w')
  then show ?case by (auto simp: tm_defs tm_active_def split: if_splits option.splits)
next
  case (22 m w m' w')
  then show ?case using Stop_state [of env m w] by (auto simp: IsConnected_def split: if_splits)
next
  case (23 m fwd w err m' w')
  then have s: "StartForwarding env fwd m w = (Some err, m', w')" and n: "m_addrNotifications m = []" by auto
  from s n show ?case
    using 23(3) sendForwarding_error [of env m fwd w err, OF _ n]
    by (cases rule: StartForwarding_cases) (auto simp: tm_active_def)
next
  case (24 fwd m w err m' w')
  then have "StopForwarding env fwd m w = (Some err, m', w')" by simp
  then show ?case
    by (cases rule: StopForwarding_cases) (auto dest: sendForwardingOnce_error [OF sym])
qed

end
