(* ===== verification/Session_Pool.thy ===== *)
theory Session_Pool
  imports Session_Manager Pool_Interface Tunnel_Manager
begin

text \<open>
  \<open>SSHSessionPool\<close> of \<open>ssh/ssh_session_pool.go\<close>: up to three session managers, one per
  kind, built by a factory. The pool drives its managers only through the interface
  \<open>sessionManager\<close>, which is the argument \<open>M\<close> of its operations. The world is what
  the managers share: the trace of the wire.
\<close>

record ('m, 'w) SSHSessionPool =
  p_managers :: "(SessionKind, 'm) gomap"
  p_flags :: "(SessionKind, SessionFlags) gomap"
  p_world :: 'w

type_synonym 'm managerFactory = "SessionFlags \<Rightarrow> string \<Rightarrow> go_error + 'm"

definition newSessionPoolWithFactory ::
  "('m, 'w) sessionManager \<Rightarrow> 'm managerFactory \<Rightarrow> 'w \<Rightarrow> go_error + ('m, 'w) SSHSessionPool" where
  "newSessionPoolWithFactory M factory w =
     (case factory noFlags ''plain'' of
        Inl err \<Rightarrow> Inl (Wrapf ''build plain manager'' err)
      | Inr plain \<Rightarrow>
          (let (err, plain', w') = sm_Connect M plain w
           in Inr \<lparr>p_managers = [(SessionPlain, plain')], p_flags = [(SessionPlain, noFlags)],
                   p_world = w'\<rparr>))"

definition openLocked ::
  "('m, 'w) sessionManager \<Rightarrow> 'm managerFactory \<Rightarrow> SessionKind \<Rightarrow> SessionFlags \<Rightarrow>
     ('m, 'w) SSHSessionPool \<Rightarrow> go_error option \<times> ('m, 'w) SSHSessionPool" where
  "openLocked M factory kind flags p =
     (case factory flags (DefaultLabel flags) of
        Inl err \<Rightarrow> (Some (Wrapf (''build '' @ SessionKind_String kind @ '' manager'') err), p)
      | Inr m \<Rightarrow>
          (let (err, m', w') = sm_Connect M m (p_world p)
           in (None, p\<lparr>p_managers := mput kind m' (p_managers p),
                       p_flags := mput kind flags (p_flags p), p_world := w'\<rparr>)))"

definition closeKind ::
  "('m, 'w) sessionManager \<Rightarrow> SessionKind \<Rightarrow> 'm \<Rightarrow> ('m, 'w) SSHSessionPool \<Rightarrow> ('m, 'w) SSHSessionPool" where
  "closeKind M kind existing p =
     (let (existing', w') = sm_Stop M existing (p_world p)
      in p\<lparr>p_managers := mdel kind (p_managers p), p_flags := mdel kind (p_flags p), p_world := w'\<rparr>)"

definition reconcileKind ::
  "('m, 'w) sessionManager \<Rightarrow> 'm managerFactory \<Rightarrow> SessionKind \<Rightarrow> bool \<Rightarrow> SessionFlags \<Rightarrow>
     ('m, 'w) SSHSessionPool \<Rightarrow> go_error option \<times> ('m, 'w) SSHSessionPool" where
  "reconcileKind M factory kind want desired p =
     (case mget (p_managers p) kind of
        None \<Rightarrow> (if want then openLocked M factory kind desired p else (None, p))
      | Some existing \<Rightarrow>
          (if \<not> want then (None, closeKind M kind existing p)
           else if (case mget (p_flags p) kind of None \<Rightarrow> noFlags | Some flags \<Rightarrow> flags) \<noteq> desired
           then openLocked M factory kind desired (closeKind M kind existing p)
           else (None, p)))"

definition ConfigureSessions ::
  "('m, 'w) sessionManager \<Rightarrow> 'm managerFactory \<Rightarrow> int \<Rightarrow> bool \<Rightarrow>
     ('m, 'w) SSHSessionPool \<Rightarrow> go_error option \<times> ('m, 'w) SSHSessionPool" where
  "ConfigureSessions M factory ppVersion sniEnabled p =
     (let (err, p1) = reconcileKind M factory SessionProxyProto (ppVersion > 0)
                        \<lparr>ProxyProtocolVersion = ppVersion, SNIProxy = False\<rparr> p
      in if err \<noteq> None then (err, p1)
         else reconcileKind M factory SessionSNIProxy sniEnabled
                \<lparr>ProxyProtocolVersion = 0, SNIProxy = True\<rparr> p1)"

definition pool_StartForwarding ::
  "('m, 'w) sessionManager \<Rightarrow> SessionKind \<Rightarrow> ForwardingConfig \<Rightarrow>
     ('m, 'w) SSHSessionPool \<Rightarrow> go_error option \<times> ('m, 'w) SSHSessionPool" where
  "pool_StartForwarding M kind cfg p =
     (case mget (p_managers p) kind of
        None \<Rightarrow> (Some (ErrSessionNotEnabled (SessionKind_String kind)), p)
      | Some m \<Rightarrow>
          (let (err, m', w') = sm_StartForwarding M cfg m (p_world p)
           in (err, p\<lparr>p_managers := mput kind m' (p_managers p), p_world := w'\<rparr>)))"

definition pool_StopForwarding ::
  "('m, 'w) sessionManager \<Rightarrow> SessionKind \<Rightarrow> ForwardingConfig \<Rightarrow>
     ('m, 'w) SSHSessionPool \<Rightarrow> go_error option \<times> ('m, 'w) SSHSessionPool" where
  "pool_StopForwarding M kind cfg p =
     (case mget (p_managers p) kind of
        None \<Rightarrow> (Some (ErrSessionNotEnabled (SessionKind_String kind)), p)
      | Some m \<Rightarrow>
          (let (err, m', w') = sm_StopForwarding M cfg m (p_world p)
           in (err, p\<lparr>p_managers := mput kind m' (p_managers p), p_world := w'\<rparr>)))"

definition pool_GetAssignedAddresses ::
  "('m, 'w) sessionManager \<Rightarrow> SessionKind \<Rightarrow> string \<Rightarrow> int \<Rightarrow> ('m, 'w) SSHSessionPool \<Rightarrow> string list" where
  "pool_GetAssignedAddresses M kind hostname port p =
     (case mget (p_managers p) kind of
        None \<Rightarrow> []
      | Some m \<Rightarrow> sm_GetAssignedAddresses M hostname port m)"

definition pool_IsConnected ::
  "('m, 'w) sessionManager \<Rightarrow> SessionKind \<Rightarrow> ('m, 'w) SSHSessionPool \<Rightarrow> bool" where
  "pool_IsConnected M kind p =
     (case mget (p_managers p) kind of None \<Rightarrow> False | Some m \<Rightarrow> sm_IsConnected M m)"

fun connect_all ::
  "('m, 'w) sessionManager \<Rightarrow> (SessionKind, 'm) gomap \<Rightarrow> 'w \<Rightarrow> (SessionKind, 'm) gomap \<times> 'w" where
  "connect_all M [] w = ([], w)"
| "connect_all M ((kind, m) # ms) w =
     (if sm_IsConnected M m
      then (let (ms', w') = connect_all M ms w in ((kind, m) # ms', w'))
      else (let (err, m', w1) = sm_Connect M m w; (ms', w2) = connect_all M ms w1
            in ((kind, m') # ms', w2)))"

definition pool_Connect :: "('m, 'w) sessionManager \<Rightarrow> ('m, 'w) SSHSessionPool \<Rightarrow> ('m, 'w) SSHSessionPool" where
  "pool_Connect M p =
     (let (ms, w) = connect_all M (p_managers p) (p_world p) in p\<lparr>p_managers := ms, p_world := w\<rparr>)"

fun stop_all :: "('m, 'w) sessionManager \<Rightarrow> (SessionKind, 'm) gomap \<Rightarrow> 'w \<Rightarrow> 'w" where
  "stop_all M [] w = w"
| "stop_all M ((kind, m) # ms) w = (let (m', w') = sm_Stop M m w in stop_all M ms w')"

definition pool_Stop :: "('m, 'w) sessionManager \<Rightarrow> ('m, 'w) SSHSessionPool \<Rightarrow> ('m, 'w) SSHSessionPool" where
  "pool_Stop M p = p\<lparr>p_managers := [], p_flags := [], p_world := stop_all M (p_managers p) (p_world p)\<rparr>"

text \<open>The pool as the controller sees it.\<close>

definition pool_ops ::
  "('m, 'w) sessionManager \<Rightarrow> 'm managerFactory \<Rightarrow> ('m, 'w) SSHSessionPool sessionPool" where
  "pool_ops M factory =
     \<lparr>sp_ConfigureSessions = ConfigureSessions M factory,
      sp_StartForwarding = pool_StartForwarding M, sp_StopForwarding = pool_StopForwarding M,
      sp_GetAssignedAddresses = pool_GetAssignedAddresses M, sp_IsConnected = pool_IsConnected M,
      sp_Connect = pool_Connect M, sp_Stop = pool_Stop M\<rparr>"

text \<open>The production factory: tunnel managers that share the base configuration.\<close>

definition tunnel_factory ::
  "(string \<Rightarrow> go_error option) \<Rightarrow> SSHConnectionConfig \<Rightarrow> SSHTunnelManager managerFactory" where
  "tunnel_factory ParsePrivateKey baseConfig = (\<lambda>flags label.
     NewSSHTunnelManager ParsePrivateKey
       (baseConfig\<lparr>ConfigSessionFlags := flags, SessionLabel := label\<rparr>))"

definition NewSSHSessionPool ::
  "ssh_env \<Rightarrow> (string \<Rightarrow> go_error option) \<Rightarrow> SSHConnectionConfig \<Rightarrow> trace \<Rightarrow>
     go_error + (SSHTunnelManager, trace) SSHSessionPool" where
  "NewSSHSessionPool env ParsePrivateKey baseConfig tr =
     newSessionPoolWithFactory (tunnel_manager env) (tunnel_factory ParsePrivateKey baseConfig) tr"

section \<open>Invariant and abstraction\<close>

definition pool_inv :: "('m \<Rightarrow> bool) \<Rightarrow> ('m, 'w) SSHSessionPool \<Rightarrow> bool" where
  "pool_inv minv p \<longleftrightarrow> gomap_ok (p_managers p) \<and> gomap_ok (p_flags p) \<and>
     (\<forall>k. mget (p_flags p) k = None \<longleftrightarrow> mget (p_managers p) k = None) \<and>
     (\<forall>k m. mget (p_managers p) k = Some m \<longrightarrow> minv m)"

definition pool_active ::
  "('m \<Rightarrow> string \<Rightarrow> ForwardingConfig option) \<Rightarrow> ('m, 'w) SSHSessionPool \<Rightarrow> SessionKind \<Rightarrow> string \<Rightarrow> ForwardingConfig option" where
  "pool_active active p kind key =
     (case mget (p_managers p) kind of None \<Rightarrow> None | Some m \<Rightarrow> active m key)"

lemma pool_ops_simps [simp]:
  "sp_ConfigureSessions (pool_ops M factory) = ConfigureSessions M factory"
  "sp_StartForwarding (pool_ops M factory) = pool_StartForwarding M"
  "sp_StopForwarding (pool_ops M factory) = pool_StopForwarding M"
  "sp_GetAssignedAddresses (pool_ops M factory) = pool_GetAssignedAddresses M"
  "sp_IsConnected (pool_ops M factory) = pool_IsConnected M"
  "sp_Connect (pool_ops M factory) = pool_Connect M"
  "sp_Stop (pool_ops M factory) = pool_Stop M"
  by (simp_all add: pool_ops_def)

lemma pool_invD: "pool_inv minv p \<Longrightarrow> mget (p_managers p) k = Some m \<Longrightarrow> minv m"
  by (simp add: pool_inv_def)

lemma pool_flag_None: "pool_inv minv p \<Longrightarrow> mget (p_flags p) k = None \<longleftrightarrow> mget (p_managers p) k = None"
  by (simp add: pool_inv_def)

text \<open>Writing one manager back keeps the shape of the pool.\<close>

lemma pool_inv_put:
  assumes "pool_inv minv p" "minv m'" "mget (p_managers p) kind = Some m"
  shows "pool_inv minv (p\<lparr>p_managers := mput kind m' (p_managers p), p_world := w\<rparr>)"
  using assms by (auto simp: pool_inv_def)

lemma pool_active_put:
  "pool_active active (p\<lparr>p_managers := mput kind m' (p_managers p), p_world := w\<rparr>)
     = (pool_active active p)(kind := active m')"
  by (auto simp: pool_active_def fun_eq_iff)

lemma pool_active_Some: "mget (p_managers p) kind = Some m \<Longrightarrow> pool_active active p kind = active m"
  by (simp add: pool_active_def fun_eq_iff)

lemma pool_active_None: "mget (p_managers p) kind = None \<Longrightarrow> pool_active active p kind = Map.empty"
  by (simp add: pool_active_def fun_eq_iff)

text \<open>The operations on a kind that is open, and on one that is not.\<close>

lemma pool_Start_open:
  "mget (p_managers p) kind = Some m \<Longrightarrow> sm_StartForwarding M cfg m (p_world p) = (e, m', w') \<Longrightarrow>
   pool_StartForwarding M kind cfg p = (e, p\<lparr>p_managers := mput kind m' (p_managers p), p_world := w'\<rparr>)"
  by (simp add: pool_StartForwarding_def)

lemma pool_Stop_open:
  "mget (p_managers p) kind = Some m \<Longrightarrow> sm_StopForwarding M cfg m (p_world p) = (e, m', w') \<Longrightarrow>
   pool_StopForwarding M kind cfg p = (e, p\<lparr>p_managers := mput kind m' (p_managers p), p_world := w'\<rparr>)"
  by (simp add: pool_StopForwarding_def)

lemma pool_closed:
  assumes "mget (p_managers p) kind = None"
  shows "pool_StartForwarding M kind cfg p = (Some (ErrSessionNotEnabled (SessionKind_String kind)), p)"
    and "pool_StopForwarding M kind cfg p = (Some (ErrSessionNotEnabled (SessionKind_String kind)), p)"
    and "pool_GetAssignedAddresses M kind h n p = []"
    and "\<not> pool_IsConnected M kind p"
  using assms
  by (simp_all add: pool_StartForwarding_def pool_StopForwarding_def pool_GetAssignedAddresses_def pool_IsConnected_def)

lemma mput_same: "mget m k = Some v \<Longrightarrow> mput k v m = m"
  by (induction m) (auto split: if_splits)

lemma pool_put_same:
  "mget (p_managers p) kind = Some m \<Longrightarrow>
   p\<lparr>p_managers := mput kind m (p_managers p), p_world := p_world p\<rparr> = p"
  by (simp add: mput_same)

text \<open>Reconnecting works on every manager separately.\<close>

lemma connect_all_keys: "map fst (fst (connect_all M ms w)) = map fst ms"
  by (induction M ms w rule: connect_all.induct) (auto split: prod.splits)

lemma connect_all_None: "mget (fst (connect_all M ms w)) k = None \<longleftrightarrow> mget ms k = None"
  using arg_cong [OF connect_all_keys [of M ms w], of set] by (auto simp: map_of_eq_None_iff)

lemma connect_all_Some:
  "mget ms k = Some m \<Longrightarrow>
   (sm_IsConnected M m \<and> mget (fst (connect_all M ms w)) k = Some m) \<or>
   (\<not> sm_IsConnected M m \<and>
     (\<exists>w1 e m' w2. sm_Connect M m w1 = (e, m', w2) \<and> mget (fst (connect_all M ms w)) k = Some m'))"
proof (induction M ms w rule: connect_all.induct)
  case (1 M w)
  then show ?case by simp
next
  case (2 M kind m0 ms w)
  show ?case
  proof (cases "kind = k")
    case True
    with 2(3) show ?thesis by (auto split: prod.splits)
  next
    case False
    with 2(3) have m: "mget ms k = Some m" by auto
    show ?thesis
    proof (cases "sm_IsConnected M m0")
      case True
      with 2(1) [OF True m] False show ?thesis by (auto split: prod.splits)
    next
      case nc: False
      obtain e m1 w1 where c: "sm_Connect M m0 w = (e, m1, w1)" by (metis prod_cases3)
      show ?thesis using 2(2) [OF nc refl c [symmetric] refl m] False nc c by (auto split: prod.splits)
    qed
  qed
qed

lemma pool_Connect_simps [simp]:
  "p_managers (pool_Connect M p) = fst (connect_all M (p_managers p) (p_world p))"
  "p_flags (pool_Connect M p) = p_flags p"
  by (simp_all add: pool_Connect_def split: prod.splits)

section \<open>The pool keeps the contract of the controllers\<close>

text \<open>
  What the pool asks of its factory: a manager that is new, well-formed and offline.
\<close>

locale session_pool_provider = session_manager M minv active
  for M :: "('m, 'w) sessionManager" and minv :: "'m \<Rightarrow> bool"
    and active :: "'m \<Rightarrow> string \<Rightarrow> ForwardingConfig option" +
  fixes factory :: "'m managerFactory"
  assumes factory_new: "factory flags label = Inr m \<Longrightarrow> minv m \<and> \<not> sm_IsConnected M m"
begin

lemma factory_empty: "factory flags label = Inr m \<Longrightarrow> active m k = None"
  using factory_new offline_empty by blast

lemma openLocked_cases:
  assumes "openLocked M factory kind flags p = (e, p')" "pool_inv minv p"
  obtains (failed) err where "e = Some err" "p' = p"
  | (opened) m' w' where "e = None" "minv m'" "active m' = Map.empty"
      "p' = p\<lparr>p_managers := mput kind m' (p_managers p), p_flags := mput kind flags (p_flags p), p_world := w'\<rparr>"
proof (cases "factory flags (DefaultLabel flags)")
  case (Inl err)
  with assms(1) show ?thesis using failed by (auto simp: openLocked_def)
next
  case (Inr m)
  obtain ce m' w' where c: "sm_Connect M m (p_world p) = (ce, m', w')" by (metis prod_cases3)
  have "active m' = Map.empty"
    using connect_active [OF _ c] factory_new [OF Inr] factory_empty [OF Inr] by (simp add: fun_eq_iff)
  moreover have "minv m'" using connect_inv [OF _ c] factory_new [OF Inr] by simp
  ultimately show ?thesis
    using opened [of m' w'] assms(1) Inr c by (simp add: openLocked_def)
qed

lemma closeKind_state:
  assumes "pool_inv minv p"
  shows "pool_inv minv (closeKind M kind existing p)"
    and "mget (p_managers (closeKind M kind existing p)) = (mget (p_managers p))(kind := None)"
    and "mget (p_flags (closeKind M kind existing p)) = (mget (p_flags p))(kind := None)"
  using assms by (auto simp: closeKind_def pool_inv_def fun_eq_iff split: prod.splits)

lemma openLocked_state:
  assumes "pool_inv minv p" "openLocked M factory kind flags p = (e, p')"
  shows "pool_inv minv p'"
    and "k \<noteq> kind \<Longrightarrow> mget (p_managers p') k = mget (p_managers p) k"
    and "mget (p_flags p') = (if e = None then (mget (p_flags p))(kind \<mapsto> flags) else mget (p_flags p))"
    and "pool_active active p' = (if e = None then (pool_active active p)(kind := Map.empty) else pool_active active p)"
proof -
  from assms(2,1) have all: "pool_inv minv p' \<and> (\<forall>k. k \<noteq> kind \<longrightarrow> mget (p_managers p') k = mget (p_managers p) k) \<and>
    mget (p_flags p') = (if e = None then (mget (p_flags p))(kind \<mapsto> flags) else mget (p_flags p)) \<and>
    pool_active active p' = (if e = None then (pool_active active p)(kind := Map.empty) else pool_active active p)"
  proof (cases rule: openLocked_cases)
    case (failed err)
    with assms(1) show ?thesis by simp
  next
    case (opened m' w')
    with assms(1) show ?thesis by (auto simp: pool_inv_def pool_active_def fun_eq_iff)
  qed
  then show "pool_inv minv p'" "k \<noteq> kind \<Longrightarrow> mget (p_managers p') k = mget (p_managers p) k"
    "mget (p_flags p') = (if e = None then (mget (p_flags p))(kind \<mapsto> flags) else mget (p_flags p))"
    "pool_active active p' = (if e = None then (pool_active active p)(kind := Map.empty) else pool_active active p)"
    by simp_all
qed

text \<open>
  One kind after a reconciliation: the flags asked for, or none; and its forwardings are kept
  only when the session was already open with exactly those flags. On an error the kind is closed.
\<close>

lemma reconcileKind_state:
  assumes "pool_inv minv p" "reconcileKind M factory kind want desired p = (e, p')"
  shows "pool_inv minv p' \<and> (\<forall>k. k \<noteq> kind \<longrightarrow> mget (p_managers p') k = mget (p_managers p) k) \<and>
    mget (p_flags p') = (mget (p_flags p))(kind := if want \<and> e = None then Some desired else None) \<and>
    pool_active active p' = (pool_active active p)
      (kind := if want \<and> mget (p_flags p) kind = Some desired then pool_active active p kind else Map.empty) \<and>
    (e \<noteq> None \<longrightarrow> want \<and> mget (p_flags p) kind \<noteq> Some desired) \<and>
    (want \<and> mget (p_flags p) kind = Some desired \<longrightarrow> p' = p)"
proof (cases "mget (p_managers p) kind")
  case None
  with assms(1) have f: "mget (p_flags p) kind = None" by (simp add: pool_inv_def)
  have n: "pool_active active p kind = Map.empty" using None by (rule pool_active_None)
  show ?thesis
  proof (cases want)
    case True
    with None assms(2) have o: "openLocked M factory kind desired p = (e, p')"
      by (simp add: reconcileKind_def)
    show ?thesis using openLocked_state [OF assms(1) o] True f n by (auto simp: fun_eq_iff)
  next
    case False
    with None f n assms show ?thesis by (auto simp: reconcileKind_def fun_eq_iff)
  qed
next
  case (Some m)
  with assms(1) obtain fl where f: "mget (p_flags p) kind = Some fl"
    by (cases "mget (p_flags p) kind") (auto simp: pool_inv_def)
  note c = closeKind_state [OF assms(1), of kind m]
  have a: "pool_active active (closeKind M kind m p) = (pool_active active p)(kind := Map.empty)"
    using c(2) by (auto simp: pool_active_def fun_eq_iff)
  consider "\<not> want" | "want" "fl = desired" | "want" "fl \<noteq> desired" by blast
  then show ?thesis
  proof cases
    case 1
    with Some assms(2) have "e = None" "p' = closeKind M kind m p" by (auto simp: reconcileKind_def)
    with 1 a c show ?thesis by (simp add: fun_eq_iff)
  next
    case 2
    with Some f assms show ?thesis by (auto simp: reconcileKind_def fun_eq_iff)
  next
    case 3
    with Some f assms(2) have o: "openLocked M factory kind desired (closeKind M kind m p) = (e, p')"
      by (simp add: reconcileKind_def)
    show ?thesis using openLocked_state [OF c(1) o] 3 f a c(2,3) by (auto simp: fun_eq_iff)
  qed
qed

lemma ConfigureSessions_split:
  assumes "ConfigureSessions M factory v sni p = (e, p')"
  obtains e1 p1 where
    "reconcileKind M factory SessionProxyProto (v > 0) \<lparr>ProxyProtocolVersion = v, SNIProxy = False\<rparr> p = (e1, p1)"
    "e1 \<noteq> None \<Longrightarrow> e = e1 \<and> p' = p1"
    "e1 = None \<Longrightarrow> reconcileKind M factory SessionSNIProxy sni \<lparr>ProxyProtocolVersion = 0, SNIProxy = True\<rparr> p1 = (e, p')"
  using assms by (auto simp: ConfigureSessions_def split: prod.splits if_splits)

lemma ConfigureSessions_inv:
  "pool_inv minv p \<Longrightarrow> ConfigureSessions M factory v sni p = (e, p') \<Longrightarrow> pool_inv minv p'"
  by (erule ConfigureSessions_split) (metis reconcileKind_state)

text \<open>Dispatch: each law of a manager, at the kind it is open for.\<close>

lemma pool_start_state:
  assumes "pool_inv minv p" "pool_StartForwarding M kind cfg p = (e, p')"
  shows "pool_inv minv p' \<and>
    pool_active active p' = (if e = None then (pool_active active p)(kind := (pool_active active p kind)(cfgKey cfg \<mapsto> cfg))
                             else pool_active active p) \<and>
    (\<forall>k. pool_IsConnected M k p' = pool_IsConnected M k p) \<and>
    (\<forall>k h n. k \<noteq> kind \<or> forwardingKey h n \<noteq> cfgKey cfg \<longrightarrow>
       pool_GetAssignedAddresses M k h n p' = pool_GetAssignedAddresses M k h n p)"
proof (cases "mget (p_managers p) kind")
  case None
  with assms pool_closed [OF None] show ?thesis by auto
next
  case (Some m)
  obtain e0 m' w' where r: "sm_StartForwarding M cfg m (p_world p) = (e0, m', w')" by (metis prod_cases3)
  from pool_invD [OF assms(1) Some] have m: "minv m" .
  from pool_Start_open [OF Some r] assms(2)
  have p': "p' = p\<lparr>p_managers := mput kind m' (p_managers p), p_world := w'\<rparr>" and e: "e0 = e" by auto
  have "pool_active active p' = (pool_active active p)(kind := active m')"
    unfolding p' by (rule pool_active_put)
  then have "pool_active active p' = (if e = None then (pool_active active p)(kind := (pool_active active p kind)(cfgKey cfg \<mapsto> cfg))
                             else pool_active active p)"
    using start_active [OF m r] e pool_active_Some [OF Some, of active] by (auto simp: fun_eq_iff)
  moreover have "pool_inv minv p'"
    unfolding p' by (rule pool_inv_put [OF assms(1) start_inv [OF m r] Some])
  moreover have "pool_IsConnected M k p' = pool_IsConnected M k p" for k
    using start_connected [OF m r] Some by (simp add: p' pool_IsConnected_def)
  moreover have "k \<noteq> kind \<or> forwardingKey h n \<noteq> cfgKey cfg \<Longrightarrow>
       pool_GetAssignedAddresses M k h n p' = pool_GetAssignedAddresses M k h n p" for k h n
    using start_addrs_other [OF m r] Some by (auto simp: p' pool_GetAssignedAddresses_def)
  ultimately show ?thesis by blast
qed

lemma pool_stop_state:
  assumes "pool_inv minv p" "pool_StopForwarding M kind cfg p = (e, p')"
  shows "pool_inv minv p' \<and>
    pool_active active p' = (pool_active active p)(kind := (pool_active active p kind)(cfgKey cfg := None)) \<and>
    (\<forall>k. pool_IsConnected M k p' = pool_IsConnected M k p)"
proof (cases "mget (p_managers p) kind")
  case None
  with assms pool_closed [OF None] pool_active_None [OF None, of active] show ?thesis
    by (auto simp: fun_eq_iff)
next
  case (Some m)
  obtain e0 m' w' where r: "sm_StopForwarding M cfg m (p_world p) = (e0, m', w')" by (metis prod_cases3)
  from pool_invD [OF assms(1) Some] have m: "minv m" .
  from pool_Stop_open [OF Some r] assms(2)
  have p': "p' = p\<lparr>p_managers := mput kind m' (p_managers p), p_world := w'\<rparr>" and e: "e0 = e" by auto
  have "pool_active active p' = (pool_active active p)(kind := active m')"
    unfolding p' by (rule pool_active_put)
  then have "pool_active active p' = (pool_active active p)(kind := (pool_active active p kind)(cfgKey cfg := None))"
    using stop_active_general [OF m r] pool_active_Some [OF Some, of active] by (simp add: fun_eq_iff)
  moreover have "pool_inv minv p'"
    unfolding p' by (rule pool_inv_put [OF assms(1) stop_inv [OF m r] Some])
  moreover have "pool_IsConnected M k p' = pool_IsConnected M k p" for k
    using stop_connected [OF m r] Some by (simp add: p' pool_IsConnected_def)
  ultimately show ?thesis by blast
qed

lemma pool_offline_empty:
  "pool_inv minv p \<Longrightarrow> \<not> pool_IsConnected M kind p \<Longrightarrow> pool_active active p kind k = None"
  using offline_empty by (auto simp: pool_IsConnected_def pool_active_def dest: pool_invD split: option.splits)

lemma pool_addrs_active:
  "pool_inv minv p \<Longrightarrow> pool_active active p kind (forwardingKey h n) = None \<Longrightarrow>
   pool_GetAssignedAddresses M kind h n p = []"
  using addrs_active by (auto simp: pool_GetAssignedAddresses_def pool_active_def dest: pool_invD split: option.splits)

lemma pool_start_offline:
  "\<not> pool_IsConnected M kind p \<Longrightarrow> \<exists>e. pool_StartForwarding M kind cfg p = (Some e, p)"
  by (cases "mget (p_managers p) kind")
    (auto simp: pool_StartForwarding_def pool_IsConnected_def start_offline mput_same)

lemma pool_start_exists:
  "pool_inv minv p \<Longrightarrow> pool_IsConnected M kind p \<Longrightarrow> pool_active active p kind (cfgKey cfg) = Some old \<Longrightarrow>
   pool_StartForwarding M kind cfg p = (Some (ErrSSHForwardingExists (cfgKey cfg)), p)"
  by (cases "mget (p_managers p) kind")
    (auto simp: pool_StartForwarding_def pool_IsConnected_def pool_active_def mput_same start_exists dest: pool_invD)

lemma pool_start_exists_only:
  "pool_inv minv p \<Longrightarrow> pool_StartForwarding M kind cfg p = (Some err, p') \<Longrightarrow>
   errors_As is_ForwardingExists err \<Longrightarrow> pool_active active p kind (cfgKey cfg) \<noteq> None"
  using start_exists_only
  by (cases "mget (p_managers p) kind")
    (fastforce simp: pool_StartForwarding_def pool_active_def dest: pool_invD split: prod.splits)+

lemma pool_stop_error:
  "pool_StopForwarding M kind cfg p = (Some err, p') \<Longrightarrow>
   \<not> errors_As is_GatewayNotFound err \<and> \<not> errors_As is_RouteNotFound err"
  using stop_error
  by (cases "mget (p_managers p) kind") (auto simp: pool_StopForwarding_def split: prod.splits)

lemma pool_stop_offline:
  "\<not> pool_IsConnected M kind p \<Longrightarrow> \<exists>e. pool_StopForwarding M kind cfg p = (Some e, p) \<and>
     (e = ErrSSHClientNotReady \<or> e = ErrSessionNotEnabled (SessionKind_String kind))"
  by (cases "mget (p_managers p) kind")
    (auto simp: pool_StopForwarding_def pool_IsConnected_def stop_offline mput_same)

lemma pool_stop_missing:
  "pool_inv minv p \<Longrightarrow> pool_IsConnected M kind p \<Longrightarrow> pool_active active p kind (cfgKey cfg) = None \<Longrightarrow>
   pool_StopForwarding M kind cfg p = (Some (ErrSSHForwardingNotFound (cfgKey cfg)), p)"
  by (cases "mget (p_managers p) kind")
    (auto simp: pool_StopForwarding_def pool_IsConnected_def pool_active_def mput_same stop_missing dest: pool_invD)

lemma pool_connect_state:
  assumes "pool_inv minv p"
  shows "pool_inv minv (pool_Connect M p)"
    and "pool_active active (pool_Connect M p) = pool_active active p"
    and "pool_IsConnected M kind p \<Longrightarrow> pool_IsConnected M kind (pool_Connect M p)"
proof -
  let ?ms = "fst (connect_all M (p_managers p) (p_world p))"
  have d: "gomap_ok ?ms" using assms connect_all_keys [of M "p_managers p" "p_world p"]
    by (simp add: pool_inv_def gomap_ok_def)
  have s: "mget ?ms k = Some m' \<Longrightarrow> \<exists>m. mget (p_managers p) k = Some m \<and> minv m' \<and> active m' = active m \<and>
      (sm_IsConnected M m \<longrightarrow> m' = m)" for k m'
  proof -
    assume m': "mget ?ms k = Some m'"
    then obtain m where m: "mget (p_managers p) k = Some m"
      using connect_all_None [of M "p_managers p" "p_world p" k] by fastforce
    from connect_all_Some [OF m, of M "p_world p"] m' pool_invD [OF assms m] m
    show ?thesis using connect_inv connect_active by fastforce
  qed
  show "pool_inv minv (pool_Connect M p)"
    using assms d s connect_all_None [of M "p_managers p" "p_world p"] by (fastforce simp: pool_inv_def)
  show "pool_active active (pool_Connect M p) = pool_active active p"
  proof (intro ext)
    fix kind k
    show "pool_active active (pool_Connect M p) kind k = pool_active active p kind k"
      using s [of kind] connect_all_None [of M "p_managers p" "p_world p" kind]
      by (cases "mget ?ms kind") (fastforce simp: pool_active_def)+
  qed
  show "pool_IsConnected M kind p \<Longrightarrow> pool_IsConnected M kind (pool_Connect M p)"
    using s [of kind] connect_all_None [of M "p_managers p" "p_world p" kind]
    by (cases "mget ?ms kind") (fastforce simp: pool_IsConnected_def split: option.splits)+
qed

end

sublocale session_pool_provider \<subseteq> spp: session_pool "pool_ops M factory" "pool_inv minv" "pool_active active"
  by (unfold_locales; unfold pool_ops_simps;
      (use pool_start_state pool_stop_state pool_connect_state ConfigureSessions_inv in blast
       | metis pool_start_state pool_offline_empty pool_addrs_active pool_start_offline
           pool_start_exists pool_stop_offline pool_stop_missing pool_start_exists_only pool_stop_error))

interpretation tunnels: session_pool_provider "tunnel_manager env" TM_inv tm_active "tunnel_factory pk base"
  for env pk base
proof
  fix flags label m
  assume n: "tunnel_factory pk base flags label = Inr m"
  then have "TM_inv m" unfolding tunnel_factory_def by (rule TM_inv_New)
  with n show "TM_inv m \<and> \<not> sm_IsConnected (tunnel_manager env) m"
    by (auto simp: tunnel_factory_def NewSSHTunnelManager_def IsConnected_def Let_def split: option.splits)
qed

abbreviation tunnel_pool_ops ::
  "ssh_env \<Rightarrow> (string \<Rightarrow> go_error option) \<Rightarrow> SSHConnectionConfig \<Rightarrow> (SSHTunnelManager, trace) SSHSessionPool sessionPool" where
  "tunnel_pool_ops env pk base \<equiv> pool_ops (tunnel_manager env) (tunnel_factory pk base)"

abbreviation tunnel_pool_inv :: "(SSHTunnelManager, trace) SSHSessionPool \<Rightarrow> bool" where
  "tunnel_pool_inv \<equiv> pool_inv TM_inv"

abbreviation tunnel_pool_active ::
  "(SSHTunnelManager, trace) SSHSessionPool \<Rightarrow> SessionKind \<Rightarrow> string \<Rightarrow> ForwardingConfig option" where
  "tunnel_pool_active \<equiv> pool_active tm_active"

lemma NewSSHSessionPool_inv: "NewSSHSessionPool env pk base tr = Inr p \<Longrightarrow> tunnel_pool_inv p"
  by (auto simp: NewSSHSessionPool_def newSessionPoolWithFactory_def pool_inv_def tunnel_factory_def gomap_ok_def
      dest!: TM_inv_New dest: TM_inv_Connect split: sum.splits prod.splits if_splits)

text \<open>The session flags that a configuration asks for, per kind; the plain session is left as it is.\<close>

definition wanted_flags :: "int \<Rightarrow> bool \<Rightarrow> (SessionKind \<Rightarrow> SessionFlags option) \<Rightarrow> SessionKind \<Rightarrow> SessionFlags option" where
  "wanted_flags ppVersion sniEnabled old kind =
     (case kind of
        SessionPlain \<Rightarrow> old SessionPlain
      | SessionProxyProto \<Rightarrow> (if ppVersion > 0 then Some \<lparr>ProxyProtocolVersion = ppVersion, SNIProxy = False\<rparr> else None)
      | SessionSNIProxy \<Rightarrow> (if sniEnabled then Some \<lparr>ProxyProtocolVersion = 0, SNIProxy = True\<rparr> else None))"

context session_pool_provider
begin

lemma configure_ok_state:
  assumes i: "pool_inv minv p" and c: "ConfigureSessions M factory v sni p = (None, p')"
  shows "mget (p_flags p') = wanted_flags v sni (mget (p_flags p))"
    and "mget (p_managers p') SessionPlain = mget (p_managers p) SessionPlain"
    and "pool_active active p' kind =
      (if mget (p_flags p') kind = mget (p_flags p) kind then pool_active active p kind else Map.empty)"
proof -
  obtain p1 where
    r1: "reconcileKind M factory SessionProxyProto (v > 0) \<lparr>ProxyProtocolVersion = v, SNIProxy = False\<rparr> p = (None, p1)" and
    r2: "reconcileKind M factory SessionSNIProxy sni \<lparr>ProxyProtocolVersion = 0, SNIProxy = True\<rparr> p1 = (None, p')"
    using c by (rule ConfigureSessions_split) (metis option.distinct(1))
  note s1 = reconcileKind_state [OF i r1]
  from s1 have i1: "pool_inv minv p1" by blast
  note s2 = reconcileKind_state [OF i1 r2]
  show fl: "mget (p_flags p') = wanted_flags v sni (mget (p_flags p))"
    using s1 s2 by (auto simp: wanted_flags_def fun_eq_iff split: SessionKind.splits)
  show "mget (p_managers p') SessionPlain = mget (p_managers p) SessionPlain"
    using s1 s2 by simp
  have closed: "mget (p_flags p) k = None \<Longrightarrow> pool_active active p k = Map.empty" for k
    using i by (auto simp: pool_inv_def intro: pool_active_None)
  show "pool_active active p' kind =
      (if mget (p_flags p') kind = mget (p_flags p) kind then pool_active active p kind else Map.empty)"
    using s1 s2 closed by (cases kind) (auto simp: fl wanted_flags_def)
qed

text \<open>Whatever the outcome, the plain session is untouched, and a kind that failed is closed.\<close>

lemma configure_plain:
  assumes i: "pool_inv minv p" and c: "ConfigureSessions M factory v sni p = (e, p')"
  shows "mget (p_managers p') SessionPlain = mget (p_managers p) SessionPlain"
    and "e \<noteq> None \<Longrightarrow> (v > 0 \<and> mget (p_managers p') SessionProxyProto = None) \<or>
           (sni \<and> mget (p_managers p') SessionSNIProxy = None)"
proof -
  obtain e1 p1 where
    r1: "reconcileKind M factory SessionProxyProto (v > 0) \<lparr>ProxyProtocolVersion = v, SNIProxy = False\<rparr> p = (e1, p1)" and
    f: "e1 \<noteq> None \<Longrightarrow> e = e1 \<and> p' = p1" and
    r2: "e1 = None \<Longrightarrow> reconcileKind M factory SessionSNIProxy sni \<lparr>ProxyProtocolVersion = 0, SNIProxy = True\<rparr> p1 = (e, p')"
    using c by (rule ConfigureSessions_split) blast
  note s1 = reconcileKind_state [OF i r1]
  from s1 have i1: "pool_inv minv p1" by blast
  have "mget (p_managers p') SessionPlain = mget (p_managers p) SessionPlain \<and>
    (e \<noteq> None \<longrightarrow> (v > 0 \<and> mget (p_managers p') SessionProxyProto = None) \<or>
           (sni \<and> mget (p_managers p') SessionSNIProxy = None))"
  proof (cases e1)
    case None
    note s2 = reconcileKind_state [OF i1 r2 [OF None]]
    from s2 have i2: "pool_inv minv p'" by blast
    have "mget (p_managers p') SessionPlain = mget (p_managers p) SessionPlain"
      using s1 s2 by simp
    moreover have "e \<noteq> None \<Longrightarrow> sni \<and> mget (p_flags p') SessionSNIProxy = None" using s2 by simp
    ultimately show ?thesis using pool_flag_None [OF i2] by blast
  next
    case (Some err)
    with f have "e = e1" "p' = p1" by auto
    moreover have "v > 0 \<and> mget (p_flags p1) SessionProxyProto = None" using s1 Some by simp
    moreover have "mget (p_managers p1) SessionPlain = mget (p_managers p) SessionPlain" using s1 by simp
    ultimately show ?thesis using pool_flag_None [OF i1, of SessionProxyProto] \<open>p' = p1\<close> by simp
  qed
  then show "mget (p_managers p') SessionPlain = mget (p_managers p) SessionPlain"
    and "e \<noteq> None \<Longrightarrow> (v > 0 \<and> mget (p_managers p') SessionProxyProto = None) \<or>
           (sni \<and> mget (p_managers p') SessionSNIProxy = None)" by simp_all
qed

lemma configure_again:
  assumes i: "pool_inv minv p" and c: "ConfigureSessions M factory v sni p = (None, p')"
  shows "ConfigureSessions M factory v sni p' = (None, p')"
proof -
  have i': "pool_inv minv p'" using i c by (rule ConfigureSessions_inv)
  have r: "reconcileKind M factory kind want desired p' = (None, p')"
    if "mget (p_flags p') kind = (if want then Some desired else None)" for kind want desired
    using that pool_flag_None [OF i', of kind]
    by (cases "mget (p_managers p') kind") (auto simp: reconcileKind_def split: if_splits)
  show ?thesis
    using configure_ok_state(1) [OF i c] by (simp add: ConfigureSessions_def r wanted_flags_def)
qed

end

section \<open>Properties\<close>

text \<open>The pool of a demonstration: both special sessions are open, with one forwarding held by each kind.\<close>

definition demo_pool_env :: ssh_env where
  "demo_pool_env = \<lparr>e_dial = (\<lambda>fl tr cb. cb ''k''), e_capture = (\<lambda>fl tr. True),
     e_send = (\<lambda>fl tr r a p. Replied True), e_uris = (\<lambda>fl tr k. None),
     e_keepalive = (\<lambda>fl tr. Replied True)\<rparr>"

definition demo_pool_config :: SSHConnectionConfig where
  "demo_pool_config = \<lparr>RemoteAddrFunc = False, ServerAddress = ''sish:22'', Username = ''u'',
     HostKey = [], PrivateKey = ''k'', ConnectTimeout = 1, FwdReqTimeout = 1, KeepAliveInterval = 1,
     AddressVerificationTimeout = 0, ConfigSessionFlags = noFlags, SessionLabel = []\<rparr>"

abbreviation demo_pool_ops :: "(SSHTunnelManager, trace) SSHSessionPool sessionPool" where
  "demo_pool_ops \<equiv> tunnel_pool_ops demo_pool_env (\<lambda>k. None) demo_pool_config"

abbreviation demo_configure :: "int \<Rightarrow> bool \<Rightarrow> (SSHTunnelManager, trace) SSHSessionPool \<Rightarrow>
    go_error option \<times> (SSHTunnelManager, trace) SSHSessionPool" where
  "demo_configure \<equiv> ConfigureSessions (tunnel_manager demo_pool_env) (tunnel_factory (\<lambda>k. None) demo_pool_config)"

definition demo_pool :: "(SSHTunnelManager, trace) SSHSessionPool" where
  "demo_pool = (case NewSSHSessionPool demo_pool_env (\<lambda>k. None) demo_pool_config [] of
     Inr p \<Rightarrow> snd (demo_configure 1 True p))"

definition demo_pool_fwd :: ForwardingConfig where
  "demo_pool_fwd = \<lparr>RemoteHost = ''a'', InternalHost = ''b'', RemotePort = 1, InternalPort = 2, EnforcePort = False\<rparr>"

definition demo_pool_held :: "(SSHTunnelManager, trace) SSHSessionPool" where
  "demo_pool_held = snd (pool_StartForwarding (tunnel_manager demo_pool_env) SessionProxyProto demo_pool_fwd demo_pool)"

lemmas demo_pool_defs = demo_pool_env_def demo_pool_config_def demo_pool_def demo_pool_fwd_def demo_pool_held_def

lemma demo_pool_inv: "tunnel_pool_inv demo_pool" "tunnel_pool_inv demo_pool_held"
proof -
  obtain p where p: "NewSSHSessionPool demo_pool_env (\<lambda>k. None) demo_pool_config [] = Inr p"
    by (simp add: NewSSHSessionPool_def newSessionPoolWithFactory_def tunnel_factory_def
        NewSSHTunnelManager_def Let_def split_beta)
  obtain e p' where c: "demo_configure 1 True p = (e, p')" by (metis prod.collapse)
  from tunnels.ConfigureSessions_inv [OF NewSSHSessionPool_inv [OF p] c]
  show i: "tunnel_pool_inv demo_pool" by (simp add: demo_pool_def p c)
  obtain e2 p2 where s: "pool_StartForwarding (tunnel_manager demo_pool_env) SessionProxyProto demo_pool_fwd demo_pool = (e2, p2)"
    by (metis prod.collapse)
  from tunnels.pool_start_state [OF i s] s show "tunnel_pool_inv demo_pool_held"
    by (simp add: demo_pool_held_def)
qed

text \<open>
  C6. \<open>ConfigureSessions\<close> is exact. After a success the PROXY-protocol session is open
  iff the version is positive, with that version; the SNI session is open iff it was asked
  for; the plain session's manager is the very same as before. A session that was already
  open with the wanted flags keeps its forwardings; one whose flags changed (a flip of the
  PROXY protocol version) or that is closed has none left.
\<close>

theorem configure_sessions_exact:
  assumes "tunnel_pool_inv p"
    and "ConfigureSessions (tunnel_manager env) (tunnel_factory pk base) ppVersion sniEnabled p = (None, p')"
  shows "tunnel_pool_inv p' \<and>
     mget (p_flags p') = wanted_flags ppVersion sniEnabled (mget (p_flags p)) \<and>
     (\<forall>kind. mget (p_managers p') kind = None \<longleftrightarrow> mget (p_flags p') kind = None) \<and>
     mget (p_managers p') SessionPlain = mget (p_managers p) SessionPlain \<and>
     (\<forall>kind. tunnel_pool_active p' kind =
        (if mget (p_flags p') kind = mget (p_flags p) kind then tunnel_pool_active p kind else Map.empty))"
proof -
  have i: "tunnel_pool_inv p'" using assms by (rule tunnels.ConfigureSessions_inv)
  show ?thesis using i tunnels.configure_ok_state [OF assms] pool_flag_None [OF i] by blast
qed

theorem configure_sessions_exact_witness:
  "tunnel_pool_active (snd (demo_configure 2 True demo_pool_held)) SessionProxyProto = Map.empty \<and>
   tunnel_pool_active demo_pool_held SessionProxyProto ''a:1'' = Some demo_pool_fwd \<and>
   mget (p_flags (snd (demo_configure 2 True demo_pool_held))) SessionProxyProto
     = Some \<lparr>ProxyProtocolVersion = 2, SNIProxy = False\<rparr>"
proof -
  have c: "demo_configure 2 True demo_pool_held = (None, snd (demo_configure 2 True demo_pool_held))"
    by code_simp
  have f: "mget (p_flags demo_pool_held) SessionProxyProto = Some \<lparr>ProxyProtocolVersion = 1, SNIProxy = False\<rparr>"
    by code_simp
  have a: "tunnel_pool_active demo_pool_held SessionProxyProto ''a:1'' = Some demo_pool_fwd"
    by code_simp
  show ?thesis using configure_sessions_exact [OF demo_pool_inv(2) c] f a by (simp add: wanted_flags_def)
qed

text \<open>
  C35. Configuring again with the same settings is a no-op: it reports no error and leaves the
  whole pool, managers, flags and wire, as it is.
\<close>

theorem configure_sessions_idempotent:
  assumes "tunnel_pool_inv p"
    and "ConfigureSessions (tunnel_manager env) (tunnel_factory pk base) ppVersion sniEnabled p = (None, p')"
  shows "ConfigureSessions (tunnel_manager env) (tunnel_factory pk base) ppVersion sniEnabled p' = (None, p')"
  by (rule tunnels.configure_again [OF assms])

theorem configure_sessions_idempotent_witness:
  "demo_configure 2 False (snd (demo_configure 2 False demo_pool)) = (None, snd (demo_configure 2 False demo_pool))"
proof -
  have c: "demo_configure 2 False demo_pool = (None, snd (demo_configure 2 False demo_pool))" by code_simp
  show ?thesis by (rule configure_sessions_idempotent [OF demo_pool_inv(1) c])
qed

text \<open>
  A failing configuration is contained. The plain session is not touched, the pool stays
  well-formed, and a kind that was asked for is closed rather than half-open.
\<close>

theorem configure_sessions_failure:
  assumes "tunnel_pool_inv p"
    and "ConfigureSessions (tunnel_manager env) (tunnel_factory pk base) ppVersion sniEnabled p = (Some err, p')"
  shows "tunnel_pool_inv p' \<and> mget (p_managers p') SessionPlain = mget (p_managers p) SessionPlain \<and>
     (ppVersion > 0 \<and> mget (p_managers p') SessionProxyProto = None \<or>
      sniEnabled \<and> mget (p_managers p') SessionSNIProxy = None)"
  using tunnels.configure_plain [OF assms] tunnels.ConfigureSessions_inv [OF assms] by simp

theorem configure_sessions_failure_witness:
  "mget (p_managers (snd (ConfigureSessions (tunnel_manager demo_pool_env)
      (tunnel_factory (\<lambda>k. Some ErrSSHClientNotReady) demo_pool_config) 2 False demo_pool))) SessionProxyProto = None"
proof -
  let ?r = "ConfigureSessions (tunnel_manager demo_pool_env)
      (tunnel_factory (\<lambda>k. Some ErrSSHClientNotReady) demo_pool_config) 2 False demo_pool"
  have c: "?r = (Some (the (fst ?r)), snd ?r)" by code_simp
  show ?thesis using configure_sessions_failure [OF demo_pool_inv(1) c] by simp
qed

text \<open>
  C34. Sessions are isolated. Starting or stopping a forwarding on one kind leaves the managers
  of all other kinds exactly as they were; on a kind that is not open it answers
  \<open>ErrSessionNotEnabled\<close> and changes nothing; and the forwarding that is started is filed
  under its own kind and key only.
\<close>

theorem pool_dispatch_isolated:
  assumes "tunnel_pool_inv p"
    and "pool_StartForwarding (tunnel_manager env) kind cfg p = (e, p')"
    and "pool_StopForwarding (tunnel_manager env) kind cfg p = (e2, p2)"
  shows "(\<forall>k. k \<noteq> kind \<longrightarrow> mget (p_managers p') k = mget (p_managers p) k \<and>
            mget (p_managers p2) k = mget (p_managers p) k) \<and>
     (mget (p_managers p) kind = None \<longrightarrow>
        e = Some (ErrSessionNotEnabled (SessionKind_String kind)) \<and> p' = p \<and> e2 = e \<and> p2 = p) \<and>
     (e = None \<longrightarrow> tunnel_pool_active p kind (cfgKey cfg) = None \<and>
        tunnel_pool_active p' = (tunnel_pool_active p)
          (kind := (tunnel_pool_active p kind)(cfgKey cfg \<mapsto> cfg))) \<and>
     tunnel_pool_active p2 = (tunnel_pool_active p)(kind := (tunnel_pool_active p kind)(cfgKey cfg := None))"
proof -
  have s: "sp_StartForwarding (tunnel_pool_ops env pk base) kind cfg p = (e, p')" for pk base
    using assms(2) by simp
  have "k \<noteq> kind \<Longrightarrow> mget (p_managers p') k = mget (p_managers p) k \<and>
            mget (p_managers p2) k = mget (p_managers p) k" for k
    using assms(2,3) by (auto simp: pool_StartForwarding_def pool_StopForwarding_def split: option.splits prod.splits)
  moreover have "mget (p_managers p) kind = None \<Longrightarrow>
        e = Some (ErrSessionNotEnabled (SessionKind_String kind)) \<and> p' = p \<and> e2 = e \<and> p2 = p"
    using assms(2,3) pool_closed(1,2) by fastforce
  ultimately show ?thesis
    using tunnels.spp.start_ok_fresh [OF assms(1), of env _ _ kind cfg p'] s
      tunnels.pool_start_state [OF assms(1,2)] tunnels.pool_stop_state [OF assms(1,3)] by auto
qed

theorem pool_dispatch_isolated_witness:
  "tunnel_pool_active demo_pool_held SessionPlain ''a:1'' = None \<and>
   tunnel_pool_active demo_pool_held SessionProxyProto ''a:1'' = Some demo_pool_fwd"
proof -
  have s: "pool_StartForwarding (tunnel_manager demo_pool_env) SessionProxyProto demo_pool_fwd demo_pool
      = (None, demo_pool_held)" by code_simp
  obtain e2 p2 where t: "pool_StopForwarding (tunnel_manager demo_pool_env) SessionProxyProto demo_pool_fwd demo_pool = (e2, p2)"
    by (metis prod.collapse)
  have "tunnel_pool_active demo_pool SessionPlain ''a:1'' = None" "cfgKey demo_pool_fwd = ''a:1''" by code_simp+
  then show ?thesis using pool_dispatch_isolated [OF demo_pool_inv(1) s t] by simp
qed

end
