(* ===== verification/Gateway_Registry.thy ===== *)
theory Gateway_Registry
  imports Gateway_Status Host_Match Session_Pool
begin

text \<open>
  The in-memory registry of \<open>GatewayReconciler\<close> (\<open>controllers/gateway_controller.go\<close>): the
  listeners of each Gateway, the route attached to each, and the calls that keep the
  forwardings of the session pool in step with them. The pool is the argument \<open>P\<close>; the API
  client is absent (\<open>None\<close>) when the reconciler runs without Kubernetes. Each handler runs
  under the registry's lock and is one step here; \<open>Setup_Interleaving\<close> takes the calls of
  \<open>setupRouteForwarding\<close> on the pool apart.
\<close>

section \<open>Forwarding of one listener\<close>

definition isRouteAlreadyAttached :: "Listener \<Rightarrow> string \<Rightarrow> string \<Rightarrow> string \<Rightarrow> int \<Rightarrow> bool" where
  "isRouteAlreadyAttached l routeName routeNamespace backendHost backendPort =
     (case l_route l of
        None \<Rightarrow> False
      | Some r \<Rightarrow> r_Name r = routeName \<and> r_Namespace r = routeNamespace \<and>
                  r_Host r = backendHost \<and> r_Port r = backendPort)"

definition isForwardingValid :: "'p sessionPool \<Rightarrow> 'p \<Rightarrow> Listener \<Rightarrow> bool" where
  "isForwardingValid P p l =
     (let addrs = sp_GetAssignedAddresses P (l_SessionKind l) (l_Hostname l) (l_Port l) p in
      if addrs = [] then False
      else
        let enforcePort = (l_Protocol l = ''TCP'' \<and> l_Port l > 0);
            hostnameWildcard = (l_Hostname l = ''0.0.0.0'' \<or> l_Hostname l = ''localhost'')
        in if hostnameWildcard \<and> \<not> enforcePort then True
           else MatchesRequestedHost addrs (l_Hostname l) (l_Port l) enforcePort)"

text \<open>The configuration with which a forwarding is stopped, and the one with which it is started.\<close>

definition stop_config :: "Listener \<Rightarrow> Route \<Rightarrow> ForwardingConfig" where
  "stop_config l r =
     \<lparr>RemoteHost = l_Hostname l, InternalHost = r_Host r, RemotePort = l_Port l,
      InternalPort = r_Port r, EnforcePort = False\<rparr>"

definition start_config :: "Listener \<Rightarrow> Route \<Rightarrow> ForwardingConfig" where
  "start_config l r =
     \<lparr>RemoteHost = l_Hostname l, InternalHost = r_Host r, RemotePort = l_Port l,
      InternalPort = r_Port r, EnforcePort = (l_Protocol l = ''TCP'' \<and> l_Port l > 0)\<rparr>"

definition handleForwardingError :: "go_error \<Rightarrow> Listener \<Rightarrow> Route \<Rightarrow> go_error option \<times> Listener" where
  "handleForwardingError err l route =
     (if errors_As is_NotReadySSH err then (Some (ErrGatewayNotReady (ErrorText err)), l)
      else if errors_As is_ForwardingExists err then (None, l\<lparr>l_route := Some route\<rparr>)
      else (Some (Wrapf ''failed to start forwarding'' err), l))"

definition setupRouteForwarding ::
  "'p sessionPool \<Rightarrow> 'p \<Rightarrow> Listener \<Rightarrow> string \<Rightarrow> string \<Rightarrow> string \<Rightarrow> int \<Rightarrow> go_error option \<times> 'p \<times> Listener" where
  "setupRouteForwarding P p l routeName routeNamespace backendHost backendPort =
     (let (stopErr, p1) = (case l_route l of
            None \<Rightarrow> (None, p)
          | Some old \<Rightarrow> sp_StopForwarding P (l_SessionKind l) (stop_config l old) p)
      in case stopErr of
           Some err \<Rightarrow> (Some (Wrapf ''failed to stop forwarding'' err), p1, l)
         | None \<Rightarrow>
             (let route = \<lparr>r_Name = routeName, r_Namespace = routeNamespace, r_Host = backendHost, r_Port = backendPort\<rparr>;
                  p2 = (if sp_IsConnected P (l_SessionKind l) p1 then p1 else sp_Connect P p1)
              in if \<not> sp_IsConnected P (l_SessionKind l) p2
                 then (Some (ErrGatewayNotReady ''SSH client not connected''), p2, l)
                 else
                   (let (startErr, p3) = sp_StartForwarding P (l_SessionKind l) (start_config l route) p2
                    in case startErr of
                         Some err \<Rightarrow> (let (e, l') = handleForwardingError err l route in (e, p3, l'))
                       | None \<Rightarrow> (None, p3, l\<lparr>l_route := Some route\<rparr>))))"

section \<open>Routes\<close>

definition SetRoute ::
  "'p sessionPool \<Rightarrow> (string \<Rightarrow> (string \<times> string) option) \<Rightarrow> 'w api_client option \<Rightarrow> int option \<Rightarrow>
     string \<Rightarrow> string \<Rightarrow> string \<Rightarrow> string \<Rightarrow> string \<Rightarrow> string \<Rightarrow> int \<Rightarrow>
     'p GatewayReconciler \<Rightarrow> 'w \<Rightarrow> go_error option \<times> 'p GatewayReconciler \<times> 'w" where
  "SetRoute P url_other client now gwNamespace gwName listenerName routeName routeNamespace backendHost backendPort gr w =
     (let gwKey = getGwKey gwNamespace gwName in
      case mget (gr_gateways gr) gwKey of
        None \<Rightarrow> (Some (ErrGatewayNotFound (''gateway not found: '' @ gwNamespace @ ''/'' @ gwName)), gr, w)
      | Some gw \<Rightarrow>
          (case mget gw listenerName of
             None \<Rightarrow> (Some (Errorf (''listener not found: '' @ listenerName)), gr, w)
           | Some l \<Rightarrow>
               if l_Rejected l
               then (Some (Errorf (''listener '' @ listenerName @ '' is not programmed: '' @ l_Reason l)), gr, w)
               else
                 let attached = isRouteAlreadyAttached l routeName routeNamespace backendHost backendPort in
                 if attached \<and> isForwardingValid P (gr_pool gr) l then (None, gr, w)
                 else
                   let l1 = (if attached then l\<lparr>l_route := None\<rparr> else l);
                       (err, p', l') = setupRouteForwarding P (gr_pool gr) l1 routeName routeNamespace backendHost backendPort;
                       gr' = gr\<lparr>gr_pool := p', gr_gateways := mput gwKey (mput listenerName l' gw) (gr_gateways gr)\<rparr>
                   in case err of
                        Some e \<Rightarrow> (Some e, gr', w)
                      | None \<Rightarrow>
                          (case client of
                             None \<Rightarrow> (None, gr', w)
                           | Some C \<Rightarrow> (None, gr', snd (updateGatewayStatus P url_other C now gr' gwNamespace gwName w)))))"

definition RemoveRoute ::
  "'p sessionPool \<Rightarrow> (string \<Rightarrow> (string \<times> string) option) \<Rightarrow> 'w api_client option \<Rightarrow> int option \<Rightarrow>
     string \<Rightarrow> string \<Rightarrow> string \<Rightarrow> string \<Rightarrow> string \<Rightarrow>
     'p GatewayReconciler \<Rightarrow> 'w \<Rightarrow> go_error option \<times> 'p GatewayReconciler \<times> 'w" where
  "RemoveRoute P url_other client now gwNamespace gwName listenerName routeName routeNamespace gr w =
     (let gwKey = getGwKey gwNamespace gwName;
          routeNotFound = Some (ErrRouteNotFound (''route not found: '' @ routeNamespace @ ''/'' @ routeName)) in
      case mget (gr_gateways gr) gwKey of
        None \<Rightarrow> (Some (ErrGatewayNotFound (''gateway not found: '' @ gwNamespace @ ''/'' @ gwName)), gr, w)
      | Some gw \<Rightarrow>
          (case mget gw listenerName of
             None \<Rightarrow> (routeNotFound, gr, w)
           | Some l \<Rightarrow>
               (case l_route l of
                  None \<Rightarrow> (routeNotFound, gr, w)
                | Some r \<Rightarrow>
                    if r_Name r \<noteq> routeName \<or> r_Namespace r \<noteq> routeNamespace then (routeNotFound, gr, w)
                    else
                      let (err, p') = sp_StopForwarding P (l_SessionKind l) (stop_config l r) (gr_pool gr) in
                      case err of
                        Some e \<Rightarrow> (Some (Wrapf ''failed to stop forwarding'' e), gr\<lparr>gr_pool := p'\<rparr>, w)
                      | None \<Rightarrow>
                          let gr' = gr\<lparr>gr_pool := p', gr_gateways :=
                                mput gwKey (mput listenerName (l\<lparr>l_route := None\<rparr>) gw) (gr_gateways gr)\<rparr>
                          in case client of
                               None \<Rightarrow> (None, gr', w)
                             | Some C \<Rightarrow> (None, gr', snd (updateGatewayStatus P url_other C now gr' gwNamespace gwName w)))))"

section \<open>Gateways\<close>

text \<open>The listeners of a Gateway that is new, in the order of its spec.\<close>

fun new_listeners :: "K8sListener list \<Rightarrow> (string \<Rightarrow> string option) \<Rightarrow> gateway \<Rightarrow> gateway" where
  "new_listeners [] annotations ls = ls"
| "new_listeners (k # ks) annotations ls =
     new_listeners ks annotations (mput (k_Name k) (createListener k annotations) ls)"

text \<open>
  The loop over the listeners of a Gateway that exists: a listener whose port, hostname or
  session kind changed is replaced and its forwarding stopped, on the kind it had.
\<close>

fun update_listeners ::
  "'p sessionPool \<Rightarrow> gateway \<Rightarrow> K8sListener list \<Rightarrow> (string \<Rightarrow> string option) \<Rightarrow> gateway \<Rightarrow> 'p \<Rightarrow> gateway \<times> 'p" where
  "update_listeners P existingListeners [] annotations updated p = (updated, p)"
| "update_listeners P existingListeners (k # ks) annotations updated p =
     (let listener = createListener k annotations in
      case mget existingListeners (k_Name k) of
        None \<Rightarrow> update_listeners P existingListeners ks annotations (mput (k_Name k) listener updated) p
      | Some existing \<Rightarrow>
          if l_Port existing \<noteq> l_Port listener \<or> l_Hostname existing \<noteq> l_Hostname listener \<or>
             l_SessionKind existing \<noteq> l_SessionKind listener
          then update_listeners P existingListeners ks annotations (mput (k_Name k) listener updated)
                 (case l_route existing of
                    None \<Rightarrow> p
                  | Some r \<Rightarrow> snd (sp_StopForwarding P (l_SessionKind existing) (stop_config existing r) p))
          else update_listeners P existingListeners ks annotations (mput (k_Name k) existing updated) p)"

definition handleAddOrUpdateGateway ::
  "'p sessionPool \<Rightarrow> Gateway \<Rightarrow> 'p GatewayReconciler \<Rightarrow> 'p GatewayReconciler" where
  "handleAddOrUpdateGateway P k8sGw gr =
     (let gwKey = getGwKey (Namespace (gw_Meta k8sGw)) (Name (gw_Meta k8sGw));
          annotations = Annotations (gw_Meta k8sGw) in
      case mget (gr_gateways gr) gwKey of
        None \<Rightarrow> gr\<lparr>gr_gateways := mput gwKey (new_listeners (gw_Listeners k8sGw) annotations []) (gr_gateways gr)\<rparr>
      | Some gw \<Rightarrow>
          (let (updated, p') = update_listeners P gw (gw_Listeners k8sGw) annotations [] (gr_pool gr)
           in gr\<lparr>gr_pool := p', gr_gateways := mput gwKey updated (gr_gateways gr)\<rparr>))"

fun stop_listeners :: "'p sessionPool \<Rightarrow> gateway \<Rightarrow> 'p \<Rightarrow> 'p" where
  "stop_listeners P [] p = p"
| "stop_listeners P ((name, l) # ls) p =
     stop_listeners P ls
       (case l_route l of
          None \<Rightarrow> p
        | Some r \<Rightarrow> snd (sp_StopForwarding P (l_SessionKind l) (stop_config l r) p))"

definition handleDeleteGateway :: "'p sessionPool \<Rightarrow> Gateway \<Rightarrow> 'p GatewayReconciler \<Rightarrow> 'p GatewayReconciler" where
  "handleDeleteGateway P k8sGw gr =
     (let gwKey = getGwKey (Namespace (gw_Meta k8sGw)) (Name (gw_Meta k8sGw)) in
      case mget (gr_gateways gr) gwKey of
        None \<Rightarrow> gr
      | Some gw \<Rightarrow> gr\<lparr>gr_pool := stop_listeners P gw (gr_pool gr), gr_gateways := mdel gwKey (gr_gateways gr)\<rparr>)"

section \<open>Sessions\<close>

definition reconnectRequiredSessions :: "'p sessionPool \<Rightarrow> ClassSessionConfig \<Rightarrow> 'p \<Rightarrow> bool \<times> 'p" where
  "reconnectRequiredSessions P sessions p =
     (let required = requiredSessionKinds sessions in
      if list_all (\<lambda>kind. sp_IsConnected P kind p) required then (True, p)
      else (let p' = sp_Connect P p in (list_all (\<lambda>kind. sp_IsConnected P kind p') required, p')))"

definition ensurePlainSSHSessionConnected :: "'p sessionPool \<Rightarrow> 'p \<Rightarrow> bool \<times> 'p" where
  "ensurePlainSSHSessionConnected P p =
     (if sp_IsConnected P SessionPlain p then (True, p)
      else (let p' = sp_Connect P p in (sp_IsConnected P SessionPlain p', p')))"

section \<open>Lemmas over the contract of the pool\<close>

abbreviation listener_key :: "Listener \<Rightarrow> string" where
  "listener_key l \<equiv> forwardingKey (l_Hostname l) (l_Port l)"

lemma config_keys [simp]:
  "cfgKey (stop_config l r) = listener_key l" "cfgKey (start_config l r) = listener_key l"
  by (simp_all add: stop_config_def start_config_def)

lemma config_hosts [simp]:
  "RemoteHost (stop_config l r) = l_Hostname l" "RemotePort (stop_config l r) = l_Port l"
  "RemoteHost (start_config l r) = l_Hostname l" "RemotePort (start_config l r) = l_Port l"
  by (simp_all add: stop_config_def start_config_def)

lemma start_config_route [simp]: "start_config (l\<lparr>l_route := x\<rparr>) r = start_config l r"
  by (simp add: start_config_def)

lemma isRouteAlreadyAttached_iff:
  "isRouteAlreadyAttached l n ns h p \<longleftrightarrow>
     l_route l = Some \<lparr>r_Name = n, r_Namespace = ns, r_Host = h, r_Port = p\<rparr>"
  by (cases "l_route l") (auto simp: isRouteAlreadyAttached_def)

text \<open>The table of forwardings after a number of stops.\<close>

definition without :: "(SessionKind \<Rightarrow> string \<Rightarrow> ForwardingConfig option) \<Rightarrow> (SessionKind \<times> string) set \<Rightarrow>
    SessionKind \<Rightarrow> string \<Rightarrow> ForwardingConfig option" where
  "without act ks = (\<lambda>kind key. if (kind, key) \<in> ks then None else act kind key)"

lemma without_empty [simp]: "without act {} = act"
  by (simp add: without_def)

lemma without_without [simp]: "without (without act ks) ks' = without act (ks \<union> ks')"
  by (auto simp: without_def fun_eq_iff)

lemma without_insert: "without act {(kind, key)} = act(kind := (act kind)(key := None))"
  by (auto simp: without_def fun_eq_iff)

text \<open>The forwardings that a stop of all attached listeners is for.\<close>

definition attached_keys :: "gateway \<Rightarrow> (SessionKind \<times> string) set" where
  "attached_keys ls = {(l_SessionKind l, listener_key l) | name l. (name, l) \<in> set ls \<and> l_route l \<noteq> None}"

lemma attached_keys_Nil [simp]: "attached_keys [] = {}"
  by (simp add: attached_keys_def)

lemma attached_keys_Cons [simp]:
  "attached_keys ((name, l) # ls) =
     (if l_route l = None then {} else {(l_SessionKind l, listener_key l)}) \<union> attached_keys ls"
  by (auto simp: attached_keys_def)

text \<open>The part of \<open>setupRouteForwarding\<close> behind the stop: reconnect when needed, then start.\<close>

definition start_route :: "'p sessionPool \<Rightarrow> 'p \<Rightarrow> Listener \<Rightarrow> Route \<Rightarrow> go_error option \<times> 'p \<times> Listener" where
  "start_route P p l route =
     (let p2 = (if sp_IsConnected P (l_SessionKind l) p then p else sp_Connect P p)
      in if \<not> sp_IsConnected P (l_SessionKind l) p2
         then (Some (ErrGatewayNotReady ''SSH client not connected''), p2, l)
         else let (err, p3) = sp_StartForwarding P (l_SessionKind l) (start_config l route) p2
              in case err of
                   None \<Rightarrow> (None, p3, l\<lparr>l_route := Some route\<rparr>)
                 | Some e \<Rightarrow> let (err', l') = handleForwardingError e l route in (err', p3, l'))"

lemma setupRouteForwarding_split:
  "setupRouteForwarding P p l n ns h port =
     (let (stopErr, p1) = (case l_route l of None \<Rightarrow> (None, p)
        | Some old \<Rightarrow> sp_StopForwarding P (l_SessionKind l) (stop_config l old) p)
      in case stopErr of
           Some err \<Rightarrow> (Some (Wrapf ''failed to stop forwarding'' err), p1, l)
         | None \<Rightarrow> start_route P p1 l \<lparr>r_Name = n, r_Namespace = ns, r_Host = h, r_Port = port\<rparr>)"
  by (simp add: setupRouteForwarding_def start_route_def Let_def split_beta cong: option.case_cong)

context session_pool
begin

lemma stop_without:
  "inv p \<Longrightarrow> sp_StopForwarding P kind cfg p = (e, p') \<Longrightarrow>
     inv p' \<and> active p' = without (active p) {(kind, cfgKey cfg)}"
  using stop_inv stop_active by (simp add: without_insert)

lemma stop_snd_without:
  "inv p \<Longrightarrow> inv (snd (sp_StopForwarding P kind cfg p)) \<and>
     active (snd (sp_StopForwarding P kind cfg p)) = without (active p) {(kind, cfgKey cfg)}"
  using stop_without [of p kind cfg] by (metis prod.collapse)

lemma stop_listeners_state:
  "inv p \<Longrightarrow> inv (stop_listeners P ls p) \<and> active (stop_listeners P ls p) = without (active p) (attached_keys ls)"
proof (induction ls arbitrary: p)
  case Nil
  then show ?case by simp
next
  case (Cons e ls)
  obtain name l where e: "e = (name, l)" by (metis prod.collapse)
  show ?case
  proof (cases "l_route l")
    case None
    with Cons e show ?thesis by simp
  next
    case (Some r)
    let ?p = "snd (sp_StopForwarding P (l_SessionKind l) (stop_config l r) p)"
    have s: "inv ?p" "active ?p = without (active p) {(l_SessionKind l, listener_key l)}"
      using stop_snd_without [OF Cons(2), of "l_SessionKind l" "stop_config l r"] by simp_all
    show ?thesis using Cons(1) [OF s(1)] s(2) Some e by simp
  qed
qed

text \<open>All outcomes of setting up a forwarding.\<close>

lemma start_route_cases:
  assumes i: "inv p" and r: "start_route P p l route = (e, p', l')"
  obtains
    (not_ready) msg where "e = Some (ErrGatewayNotReady msg)" "l' = l" "inv p'" "active p' = active p"
  | (failed) err where "e = Some (Wrapf ''failed to start forwarding'' err)" "l' = l" "inv p'" "active p' = active p"
  | (adopted) held where "e = None" "l' = l\<lparr>l_route := Some route\<rparr>" "inv p'" "active p' = active p"
      "active p (l_SessionKind l) (listener_key l) = Some held"
  | (started) "e = None" "l' = l\<lparr>l_route := Some route\<rparr>" "inv p'"
      "active p' = (active p)(l_SessionKind l := (active p (l_SessionKind l))(listener_key l \<mapsto> start_config l route))"
proof -
  let ?K = "l_SessionKind l"
  define p2 where "p2 = (if sp_IsConnected P ?K p then p else sp_Connect P p)"
  have p2: "inv p2" "active p2 = active p" using i connect_inv connect_active by (auto simp: p2_def)
  obtain sf p3 where sf: "sp_StartForwarding P ?K (start_config l route) p2 = (sf, p3)" by (metis prod.collapse)
  note p3 = start_inv [OF p2(1) sf]
  note a3 = start_active [OF p2(1) sf, unfolded p2(2)]
  have run: "(e, p', l') =
     (if \<not> sp_IsConnected P ?K p2 then (Some (ErrGatewayNotReady ''SSH client not connected''), p2, l)
      else case sf of
             Some err \<Rightarrow> (fst (handleForwardingError err l route), p3, snd (handleForwardingError err l route))
           | None \<Rightarrow> (None, p3, l\<lparr>l_route := Some route\<rparr>))"
    unfolding r [symmetric] start_route_def
    by (simp add: Let_def p2_def [symmetric] sf split_beta split: option.splits)
  consider "\<not> sp_IsConnected P ?K p2" | "sp_IsConnected P ?K p2" "sf = None"
    | err where "sp_IsConnected P ?K p2" "sf = Some err" "errors_As is_NotReadySSH err"
    | err where "sp_IsConnected P ?K p2" "sf = Some err" "\<not> errors_As is_NotReadySSH err" "errors_As is_ForwardingExists err"
    | err where "sp_IsConnected P ?K p2" "sf = Some err" "\<not> errors_As is_NotReadySSH err" "\<not> errors_As is_ForwardingExists err"
    by (cases sf) blast+
  then show thesis
  proof cases
    case (4 err)
    then obtain held where "active p ?K (listener_key l) = Some held"
      using start_exists_only [OF p2(1) sf [unfolded 4(2)] 4(4)] p2(2) by auto
    with 4 run p3 a3 adopted show ?thesis by (simp add: handleForwardingError_def)
  qed (use run p2 p3 a3 not_ready failed started in \<open>auto simp: handleForwardingError_def\<close>)
qed

lemma setupRouteForwarding_cases:
  assumes i: "inv p" and r: "setupRouteForwarding P p l n ns h port = (e, p', l')"
  obtains
    (stop_failed) err where "e = Some (Wrapf ''failed to stop forwarding'' err)" "l' = l" "l_route l \<noteq> None"
      "inv p'" "active p' = without (active p) {(l_SessionKind l, listener_key l)}"
  | (not_ready) msg where "e = Some (ErrGatewayNotReady msg)" "l' = l" "inv p'"
      "active p' = (if l_route l = None then active p else without (active p) {(l_SessionKind l, listener_key l)})"
  | (start_failed) err where "e = Some (Wrapf ''failed to start forwarding'' err)" "l' = l" "inv p'"
      "active p' = (if l_route l = None then active p else without (active p) {(l_SessionKind l, listener_key l)})"
  | (adopted) held where "e = None" "l' = l\<lparr>l_route := Some \<lparr>r_Name = n, r_Namespace = ns, r_Host = h, r_Port = port\<rparr>\<rparr>"
      "l_route l = None" "inv p'" "active p' = active p" "active p (l_SessionKind l) (listener_key l) = Some held"
  | (started) "e = None" "l' = l\<lparr>l_route := Some \<lparr>r_Name = n, r_Namespace = ns, r_Host = h, r_Port = port\<rparr>\<rparr>"
      "inv p'" "active p' = (active p)(l_SessionKind l := (active p (l_SessionKind l))
         (listener_key l \<mapsto> start_config l \<lparr>r_Name = n, r_Namespace = ns, r_Host = h, r_Port = port\<rparr>))"
proof -
  let ?K = "l_SessionKind l" and ?key = "listener_key l"
  let ?route = "\<lparr>r_Name = n, r_Namespace = ns, r_Host = h, r_Port = port\<rparr>"
  define A where "A = (if l_route l = None then active p else without (active p) {(?K, ?key)})"
  define stop where "stop = (case l_route l of None \<Rightarrow> (None, p)
      | Some old \<Rightarrow> sp_StopForwarding P ?K (stop_config l old) p)"
  obtain se p1 where st: "stop = (se, p1)" by (metis prod.collapse)
  have p1: "inv p1" "active p1 = A" "l_route l = None \<Longrightarrow> se = None"
    using st i stop_without [of p ?K _ se p1] by (auto simp: stop_def A_def split: option.splits)
  note run = r [unfolded setupRouteForwarding_split stop_def [symmetric] st Let_def prod.case]
  show thesis
  proof (cases se)
    case (Some err)
    with run have "e = Some (Wrapf ''failed to stop forwarding'' err)" "p' = p1" "l' = l" by auto
    moreover have "l_route l \<noteq> None" using p1(3) Some by auto
    ultimately show ?thesis using p1(1,2) by (intro stop_failed [of err]) (auto simp: A_def)
  next
    case None
    with run have "start_route P p1 l ?route = (e, p', l')" by simp
    with p1(1) show ?thesis
    proof (cases rule: start_route_cases)
      case (adopted held)
      then have "l_route l = None" using p1(2) by (auto simp: A_def without_def split: if_splits)
      with adopted p1(2) that(4) [of held] show ?thesis by (simp add: A_def)
    next
      case started
      have "A(?K := (A ?K)(?key \<mapsto> start_config l ?route)) = (active p)(?K := (active p ?K)(?key \<mapsto> start_config l ?route))"
        by (auto simp: A_def without_def fun_eq_iff)
      with started p1(2) that(5) show ?thesis by simp
    qed (use p1(2) that(2,3) in \<open>auto simp: A_def\<close>)
  qed
qed

lemma SetRoute_cases:
  assumes "SetRoute P uo client now gns gn lis n ns h port gr w = (e, gr', w')"
  obtains
    (refused) "e \<noteq> None" "gr' = gr" "w' = w"
      "mget (gr_gateways gr) (getGwKey gns gn) = None \<or>
       (\<exists>gw. mget (gr_gateways gr) (getGwKey gns gn) = Some gw \<and> (\<forall>l. mget gw lis = Some l \<longrightarrow> l_Rejected l))"
  | (already) gw l where "e = None" "gr' = gr" "w' = w"
      "mget (gr_gateways gr) (getGwKey gns gn) = Some gw" "mget gw lis = Some l" "\<not> l_Rejected l"
      "l_route l = Some \<lparr>r_Name = n, r_Namespace = ns, r_Host = h, r_Port = port\<rparr>"
      "isForwardingValid P (gr_pool gr) l"
  | (attempted) gw l p' l' where
      "mget (gr_gateways gr) (getGwKey gns gn) = Some gw" "mget gw lis = Some l" "\<not> l_Rejected l"
      "setupRouteForwarding P (gr_pool gr)
         (if l_route l = Some \<lparr>r_Name = n, r_Namespace = ns, r_Host = h, r_Port = port\<rparr>
          then l\<lparr>l_route := None\<rparr> else l) n ns h port = (e, p', l')"
      "gr' = gr\<lparr>gr_pool := p', gr_gateways := mput (getGwKey gns gn) (mput lis l' gw) (gr_gateways gr)\<rparr>"
      "e \<noteq> None \<longrightarrow> w' = w"
proof (cases "mget (gr_gateways gr) (getGwKey gns gn)")
  case None
  with assms refused show ?thesis by (auto simp: SetRoute_def)
next
  case gw: (Some gw)
  show ?thesis
  proof (cases "mget gw lis")
    case None
    with assms gw refused show ?thesis by (auto simp: SetRoute_def)
  next
    case l: (Some l)
    let ?r = "\<lparr>r_Name = n, r_Namespace = ns, r_Host = h, r_Port = port\<rparr>"
    consider "l_Rejected l" | "\<not> l_Rejected l" "l_route l = Some ?r" "isForwardingValid P (gr_pool gr) l"
      | "\<not> l_Rejected l" "\<not> (l_route l = Some ?r \<and> isForwardingValid P (gr_pool gr) l)" by blast
    then show ?thesis
    proof cases
      case 1
      with assms gw l refused show ?thesis by (auto simp: SetRoute_def)
    next
      case 2
      with assms gw l already show ?thesis by (auto simp: SetRoute_def isRouteAlreadyAttached_iff)
    next
      case 3
      obtain e1 p1 l1 where s: "setupRouteForwarding P (gr_pool gr)
         (if l_route l = Some ?r then l\<lparr>l_route := None\<rparr> else l) n ns h port = (e1, p1, l1)"
        by (metis prod_cases3)
      let ?gr1 = "gr\<lparr>gr_pool := p1, gr_gateways := mput (getGwKey gns gn) (mput lis l1 gw) (gr_gateways gr)\<rparr>"
      have "(e, gr', w') = (e1, ?gr1,
          case (e1, client) of (None, Some C) \<Rightarrow> snd (updateGatewayStatus P uo C now ?gr1 gns gn w) | _ \<Rightarrow> w)"
        unfolding assms [symmetric] using gw l 3 s
        by (auto simp: SetRoute_def isRouteAlreadyAttached_iff Let_def split: option.splits)
      with gw l 3(1) s attempted [of gw l p1 l1] show ?thesis by (auto split: option.splits)
    qed
  qed
qed

lemma isForwardingValid_held:
  "inv p \<Longrightarrow> isForwardingValid P p l \<Longrightarrow> active p (l_SessionKind l) (listener_key l) \<noteq> None"
  using addrs_active [of p "l_SessionKind l" "l_Hostname l" "l_Port l"]
  by (auto simp: isForwardingValid_def Let_def split: if_splits)

lemma SetRoute_serves:
  assumes i: "inv (gr_pool gr)" and r: "SetRoute P uo client now gns gn lis n ns h port gr w = (None, gr', w')"
  defines "route \<equiv> \<lparr>r_Name = n, r_Namespace = ns, r_Host = h, r_Port = port\<rparr>"
  shows "\<exists>gw gw' l held. mget (gr_gateways gr) (getGwKey gns gn) = Some gw \<and> mget gw lis = Some l \<and> \<not> l_Rejected l \<and>
     mget (gr_gateways gr') (getGwKey gns gn) = Some gw' \<and> mget gw' lis = Some (l\<lparr>l_route := Some route\<rparr>) \<and>
     active (gr_pool gr') (l_SessionKind l) (listener_key l) = Some held \<and>
     (held = start_config l route \<or>
      l_route l \<in> {None, Some route} \<and> active (gr_pool gr) (l_SessionKind l) (listener_key l) = Some held)"
  using r
proof (cases rule: SetRoute_cases)
  case refused
  then show ?thesis by simp
next
  case (already gw l)
  then obtain held where "active (gr_pool gr) (l_SessionKind l) (listener_key l) = Some held"
    using isForwardingValid_held [OF i already(8)] by auto
  with already show ?thesis unfolding route_def by auto
next
  case (attempted gw l p' l')
  let ?l1 = "if l_route l = Some route then l\<lparr>l_route := None\<rparr> else l"
  have l1: "l_SessionKind ?l1 = l_SessionKind l" "listener_key ?l1 = listener_key l"
      "?l1\<lparr>l_route := Some route\<rparr> = l\<lparr>l_route := Some route\<rparr>" "start_config ?l1 route = start_config l route"
      "l_route ?l1 = None \<Longrightarrow> l_route l \<in> {None, Some route}" by auto
  from i attempted(4) [folded route_def] show ?thesis
  proof (cases rule: setupRouteForwarding_cases)
    case (adopted held)
    with attempted(1-3,5) l1 show ?thesis unfolding route_def [symmetric] by auto
  next
    case started
    with attempted(1-3,5) l1 show ?thesis unfolding route_def [symmetric] by auto
  qed simp_all
qed

text \<open>Whatever the outcome, only the one listener and the one forwarding are touched.\<close>

lemma SetRoute_frame:
  assumes i: "inv (gr_pool gr)" and r: "SetRoute P uo client now gns gn lis n ns h port gr w = (e, gr', w')"
  shows "inv (gr_pool gr') \<and>
     (\<forall>key. key \<noteq> getGwKey gns gn \<longrightarrow> mget (gr_gateways gr') key = mget (gr_gateways gr) key) \<and>
     (\<forall>gw. mget (gr_gateways gr) (getGwKey gns gn) = Some gw \<longrightarrow>
        (\<exists>gw'. mget (gr_gateways gr') (getGwKey gns gn) = Some gw' \<and>
           (\<forall>name. name \<noteq> lis \<longrightarrow> mget gw' name = mget gw name) \<and>
           (\<forall>kind key. (\<forall>l. mget gw lis = Some l \<longrightarrow> (kind, key) \<noteq> (l_SessionKind l, listener_key l)) \<longrightarrow>
              active (gr_pool gr') kind key = active (gr_pool gr) kind key) \<and>
           (\<forall>l. mget gw lis = Some l \<longrightarrow>
              active (gr_pool gr') (l_SessionKind l) (listener_key l) = active (gr_pool gr) (l_SessionKind l) (listener_key l) \<or>
              active (gr_pool gr') (l_SessionKind l) (listener_key l) =
                (if e = None then Some (start_config l \<lparr>r_Name = n, r_Namespace = ns, r_Host = h, r_Port = port\<rparr>) else None)) \<and>
           (e \<noteq> None \<longrightarrow> w' = w \<and> (\<forall>l. mget gw lis = Some l \<longrightarrow>
              mget gw' lis = Some l \<or> l_route l = Some \<lparr>r_Name = n, r_Namespace = ns, r_Host = h, r_Port = port\<rparr> \<and>
                mget gw' lis = Some (l\<lparr>l_route := None\<rparr>)))))"
  using r
proof (cases rule: SetRoute_cases)
  case refused
  with i show ?thesis by auto
next
  case (already gw l)
  with i show ?thesis by auto
next
  case (attempted gw l p' l')
  let ?l1 = "if l_route l = Some \<lparr>r_Name = n, r_Namespace = ns, r_Host = h, r_Port = port\<rparr> then l\<lparr>l_route := None\<rparr> else l"
  let ?route = "\<lparr>r_Name = n, r_Namespace = ns, r_Host = h, r_Port = port\<rparr>"
  let ?held = "\<lambda>p. active p (l_SessionKind l) (listener_key l)"
  have same: "l_SessionKind ?l1 = l_SessionKind l" "listener_key ?l1 = listener_key l"
      "start_config ?l1 ?route = start_config l ?route" by auto
  have p': "inv p'" and frame: "\<And>kind key. (kind, key) \<noteq> (l_SessionKind l, listener_key l) \<Longrightarrow>
      active p' kind key = active (gr_pool gr) kind key"
    and l': "e \<noteq> None \<Longrightarrow> l' = ?l1"
    and own: "?held p' = ?held (gr_pool gr) \<or> ?held p' = (if e = None then Some (start_config l ?route) else None)"
    using i attempted(4) by (cases rule: setupRouteForwarding_cases; auto simp: without_def same split: if_splits)+
  moreover have "mget (gr_gateways gr') (getGwKey gns gn) = Some (mput lis l' gw)"
      "key \<noteq> getGwKey gns gn \<Longrightarrow> mget (gr_gateways gr') key = mget (gr_gateways gr) key" "gr_pool gr' = p'" for key
    using attempted(5) by simp_all
  ultimately show ?thesis
    using attempted(1,2,6) p' frame l' own
    by (intro conjI allI impI exI [of _ "mput lis l' gw"]) (simp_all split: if_splits)
qed

text \<open>Removing a route.\<close>

lemma RemoveRoute_cases:
  assumes i: "inv (gr_pool gr)" and r: "RemoveRoute P uo client now gns gn lis n ns gr w = (e, gr', w')"
  obtains
    (absent) "e \<noteq> None" "errors_As is_GatewayNotFound (the e) \<or> errors_As is_RouteNotFound (the e)" "gr' = gr" "w' = w"
      "\<not> (\<exists>gw l r. mget (gr_gateways gr) (getGwKey gns gn) = Some gw \<and> mget gw lis = Some l \<and>
          l_route l = Some r \<and> r_Name r = n \<and> r_Namespace r = ns)"
  | (stop_failed) gw l r err where "e = Some (Wrapf ''failed to stop forwarding'' err)" "w' = w"
      "mget (gr_gateways gr) (getGwKey gns gn) = Some gw" "mget gw lis = Some l" "l_route l = Some r"
      "r_Name r = n" "r_Namespace r = ns" "gr_gateways gr' = gr_gateways gr" "inv (gr_pool gr')"
      "sp_StopForwarding P (l_SessionKind l) (stop_config l r) (gr_pool gr) = (Some err, gr_pool gr')"
      "active (gr_pool gr') = without (active (gr_pool gr)) {(l_SessionKind l, listener_key l)}"
  | (removed) gw l r where "e = None"
      "mget (gr_gateways gr) (getGwKey gns gn) = Some gw" "mget gw lis = Some l" "l_route l = Some r"
      "r_Name r = n" "r_Namespace r = ns"
      "gr_gateways gr' = mput (getGwKey gns gn) (mput lis (l\<lparr>l_route := None\<rparr>) gw) (gr_gateways gr)" "inv (gr_pool gr')"
      "sp_StopForwarding P (l_SessionKind l) (stop_config l r) (gr_pool gr) = (None, gr_pool gr')"
      "active (gr_pool gr') = without (active (gr_pool gr)) {(l_SessionKind l, listener_key l)}"
proof (cases "\<exists>gw l r. mget (gr_gateways gr) (getGwKey gns gn) = Some gw \<and> mget gw lis = Some l \<and>
          l_route l = Some r \<and> r_Name r = n \<and> r_Namespace r = ns")
  case False
  with r absent show ?thesis
    by (auto simp: RemoveRoute_def Let_def split: option.splits)
next
  case True
  then obtain gw l rt where f: "mget (gr_gateways gr) (getGwKey gns gn) = Some gw" "mget gw lis = Some l"
    "l_route l = Some rt" "r_Name rt = n" "r_Namespace rt = ns" by blast
  obtain se p1 where st: "sp_StopForwarding P (l_SessionKind l) (stop_config l rt) (gr_pool gr) = (se, p1)"
    by (metis prod.collapse)
  note w1 = stop_without [OF i st]
  show ?thesis
  proof (cases se)
    case (Some err)
    with r f st have "e = Some (Wrapf ''failed to stop forwarding'' err)" "gr' = gr\<lparr>gr_pool := p1\<rparr>" "w' = w"
      by (auto simp: RemoveRoute_def Let_def)
    with Some f st w1 stop_failed [of err gw l rt] show ?thesis by simp
  next
    case None
    with r f st have "e = None" "gr' = gr\<lparr>gr_pool := p1, gr_gateways :=
        mput (getGwKey gns gn) (mput lis (l\<lparr>l_route := None\<rparr>) gw) (gr_gateways gr)\<rparr>"
      by (auto simp: RemoveRoute_def Let_def split: option.splits)
    with None f st w1 removed [of gw l rt] show ?thesis by simp
  qed
qed

text \<open>
  Once the session holds no forwarding for a listener that still has a route, stopping it
  fails, and so do replacing the route and removing it; and nothing changes, so they fail again.
\<close>

lemma lost_forwarding_stuck:
  assumes i: "inv (gr_pool gr)" and on: "sp_IsConnected P (l_SessionKind l) (gr_pool gr)"
    and f: "mget (gr_gateways gr) (getGwKey gns gn) = Some gw" "mget gw lis = Some l" "l_route l = Some old"
    and lost: "active (gr_pool gr) (l_SessionKind l) (listener_key l) = None"
    and ok: "gomap_ok (gr_gateways gr)" "gomap_ok gw" "\<not> l_Rejected l"
  shows "old \<noteq> \<lparr>r_Name = n, r_Namespace = ns, r_Host = h, r_Port = port\<rparr> \<Longrightarrow>
      SetRoute P uo client now gns gn lis n ns h port gr w =
        (Some (Wrapf ''failed to stop forwarding'' (ErrSSHForwardingNotFound (listener_key l))), gr, w)"
    and "RemoveRoute P uo client now gns gn lis (r_Name old) (r_Namespace old) gr w =
        (Some (Wrapf ''failed to stop forwarding'' (ErrSSHForwardingNotFound (listener_key l))), gr, w)"
proof -
  have st: "sp_StopForwarding P (l_SessionKind l) (stop_config l old) (gr_pool gr) =
      (Some (ErrSSHForwardingNotFound (listener_key l)), gr_pool gr)"
    using stop_missing [OF i on, of "stop_config l old"] lost by simp
  have same: "mput lis l gw = gw" "mput (getGwKey gns gn) gw (gr_gateways gr) = gr_gateways gr"
    using f by (simp_all add: mput_same)
  show "RemoveRoute P uo client now gns gn lis (r_Name old) (r_Namespace old) gr w =
        (Some (Wrapf ''failed to stop forwarding'' (ErrSSHForwardingNotFound (listener_key l))), gr, w)"
    using f st by (simp add: RemoveRoute_def Let_def)
  assume "old \<noteq> \<lparr>r_Name = n, r_Namespace = ns, r_Host = h, r_Port = port\<rparr>"
  then have na: "\<not> isRouteAlreadyAttached l n ns h port" using f(3) by (simp add: isRouteAlreadyAttached_iff)
  have su: "setupRouteForwarding P (gr_pool gr) l n ns h port =
      (Some (Wrapf ''failed to stop forwarding'' (ErrSSHForwardingNotFound (listener_key l))), gr_pool gr, l)"
    using f(3) st by (simp add: setupRouteForwarding_def)
  show "SetRoute P uo client now gns gn lis n ns h port gr w =
        (Some (Wrapf ''failed to stop forwarding'' (ErrSSHForwardingNotFound (listener_key l))), gr, w)"
    using f na su ok(3) same by (simp add: SetRoute_def Let_def)
qed

end

section \<open>The listeners after an update\<close>

definition listener_changed :: "Listener \<Rightarrow> Listener \<Rightarrow> bool" where
  "listener_changed old new \<longleftrightarrow>
     l_Port old \<noteq> l_Port new \<or> l_Hostname old \<noteq> l_Hostname new \<or> l_SessionKind old \<noteq> l_SessionKind new"

definition next_listener :: "gateway \<Rightarrow> (string \<Rightarrow> string option) \<Rightarrow> K8sListener \<Rightarrow> Listener" where
  "next_listener ex ann k =
     (case mget ex (k_Name k) of
        None \<Rightarrow> createListener k ann
      | Some l \<Rightarrow> if listener_changed l (createListener k ann) then createListener k ann else l)"

definition changed_keys :: "gateway \<Rightarrow> (string \<Rightarrow> string option) \<Rightarrow> K8sListener list \<Rightarrow> (SessionKind \<times> string) set" where
  "changed_keys ex ann ks =
     {(l_SessionKind l, listener_key l) | k l. k \<in> set ks \<and> mget ex (k_Name k) = Some l \<and>
        listener_changed l (createListener k ann) \<and> l_route l \<noteq> None}"

lemma changed_keys_Cons:
  "changed_keys ex ann (k # ks) =
     (case mget ex (k_Name k) of
        None \<Rightarrow> {}
      | Some l \<Rightarrow> if listener_changed l (createListener k ann) \<and> l_route l \<noteq> None
                  then {(l_SessionKind l, listener_key l)} else {}) \<union> changed_keys ex ann ks"
  by (auto simp: changed_keys_def split: option.splits)

lemma changed_keys_Nil [simp]: "changed_keys ex ann [] = {}"
  by (simp add: changed_keys_def)

lemma update_listeners_fst:
  "fst (update_listeners P ex ks ann upd p) =
     foldl (\<lambda>u k. mput (k_Name k) (next_listener ex ann k) u) upd ks"
  by (induction P ex ks ann upd p rule: update_listeners.induct)
    (auto simp: next_listener_def listener_changed_def Let_def split: option.splits)

lemma foldl_mput_other:
  "n \<notin> key ` set ks \<Longrightarrow> mget (foldl (\<lambda>u k. mput (key k) (val k) u) upd ks) n = mget upd n"
  by (induction ks arbitrary: upd) auto

lemma foldl_mput_get:
  "distinct (map key ks) \<Longrightarrow> k \<in> set ks \<Longrightarrow>
   mget (foldl (\<lambda>u k. mput (key k) (val k) u) upd ks) (key k) = Some (val k)"
proof (induction ks arbitrary: upd)
  case Nil
  then show ?case by simp
next
  case (Cons x ks)
  then show ?case
    using foldl_mput_other [of "key x" key ks val "mput (key x) (val x) upd"] by auto
qed

lemma foldl_mput_values:
  "mget (foldl (\<lambda>u k. mput (key k) (val k) u) upd ks) n = Some v \<Longrightarrow>
   mget upd n = Some v \<or> (\<exists>k \<in> set ks. key k = n \<and> v = val k)"
  by (induction ks arbitrary: upd) (fastforce split: if_splits)+

lemma new_listeners_foldl:
  "new_listeners ks ann ls = foldl (\<lambda>u k. mput (k_Name k) (createListener k ann) u) ls ks"
  by (induction ks ann ls rule: new_listeners.induct) simp_all

context session_pool
begin

lemma update_listeners_pool:
  "inv p \<Longrightarrow> inv (snd (update_listeners P ex ks ann upd p)) \<and>
     active (snd (update_listeners P ex ks ann upd p)) = without (active p) (changed_keys ex ann ks)"
proof (induction ks arbitrary: upd p)
  case Nil
  then show ?case by simp
next
  case (Cons k ks)
  show ?case
  proof (cases "mget ex (k_Name k)")
    case None
    with Cons show ?thesis by (simp add: changed_keys_Cons)
  next
    case ex: (Some l)
    show ?thesis
    proof (cases "listener_changed l (createListener k ann)")
      case False
      with Cons ex show ?thesis by (simp add: changed_keys_Cons listener_changed_def)
    next
      case True
      define q where "q = (case l_route l of None \<Rightarrow> p
        | Some r \<Rightarrow> snd (sp_StopForwarding P (l_SessionKind l) (stop_config l r) p))"
      have q: "inv q" "active q = without (active p) (if l_route l = None then {} else {(l_SessionKind l, listener_key l)})"
        using Cons(2) stop_snd_without [OF Cons(2), of "l_SessionKind l"]
        by (auto simp: q_def split: option.splits)
      have "update_listeners P ex (k # ks) ann upd p =
          update_listeners P ex ks ann (mput (k_Name k) (createListener k ann) upd) q"
        using ex True by (simp add: listener_changed_def q_def)
      with Cons(1) [OF q(1)] q(2) ex True show ?thesis by (auto simp: changed_keys_Cons)
    qed
  qed
qed

end

end
