(* ===== verification/Registry_Runs.thy ===== *)
theory Registry_Runs
  imports Gateway_Registry
begin

text \<open>
  The properties of the registry on the production pool (\<open>tunnel_pool_ops\<close>, the pool of
  tunnel managers), and the invariants over all sequences of its operations, interleaved with
  whatever the SSH server and the API do.
\<close>

section \<open>Runs of the registry\<close>

text \<open>
  One step of the reconcilers on the registry, or of the world on the pool: a step \<open>Outside\<close>
  replaces the pool by any other well-formed pool, as when a connection is lost or restored.
\<close>

type_synonym ('p, 'w) reg_state = "'p GatewayReconciler \<times> 'w"

inductive reg_step ::
  "'p sessionPool \<Rightarrow> ('p \<Rightarrow> bool) \<Rightarrow> (string \<Rightarrow> (string \<times> string) option) \<Rightarrow> 'w api_client option \<Rightarrow>
     ('p, 'w) reg_state \<Rightarrow> ('p, 'w) reg_state \<Rightarrow> bool"
  for P pinv uo client where
  set_route: "SetRoute P uo client now gns gn lis n ns h port gr w = (e, gr', w') \<Longrightarrow>
     reg_step P pinv uo client (gr, w) (gr', w')"
| remove_route: "RemoveRoute P uo client now gns gn lis n ns gr w = (e, gr', w') \<Longrightarrow>
     reg_step P pinv uo client (gr, w) (gr', w')"
| update_gateway: "reg_step P pinv uo client (gr, w) (handleAddOrUpdateGateway P g gr, w)"
| delete_gateway: "reg_step P pinv uo client (gr, w) (handleDeleteGateway P g gr, w)"
| outside: "pinv p \<Longrightarrow> reg_step P pinv uo client (gr, w) (gr\<lparr>gr_pool := p\<rparr>, w')"

inductive reg_reachable ::
  "'p sessionPool \<Rightarrow> ('p \<Rightarrow> bool) \<Rightarrow> (string \<Rightarrow> (string \<times> string) option) \<Rightarrow> 'w api_client option \<Rightarrow>
     ('p, 'w) reg_state \<Rightarrow> bool"
  for P pinv uo client where
  start: "pinv p \<Longrightarrow> reg_reachable P pinv uo client (\<lparr>gr_pool = p, gr_gateways = []\<rparr>, w)"
| step: "reg_reachable P pinv uo client s \<Longrightarrow> reg_step P pinv uo client s s' \<Longrightarrow> reg_reachable P pinv uo client s'"

text \<open>
  The registry is well formed: its maps have distinct keys, and a rejected listener has no
  route and says why it was rejected.
\<close>

definition listener_ok :: "Listener \<Rightarrow> bool" where
  "listener_ok l \<longleftrightarrow> (l_Rejected l \<longrightarrow> l_route l = None \<and> l_Reason l \<noteq> [])"

definition gateway_ok :: "gateway \<Rightarrow> bool" where
  "gateway_ok gw \<longleftrightarrow> gomap_ok gw \<and> (\<forall>n l. mget gw n = Some l \<longrightarrow> listener_ok l)"

definition registry_ok :: "('p \<Rightarrow> bool) \<Rightarrow> 'p GatewayReconciler \<Rightarrow> bool" where
  "registry_ok pinv gr \<longleftrightarrow> pinv (gr_pool gr) \<and> gomap_ok (gr_gateways gr) \<and>
     (\<forall>k gw. mget (gr_gateways gr) k = Some gw \<longrightarrow> gateway_ok gw)"

lemma listener_ok_create: "listener_ok (createListener k ann)"
  using createListener_reason [of k ann] by (simp add: listener_ok_def)

lemma gateway_ok_put: "gateway_ok gw \<Longrightarrow> listener_ok l \<Longrightarrow> gateway_ok (mput n l gw)"
  by (simp add: gateway_ok_def)

lemma gateway_ok_foldl:
  "gateway_ok upd \<Longrightarrow> \<forall>k \<in> set ks. listener_ok (val k) \<Longrightarrow>
     gateway_ok (foldl (\<lambda>u k. mput (key k) (val k) u) upd ks)"
  by (induction ks arbitrary: upd) (simp_all add: gateway_ok_put)

lemma gateway_ok_Nil [simp]: "gateway_ok []"
  by (simp add: gateway_ok_def)

lemma listener_ok_next: "gateway_ok ex \<Longrightarrow> listener_ok (next_listener ex ann k)"
  using listener_ok_create by (auto simp: next_listener_def gateway_ok_def split: option.splits)

lemma registry_ok_put:
  "registry_ok pinv gr \<Longrightarrow> pinv p \<Longrightarrow> gateway_ok gw \<Longrightarrow>
     registry_ok pinv (gr\<lparr>gr_pool := p, gr_gateways := mput k gw (gr_gateways gr)\<rparr>)"
  by (simp add: registry_ok_def)

context session_pool
begin

lemma registry_ok_SetRoute:
  assumes ok: "registry_ok inv gr" and r: "SetRoute P uo client now gns gn lis n ns h port gr w = (e, gr', w')"
  shows "registry_ok inv gr'"
  using r
proof (cases rule: SetRoute_cases)
  case (attempted gw l p' l')
  have i: "inv (gr_pool gr)" and g: "gateway_ok gw" using ok attempted(1) by (auto simp: registry_ok_def)
  have "inv p' \<and> l_Rejected l' = l_Rejected l"
    using i attempted(4) by (cases rule: setupRouteForwarding_cases) auto
  then have "inv p'" "listener_ok l'" using attempted(3) by (auto simp: listener_ok_def)
  then show ?thesis
    unfolding attempted(5) by (intro registry_ok_put ok gateway_ok_put g)
qed (use ok in simp_all)

lemma registry_ok_RemoveRoute:
  assumes ok: "registry_ok inv gr" and r: "RemoveRoute P uo client now gns gn lis n ns gr w = (e, gr', w')"
  shows "registry_ok inv gr'"
proof -
  have "inv (gr_pool gr)" using ok by (simp add: registry_ok_def)
  from this r show ?thesis
  proof (cases rule: RemoveRoute_cases)
    case (removed gw l rt)
    then have "gateway_ok gw" "listener_ok l" using ok by (auto simp: registry_ok_def gateway_ok_def)
    then have "gateway_ok (mput lis (l\<lparr>l_route := None\<rparr>) gw)"
      by (intro gateway_ok_put) (simp_all add: listener_ok_def)
    with removed ok show ?thesis by (simp add: registry_ok_def)
  qed (use ok in \<open>auto simp: registry_ok_def\<close>)
qed

lemma registry_ok_update:
  assumes ok: "registry_ok inv gr"
  shows "registry_ok inv (handleAddOrUpdateGateway P g gr)"
proof (cases "mget (gr_gateways gr) (getGwKey (Namespace (gw_Meta g)) (Name (gw_Meta g)))")
  case None
  have "gateway_ok (new_listeners (gw_Listeners g) (Annotations (gw_Meta g)) [])"
    unfolding new_listeners_foldl by (rule gateway_ok_foldl) (simp_all add: listener_ok_create)
  with None ok show ?thesis by (simp add: handleAddOrUpdateGateway_def registry_ok_def)
next
  case (Some gw)
  then have g: "gateway_ok gw" and i: "inv (gr_pool gr)" using ok by (auto simp: registry_ok_def)
  obtain u p' where u: "update_listeners P gw (gw_Listeners g) (Annotations (gw_Meta g)) [] (gr_pool gr) = (u, p')"
    by (metis prod.collapse)
  have "gateway_ok u"
    using update_listeners_fst [of P gw "gw_Listeners g" "Annotations (gw_Meta g)" "[]" "gr_pool gr"] u
      gateway_ok_foldl [of "[]" "gw_Listeners g" "next_listener gw (Annotations (gw_Meta g))" k_Name] listener_ok_next [OF g]
    by simp
  moreover have "inv p'"
    using update_listeners_pool [OF i, of gw "gw_Listeners g" "Annotations (gw_Meta g)" "[]"] u by simp
  ultimately show ?thesis
    using Some u registry_ok_put [OF ok] by (simp add: handleAddOrUpdateGateway_def)
qed

lemma registry_ok_delete:
  assumes "registry_ok inv gr"
  shows "registry_ok inv (handleDeleteGateway P g gr)"
  using assms stop_listeners_state [of "gr_pool gr"]
  by (auto simp: handleDeleteGateway_def registry_ok_def Let_def split: option.splits)

lemma registry_ok_step:
  assumes "reg_step P inv uo client (gr, w0) (gr', w1)" "registry_ok inv gr"
  shows "registry_ok inv gr'"
  using assms(1)
proof (cases rule: reg_step.cases)
  case (set_route now gns gn lis n ns h port e)
  from registry_ok_SetRoute [OF assms(2) this] show ?thesis .
next
  case (remove_route now gns gn lis n ns e)
  from registry_ok_RemoveRoute [OF assms(2) this] show ?thesis .
next
  case (outside p)
  with assms(2) show ?thesis by (simp add: registry_ok_def)
qed (use assms(2) registry_ok_update registry_ok_delete in simp_all)

lemma registry_ok_reachable: "reg_reachable P inv uo client s \<Longrightarrow> registry_ok inv (fst s)"
proof (induction rule: reg_reachable.induct)
  case (start p w)
  then show ?case by (simp add: registry_ok_def)
next
  case (step s s')
  then show ?case
    using registry_ok_step [of uo client "fst s" "snd s" "fst s'" "snd s'"] by simp
qed

end

section \<open>A registry of a demonstration\<close>

text \<open>One Gateway with a listener for HTTP, one for TCP and one that is rejected.\<close>

definition demo_reg_gateway :: Gateway where
  "demo_reg_gateway = demo_gateway\<lparr>gw_Listeners :=
     [\<lparr>k_Name = ''web'', k_Hostname = Some ''h'', k_Port = 8, k_Protocol = ''HTTP'', k_TLS = None\<rparr>,
      \<lparr>k_Name = ''db'', k_Hostname = None, k_Port = 5, k_Protocol = ''TCP'', k_TLS = None\<rparr>,
      \<lparr>k_Name = ''sec'', k_Hostname = None, k_Port = 4, k_Protocol = ''HTTPS'', k_TLS = None\<rparr>]\<rparr>"

definition demo_reg :: "(SSHTunnelManager, trace) SSHSessionPool GatewayReconciler" where
  "demo_reg = handleAddOrUpdateGateway demo_pool_ops demo_reg_gateway \<lparr>gr_pool = demo_pool, gr_gateways = []\<rparr>"

abbreviation demo_set :: "string \<Rightarrow> string \<Rightarrow> (SSHTunnelManager, trace) SSHSessionPool GatewayReconciler \<Rightarrow>
    go_error option \<times> (SSHTunnelManager, trace) SSHSessionPool GatewayReconciler \<times> nat" where
  "demo_set lis name gr \<equiv> SetRoute demo_pool_ops (\<lambda>_. None) (Some demo_client) None ''ns'' ''gw'' lis name ''ns'' ''b'' 1 gr 0"

definition demo_reg_set :: "(SSHTunnelManager, trace) SSHSessionPool GatewayReconciler" where
  "demo_reg_set = fst (snd (demo_set ''web'' ''r'' demo_reg))"

definition demo_route_r :: Route where
  "demo_route_r = \<lparr>r_Name = ''r'', r_Namespace = ''ns'', r_Host = ''b'', r_Port = 1\<rparr>"

definition demo_web :: Listener where
  "demo_web = \<lparr>l_route = None, l_Protocol = ''HTTP'', l_Hostname = ''h'', l_Port = 8,
     l_SessionKind = SessionPlain, l_Rejected = False, l_Reason = []\<rparr>"

lemma demo_reg_reachable:
  "reg_reachable demo_pool_ops tunnel_pool_inv (\<lambda>_. None) (Some demo_client) (demo_reg, 0)"
  unfolding demo_reg_def
  by (rule reg_reachable.step [OF reg_reachable.start reg_step.update_gateway]) (rule demo_pool_inv)

lemma demo_set_eq: "demo_set ''web'' ''r'' demo_reg = (None, demo_reg_set, snd (snd (demo_set ''web'' ''r'' demo_reg)))"
proof -
  have "fst (demo_set ''web'' ''r'' demo_reg) = None" by code_simp
  then show ?thesis by (metis demo_reg_set_def prod.collapse)
qed

lemma demo_reg_set_reachable:
  "\<exists>w. reg_reachable demo_pool_ops tunnel_pool_inv (\<lambda>_. None) (Some demo_client) (demo_reg_set, w)"
  using reg_reachable.step [OF demo_reg_reachable reg_step.set_route [OF demo_set_eq]] by blast

lemma demo_reg_inv: "tunnel_pool_inv (gr_pool demo_reg)" "tunnel_pool_inv (gr_pool demo_reg_set)"
  using tunnels.spp.registry_ok_reachable [OF demo_reg_reachable] demo_reg_set_reachable
    tunnels.spp.registry_ok_reachable by (fastforce simp: registry_ok_def)+

section \<open>Properties\<close>

text \<open>
  C1. \<open>SetRoute\<close> keeps its promise. When it reports success, the Gateway and the listener exist,
  the listener is not rejected and now carries exactly the requested route, and the session of
  the listener's kind holds a forwarding for its host and port. That forwarding has the
  requested backend, unless the listener had no route or already this one and the forwarding was
  held before (it is adopted as it is).
\<close>

theorem set_route_serves:
  assumes "tunnel_pool_inv (gr_pool gr)"
    and "SetRoute (tunnel_pool_ops env pk base) uo client now gns gn lis n ns h port gr w = (None, gr', w')"
  shows "\<exists>gw gw' l held. mget (gr_gateways gr) (getGwKey gns gn) = Some gw \<and> mget gw lis = Some l \<and> \<not> l_Rejected l \<and>
     mget (gr_gateways gr') (getGwKey gns gn) = Some gw' \<and>
     mget gw' lis = Some (l\<lparr>l_route := Some \<lparr>r_Name = n, r_Namespace = ns, r_Host = h, r_Port = port\<rparr>\<rparr>) \<and>
     tunnel_pool_active (gr_pool gr') (l_SessionKind l) (forwardingKey (l_Hostname l) (l_Port l)) = Some held \<and>
     (held = start_config l \<lparr>r_Name = n, r_Namespace = ns, r_Host = h, r_Port = port\<rparr> \<or>
      l_route l \<in> {None, Some \<lparr>r_Name = n, r_Namespace = ns, r_Host = h, r_Port = port\<rparr>} \<and>
      tunnel_pool_active (gr_pool gr) (l_SessionKind l) (forwardingKey (l_Hostname l) (l_Port l)) = Some held)"
  by (rule tunnels.spp.SetRoute_serves [OF assms])

theorem set_route_serves_witness:
  "\<exists>gw held. mget (gr_gateways demo_reg_set) ''ns/gw'' = Some gw \<and>
     mget gw ''web'' = Some (demo_web\<lparr>l_route := Some demo_route_r\<rparr>) \<and>
     tunnel_pool_active (gr_pool demo_reg_set) SessionPlain ''h:8'' = Some held"
proof -
  have k: "getGwKey ''ns'' ''gw'' = ''ns/gw''" "forwardingKey ''h'' 8 = ''h:8''" by code_simp+
  have g: "map_option (\<lambda>gw. mget gw ''web'') (mget (gr_gateways demo_reg) ''ns/gw'') = Some (Some demo_web)" by code_simp
  from set_route_serves [OF demo_reg_inv(1) demo_set_eq] obtain gw gw' l held where
    "mget (gr_gateways demo_reg) ''ns/gw'' = Some gw" "mget gw ''web'' = Some l"
    "mget (gr_gateways demo_reg_set) ''ns/gw'' = Some gw'"
    "mget gw' ''web'' = Some (l\<lparr>l_route := Some demo_route_r\<rparr>)"
    "tunnel_pool_active (gr_pool demo_reg_set) (l_SessionKind l) (forwardingKey (l_Hostname l) (l_Port l)) = Some held"
    unfolding k demo_route_r_def by blast
  with g k show ?thesis by (auto simp: demo_web_def)
qed

text \<open>
  C20. \<open>SetRoute\<close> touches one listener and one forwarding. Whatever it answers, all other
  Gateways and all other listeners of the Gateway stay as they are in the registry, and so does
  every forwarding but the one filed under the session kind, hostname and port of this listener.
  That one stays as it is, or is the one asked for after a success, or is gone after a failure.
  A failure does not call the API and leaves the listener its old route or, if that was the
  requested one, none. Listeners with the same kind, hostname and port have one forwarding
  in common, so what happens to it happens to all of them (\<open>shared_forwarding\<close> below).
\<close>

theorem set_route_contained:
  assumes "tunnel_pool_inv (gr_pool gr)"
    and "SetRoute (tunnel_pool_ops env pk base) uo client now gns gn lis n ns h port gr w = (e, gr', w')"
  shows "tunnel_pool_inv (gr_pool gr') \<and>
     (\<forall>key. key \<noteq> getGwKey gns gn \<longrightarrow> mget (gr_gateways gr') key = mget (gr_gateways gr) key) \<and>
     (\<forall>gw. mget (gr_gateways gr) (getGwKey gns gn) = Some gw \<longrightarrow>
        (\<exists>gw'. mget (gr_gateways gr') (getGwKey gns gn) = Some gw' \<and>
           (\<forall>name. name \<noteq> lis \<longrightarrow> mget gw' name = mget gw name) \<and>
           (\<forall>kind key. (\<forall>l. mget gw lis = Some l \<longrightarrow> (kind, key) \<noteq> (l_SessionKind l, forwardingKey (l_Hostname l) (l_Port l))) \<longrightarrow>
              tunnel_pool_active (gr_pool gr') kind key = tunnel_pool_active (gr_pool gr) kind key) \<and>
           (\<forall>l. mget gw lis = Some l \<longrightarrow>
              tunnel_pool_active (gr_pool gr') (l_SessionKind l) (forwardingKey (l_Hostname l) (l_Port l)) =
                tunnel_pool_active (gr_pool gr) (l_SessionKind l) (forwardingKey (l_Hostname l) (l_Port l)) \<or>
              tunnel_pool_active (gr_pool gr') (l_SessionKind l) (forwardingKey (l_Hostname l) (l_Port l)) =
                (if e = None then Some (start_config l \<lparr>r_Name = n, r_Namespace = ns, r_Host = h, r_Port = port\<rparr>) else None)) \<and>
           (e \<noteq> None \<longrightarrow> w' = w \<and> (\<forall>l. mget gw lis = Some l \<longrightarrow>
              mget gw' lis = Some l \<or> l_route l = Some \<lparr>r_Name = n, r_Namespace = ns, r_Host = h, r_Port = port\<rparr> \<and>
                mget gw' lis = Some (l\<lparr>l_route := None\<rparr>)))))"
  by (rule tunnels.spp.SetRoute_frame [OF assms])

theorem set_route_contained_witness:
  "fst (demo_set ''sec'' ''r'' demo_reg_set) = Some (Errorf ''listener sec is not programmed: UnsupportedListenerProtocol'') \<and>
   (\<exists>gw. mget (gr_gateways (fst (snd (demo_set ''sec'' ''r'' demo_reg_set)))) ''ns/gw'' = Some gw \<and>
      mget gw ''web'' = Some (demo_web\<lparr>l_route := Some demo_route_r\<rparr>))"
proof -
  let ?r = "demo_set ''sec'' ''r'' demo_reg_set"
  have r: "?r = (fst ?r, fst (snd ?r), snd (snd ?r))" by simp
  have k: "getGwKey ''ns'' ''gw'' = ''ns/gw''" by code_simp
  have e: "fst ?r = Some (Errorf ''listener sec is not programmed: UnsupportedListenerProtocol'')" by code_simp
  have "map_option (\<lambda>gw. mget gw ''web'') (mget (gr_gateways demo_reg_set) ''ns/gw'')
      = Some (Some (demo_web\<lparr>l_route := Some demo_route_r\<rparr>))" by code_simp
  then obtain gw where gw: "mget (gr_gateways demo_reg_set) ''ns/gw'' = Some gw"
      "mget gw ''web'' = Some (demo_web\<lparr>l_route := Some demo_route_r\<rparr>)" by auto
  from set_route_contained [OF demo_reg_inv(2) r] gw k e show ?thesis by fastforce
qed

text \<open>
  Two listeners with the same kind, hostname and port: the second route is reported attached
  while the backend stays that of the first, and removing the first takes the forwarding away
  from the second, which keeps its route in the registry.
\<close>

definition demo_reg_shared :: "(SSHTunnelManager, trace) SSHSessionPool GatewayReconciler" where
  "demo_reg_shared = handleAddOrUpdateGateway demo_pool_ops (demo_reg_gateway\<lparr>gw_Listeners :=
     map (\<lambda>name. \<lparr>k_Name = name, k_Hostname = Some ''h'', k_Port = 8, k_Protocol = ''HTTP'', k_TLS = None\<rparr>)
       [''web'', ''web2'']\<rparr>) \<lparr>gr_pool = demo_pool, gr_gateways = []\<rparr>"

definition demo_reg_both :: "go_error option \<times> (SSHTunnelManager, trace) SSHSessionPool GatewayReconciler \<times> nat" where
  "demo_reg_both = SetRoute demo_pool_ops (\<lambda>_. None) (Some demo_client) None ''ns'' ''gw'' ''web2'' ''r2'' ''ns'' ''b2'' 2
     (fst (snd (demo_set ''web'' ''r'' demo_reg_shared))) 0"

abbreviation attached_route :: "string \<Rightarrow> 'p GatewayReconciler \<Rightarrow> string option" where
  "attached_route lis gr \<equiv>
     Option.bind (mget (gr_gateways gr) ''ns/gw'') (\<lambda>gw. Option.bind (mget gw lis) (\<lambda>l. map_option r_Name (l_route l)))"

lemma shared_forwarding:
  "fst demo_reg_both = None \<and> attached_route ''web2'' (fst (snd demo_reg_both)) = Some ''r2'' \<and>
   map_option InternalHost (tunnel_pool_active (gr_pool (fst (snd demo_reg_both))) SessionPlain ''h:8'') = Some ''b''"
  "attached_route ''web2'' (fst (snd (RemoveRoute demo_pool_ops (\<lambda>_. None) (Some demo_client) None ''ns'' ''gw''
     ''web'' ''r'' ''ns'' (fst (snd demo_reg_both)) 0))) = Some ''r2'' \<and>
   tunnel_pool_active (gr_pool (fst (snd (RemoveRoute demo_pool_ops (\<lambda>_. None) (Some demo_client) None ''ns'' ''gw''
     ''web'' ''r'' ''ns'' (fst (snd demo_reg_both)) 0)))) SessionPlain ''h:8'' = None"
  by code_simp+

text \<open>
  C10. A rejected listener never has a route, in any run: in every state that the reconcilers can
  reach, whatever the SSH server does to the sessions, a listener whose protocol or TLS mode is
  not supported has no route attached, says why, and \<open>SetRoute\<close> on it answers an error and
  changes nothing.
\<close>

theorem rejected_never_attached:
  assumes "reg_reachable (tunnel_pool_ops env pk base) tunnel_pool_inv uo client (gr, w)"
    and "mget (gr_gateways gr) (getGwKey gns gn) = Some gw" "mget gw lis = Some l" "l_Rejected l"
  shows "l_route l = None \<and> l_Reason l \<noteq> [] \<and>
    SetRoute (tunnel_pool_ops env pk base) uo client now gns gn lis n ns h port gr w =
      (Some (Errorf (''listener '' @ lis @ '' is not programmed: '' @ l_Reason l)), gr, w)"
proof -
  have "registry_ok tunnel_pool_inv gr" using tunnels.spp.registry_ok_reachable [OF assms(1)] by simp
  with assms show ?thesis by (auto simp: registry_ok_def gateway_ok_def listener_ok_def SetRoute_def)
qed

theorem rejected_never_attached_witness:
  "\<exists>l. map_option (\<lambda>gw. mget gw ''sec'') (mget (gr_gateways demo_reg) ''ns/gw'') = Some (Some l) \<and> l_route l = None \<and>
     fst (demo_set ''sec'' ''r'' demo_reg) = Some (Errorf (''listener sec is not programmed: '' @ l_Reason l))"
proof -
  have k: "getGwKey ''ns'' ''gw'' = ''ns/gw''" by code_simp
  have "map_option (\<lambda>gw. map_option l_Rejected (mget gw ''sec'')) (mget (gr_gateways demo_reg) ''ns/gw'') = Some (Some True)"
    by code_simp
  then obtain gw l where g: "mget (gr_gateways demo_reg) (getGwKey ''ns'' ''gw'') = Some gw" "mget gw ''sec'' = Some l" "l_Rejected l"
    unfolding k by auto
  from rejected_never_attached [OF demo_reg_reachable g] g k show ?thesis by auto
qed

text \<open>
  A forwarding lost in a reconnect blocks its listener. When the session is connected but no
  longer holds the forwarding of an attached listener (closing the connection empties the table
  of forwardings, and a failed start after a stop leaves the old route in place), then replacing
  the route by any other one and removing the route both fail with the same error, and both leave
  registry, pool and API exactly as they are, so repeating them fails for ever.
\<close>

theorem lost_forwarding_blocks_listener:
  assumes "reg_reachable (tunnel_pool_ops env pk base) tunnel_pool_inv uo client (gr, w)"
    and "mget (gr_gateways gr) (getGwKey gns gn) = Some gw" "mget gw lis = Some l" "l_route l = Some old"
    and "pool_IsConnected (tunnel_manager env) (l_SessionKind l) (gr_pool gr)"
    and "tunnel_pool_active (gr_pool gr) (l_SessionKind l) (forwardingKey (l_Hostname l) (l_Port l)) = None"
    and "\<lparr>r_Name = n, r_Namespace = ns, r_Host = h, r_Port = port\<rparr> \<noteq> old"
  shows "SetRoute (tunnel_pool_ops env pk base) uo client now gns gn lis n ns h port gr w =
      (Some (Wrapf ''failed to stop forwarding'' (ErrSSHForwardingNotFound (forwardingKey (l_Hostname l) (l_Port l)))), gr, w) \<and>
    RemoveRoute (tunnel_pool_ops env pk base) uo client now gns gn lis (r_Name old) (r_Namespace old) gr w =
      (Some (Wrapf ''failed to stop forwarding'' (ErrSSHForwardingNotFound (forwardingKey (l_Hostname l) (l_Port l)))), gr, w)"
proof -
  have ok: "registry_ok tunnel_pool_inv gr" using tunnels.spp.registry_ok_reachable [OF assms(1)] by simp
  then have l: "tunnel_pool_inv (gr_pool gr)" "gomap_ok (gr_gateways gr)" "gomap_ok gw" "\<not> l_Rejected l"
    using assms(2-4) by (auto simp: registry_ok_def gateway_ok_def listener_ok_def)
  have on: "sp_IsConnected (tunnel_pool_ops env pk base) (l_SessionKind l) (gr_pool gr)" using assms(5) by simp
  note stuck = tunnels.spp.lost_forwarding_stuck [OF l(1) on assms(2-4,6) l(2-4)]
  show ?thesis by (intro conjI stuck(1) [OF assms(7) [symmetric]] stuck(2))
qed

definition demo_reg_lost :: "(SSHTunnelManager, trace) SSHSessionPool GatewayReconciler" where
  "demo_reg_lost = demo_reg_set\<lparr>gr_pool := demo_pool\<rparr>"

lemma demo_reg_lost_reachable:
  "reg_reachable demo_pool_ops tunnel_pool_inv (\<lambda>_. None) (Some demo_client) (demo_reg_lost, 0)"
proof -
  obtain w where "reg_reachable demo_pool_ops tunnel_pool_inv (\<lambda>_. None) (Some demo_client) (demo_reg_set, w)"
    using demo_reg_set_reachable by blast
  then show ?thesis unfolding demo_reg_lost_def
    by (rule reg_reachable.step [OF _ reg_step.outside]) (rule demo_pool_inv)
qed

theorem lost_forwarding_blocks_listener_witness:
  "demo_set ''web'' ''r2'' demo_reg_lost =
     (Some (Wrapf ''failed to stop forwarding'' (ErrSSHForwardingNotFound ''h:8'')), demo_reg_lost, 0)"
proof -
  have k: "getGwKey ''ns'' ''gw'' = ''ns/gw''" "forwardingKey ''h'' 8 = ''h:8''" by code_simp+
  have "map_option (\<lambda>gw. mget gw ''web'') (mget (gr_gateways demo_reg_lost) ''ns/gw'')
      = Some (Some (demo_web\<lparr>l_route := Some demo_route_r\<rparr>))" by code_simp
  then obtain gw where gw: "mget (gr_gateways demo_reg_lost) (getGwKey ''ns'' ''gw'') = Some gw"
      "mget gw ''web'' = Some (demo_web\<lparr>l_route := Some demo_route_r\<rparr>)" unfolding k by auto
  let ?l = "demo_web\<lparr>l_route := Some demo_route_r\<rparr>"
  have l: "l_route ?l = Some demo_route_r" by simp
  have on: "pool_IsConnected (tunnel_manager demo_pool_env) (l_SessionKind ?l) (gr_pool demo_reg_lost)" by code_simp
  have lost: "tunnel_pool_active (gr_pool demo_reg_lost) (l_SessionKind ?l) (forwardingKey (l_Hostname ?l) (l_Port ?l)) = None"
    by code_simp
  have ne: "\<lparr>r_Name = ''r2'', r_Namespace = ''ns'', r_Host = ''b'', r_Port = 1\<rparr> \<noteq> demo_route_r"
    by (simp add: demo_route_r_def)
  from lost_forwarding_blocks_listener [OF demo_reg_lost_reachable gw l on lost ne] k
  show ?thesis by (simp add: demo_web_def)
qed

text \<open>
  C21. \<open>RemoveRoute\<close> is exact. It succeeds only on the listener to which the named route is
  attached, and then the listener has no route and its session holds no forwarding for it,
  while all other listeners, Gateways and forwardings are as before. It answers not-found, and
  changes nothing, exactly when no such attachment exists; when the stop fails it keeps the
  attachment, so that the removal is tried again.
\<close>

theorem remove_route_exact:
  assumes "tunnel_pool_inv (gr_pool gr)"
    and "RemoveRoute (tunnel_pool_ops env pk base) uo client now gns gn lis n ns gr w = (e, gr', w')"
  shows
    "if \<exists>gw l r. mget (gr_gateways gr) (getGwKey gns gn) = Some gw \<and> mget gw lis = Some l \<and>
          l_route l = Some r \<and> r_Name r = n \<and> r_Namespace r = ns
     then \<exists>gw l. mget (gr_gateways gr) (getGwKey gns gn) = Some gw \<and> mget gw lis = Some l \<and>
       gr_gateways gr' = (if e = None then mput (getGwKey gns gn) (mput lis (l\<lparr>l_route := None\<rparr>) gw) (gr_gateways gr)
                          else gr_gateways gr) \<and>
       tunnel_pool_active (gr_pool gr') =
         without (tunnel_pool_active (gr_pool gr)) {(l_SessionKind l, forwardingKey (l_Hostname l) (l_Port l))}
     else gr' = gr \<and> w' = w \<and> (\<exists>err. e = Some err \<and> (errors_As is_GatewayNotFound err \<or> errors_As is_RouteNotFound err))"
  using assms
proof (cases rule: tunnels.spp.RemoveRoute_cases)
  case absent
  then show ?thesis by auto
next
  case (stop_failed gw l r err)
  then show ?thesis by auto
next
  case (removed gw l r)
  then show ?thesis by auto
qed

theorem remove_route_exact_witness:
  "tunnel_pool_active (gr_pool (fst (snd (RemoveRoute demo_pool_ops (\<lambda>_. None) (Some demo_client) None ''ns'' ''gw''
     ''web'' ''r'' ''ns'' demo_reg_set 0)))) SessionPlain ''h:8'' = None"
proof -
  let ?r = "RemoveRoute demo_pool_ops (\<lambda>_. None) (Some demo_client) None ''ns'' ''gw'' ''web'' ''r'' ''ns'' demo_reg_set 0"
  have r: "?r = (fst ?r, fst (snd ?r), snd (snd ?r))" by simp
  have k: "getGwKey ''ns'' ''gw'' = ''ns/gw''" "forwardingKey ''h'' 8 = ''h:8''" by code_simp+
  have "map_option (\<lambda>gw. mget gw ''web'') (mget (gr_gateways demo_reg_set) ''ns/gw'')
      = Some (Some (demo_web\<lparr>l_route := Some demo_route_r\<rparr>))" by code_simp
  then obtain gw where gw: "mget (gr_gateways demo_reg_set) (getGwKey ''ns'' ''gw'') = Some gw"
      "mget gw ''web'' = Some (demo_web\<lparr>l_route := Some demo_route_r\<rparr>)" unfolding k by auto
  from remove_route_exact [OF demo_reg_inv(2) r] gw
  have "tunnel_pool_active (gr_pool (fst (snd ?r))) =
      without (tunnel_pool_active (gr_pool demo_reg_set)) {(SessionPlain, forwardingKey ''h'' 8)}"
    by (auto simp: demo_web_def demo_route_r_def split: if_splits)
  then show ?thesis using k by (simp add: without_def)
qed

text \<open>
  C13. Deleting a Gateway gives back all it holds. The Gateway leaves the registry, every other
  one stays; and afterwards the pool holds exactly the forwardings it held before without those
  of the listeners that had a route, even where the server refused a stop.
\<close>

theorem delete_gateway_exact:
  assumes "tunnel_pool_inv (gr_pool gr)" and "mget (gr_gateways gr) (getGwKey (Namespace (gw_Meta g)) (Name (gw_Meta g))) = Some gw"
  shows "gr_gateways (handleDeleteGateway (tunnel_pool_ops env pk base) g gr) =
       mdel (getGwKey (Namespace (gw_Meta g)) (Name (gw_Meta g))) (gr_gateways gr) \<and>
     tunnel_pool_inv (gr_pool (handleDeleteGateway (tunnel_pool_ops env pk base) g gr)) \<and>
     tunnel_pool_active (gr_pool (handleDeleteGateway (tunnel_pool_ops env pk base) g gr)) kind key =
       (if \<exists>name l. (name, l) \<in> set gw \<and> l_route l \<noteq> None \<and>
             kind = l_SessionKind l \<and> key = forwardingKey (l_Hostname l) (l_Port l)
        then None else tunnel_pool_active (gr_pool gr) kind key)"
proof -
  have m: "(\<exists>name l. (name, l) \<in> set gw \<and> l_route l \<noteq> None \<and>
      kind = l_SessionKind l \<and> key = forwardingKey (l_Hostname l) (l_Port l)) \<longleftrightarrow> (kind, key) \<in> attached_keys gw"
    by (auto simp: attached_keys_def)
  show ?thesis
    using tunnels.spp.stop_listeners_state [OF assms(1), of env pk base gw] assms(2)
    unfolding m by (simp add: handleDeleteGateway_def without_def)
qed

theorem delete_gateway_exact_witness:
  "tunnel_pool_active (gr_pool (handleDeleteGateway demo_pool_ops demo_reg_gateway demo_reg_set)) SessionPlain ''h:8'' = None \<and>
   mget (gr_gateways (handleDeleteGateway demo_pool_ops demo_reg_gateway demo_reg_set)) ''ns/gw'' = None"
proof -
  have k: "getGwKey (Namespace (gw_Meta demo_reg_gateway)) (Name (gw_Meta demo_reg_gateway)) = ''ns/gw''"
      "forwardingKey ''h'' 8 = ''h:8''" by code_simp+
  have "map_option (\<lambda>gw. mget gw ''web'') (mget (gr_gateways demo_reg_set) ''ns/gw'')
      = Some (Some (demo_web\<lparr>l_route := Some demo_route_r\<rparr>))" by code_simp
  then obtain gw where gw: "mget (gr_gateways demo_reg_set) ''ns/gw'' = Some gw"
      "mget gw ''web'' = Some (demo_web\<lparr>l_route := Some demo_route_r\<rparr>)" by auto
  then have "(''web'', demo_web\<lparr>l_route := Some demo_route_r\<rparr>) \<in> set gw" by (blast dest: map_of_SomeD)
  then have "\<exists>name l. (name, l) \<in> set gw \<and> l_route l \<noteq> None \<and> SessionPlain = l_SessionKind l \<and>
      ''h:8'' = forwardingKey (l_Hostname l) (l_Port l)"
    by (intro exI [of _ "''web''"] exI [of _ "demo_web\<lparr>l_route := Some demo_route_r\<rparr>"])
      (simp add: demo_web_def k)
  with delete_gateway_exact [OF demo_reg_inv(2), of demo_reg_gateway gw demo_pool_env "\<lambda>k. None" demo_pool_config SessionPlain "''h:8''"]
    gw(1) k show ?thesis by simp
qed

text \<open>
  C22. Updating a Gateway. With distinct listener names, the registry afterwards has exactly the
  listeners of the spec: one whose port, hostname and session kind are unchanged is kept
  together with its route, every other one is made afresh from the spec; and the pool loses
  exactly the forwardings of the listeners that were attached and changed. A listener that
  vanished from the spec is dropped, but the forwarding of its route stays held.
\<close>

theorem update_gateway_exact:
  assumes "tunnel_pool_inv (gr_pool gr)" "distinct (map k_Name (gw_Listeners g))"
    and "mget (gr_gateways gr) (getGwKey (Namespace (gw_Meta g)) (Name (gw_Meta g))) = Some gw"
  shows "\<exists>gw'. mget (gr_gateways (handleAddOrUpdateGateway (tunnel_pool_ops env pk base) g gr))
         (getGwKey (Namespace (gw_Meta g)) (Name (gw_Meta g))) = Some gw' \<and>
     (\<forall>name l. mget gw' name = Some l \<longleftrightarrow>
        (\<exists>k \<in> set (gw_Listeners g). k_Name k = name \<and>
           l = (let fresh = createListener k (Annotations (gw_Meta g)) in
                case mget gw name of None \<Rightarrow> fresh
                | Some old \<Rightarrow> if l_Port old = l_Port fresh \<and> l_Hostname old = l_Hostname fresh \<and>
                    l_SessionKind old = l_SessionKind fresh then old else fresh))) \<and>
     tunnel_pool_active (gr_pool (handleAddOrUpdateGateway (tunnel_pool_ops env pk base) g gr)) =
       without (tunnel_pool_active (gr_pool gr)) (changed_keys gw (Annotations (gw_Meta g)) (gw_Listeners g))"
proof -
  let ?ann = "Annotations (gw_Meta g)" and ?ks = "gw_Listeners g"
  let ?P = "tunnel_pool_ops env pk base"
  obtain u p' where u: "update_listeners ?P gw ?ks ?ann [] (gr_pool gr) = (u, p')" by (metis prod.collapse)
  have gw': "u = foldl (\<lambda>u k. mput (k_Name k) (next_listener gw ?ann k) u) [] ?ks"
    using update_listeners_fst [of ?P gw ?ks ?ann "[]" "gr_pool gr"] u by simp
  have n: "next_listener gw ?ann k = (let fresh = createListener k ?ann in
                case mget gw (k_Name k) of None \<Rightarrow> fresh
                | Some old \<Rightarrow> if l_Port old = l_Port fresh \<and> l_Hostname old = l_Hostname fresh \<and>
                    l_SessionKind old = l_SessionKind fresh then old else fresh)" for k
    by (auto simp: next_listener_def listener_changed_def Let_def split: option.splits)
  have "mget u name = Some l \<longleftrightarrow> (\<exists>k \<in> set ?ks. k_Name k = name \<and> l = next_listener gw ?ann k)" for name l
    using foldl_mput_get [OF assms(2), of _ "next_listener gw ?ann" "[]"]
      foldl_mput_values [of k_Name "next_listener gw ?ann" "[]" ?ks name l] unfolding gw' by fastforce
  moreover have "tunnel_pool_active p' = without (tunnel_pool_active (gr_pool gr)) (changed_keys gw ?ann ?ks)"
    using tunnels.spp.update_listeners_pool [OF assms(1), of env pk base gw ?ks ?ann "[]"] u by simp
  ultimately show ?thesis
    using assms(3) u by (intro exI [of _ u]) (auto simp: handleAddOrUpdateGateway_def n)
qed

text \<open>The listener for HTTP is left out of the new spec: it is dropped, and its forwarding stays.\<close>

theorem update_gateway_exact_witness:
  "\<exists>gw'. mget (gr_gateways (handleAddOrUpdateGateway demo_pool_ops
        (demo_reg_gateway\<lparr>gw_Listeners := tl (gw_Listeners demo_reg_gateway)\<rparr>) demo_reg_set)) ''ns/gw'' = Some gw' \<and>
     mget gw' ''web'' = None \<and>
     tunnel_pool_active (gr_pool (handleAddOrUpdateGateway demo_pool_ops
        (demo_reg_gateway\<lparr>gw_Listeners := tl (gw_Listeners demo_reg_gateway)\<rparr>) demo_reg_set)) SessionPlain ''h:8'' \<noteq> None"
proof -
  let ?g = "demo_reg_gateway\<lparr>gw_Listeners := tl (gw_Listeners demo_reg_gateway)\<rparr>"
  have k: "getGwKey (Namespace (gw_Meta ?g)) (Name (gw_Meta ?g)) = ''ns/gw''" by code_simp
  have d: "distinct (map k_Name (gw_Listeners ?g))" by code_simp
  have names: "map k_Name (gw_Listeners ?g) = [''db'', ''sec'']" by code_simp
  have "mget (gr_gateways demo_reg_set) ''ns/gw'' \<noteq> None" by code_simp
  then obtain gw where gw: "mget (gr_gateways demo_reg_set) (getGwKey (Namespace (gw_Meta ?g)) (Name (gw_Meta ?g))) = Some gw"
    unfolding k by blast
  have "map_option (\<lambda>gw. map (\<lambda>k. map_option l_route (mget gw (k_Name k))) (gw_Listeners ?g))
      (mget (gr_gateways demo_reg_set) ''ns/gw'') = Some [Some None, Some None]" by code_simp
  then have r: "map (\<lambda>k. map_option l_route (mget gw (k_Name k))) (gw_Listeners ?g) = [Some None, Some None]"
    using gw unfolding k by simp
  have "\<forall>k \<in> set (gw_Listeners ?g). map_option l_route (mget gw (k_Name k)) = Some None"
    using arg_cong [OF r, of set] by auto
  then have ch: "changed_keys gw (Annotations (gw_Meta ?g)) (gw_Listeners ?g) = {}"
    by (fastforce simp: changed_keys_def)
  have held: "tunnel_pool_active (gr_pool demo_reg_set) SessionPlain ''h:8'' \<noteq> None" by code_simp
  have "''web'' \<notin> set (map k_Name (gw_Listeners ?g))" unfolding names by simp
  then have web: "\<not> (\<exists>k \<in> set (gw_Listeners ?g). k_Name k = ''web'')"
    unfolding set_map by (metis image_eqI)
  show ?thesis
  proof (rule exE [OF update_gateway_exact [OF demo_reg_inv(2) d gw, of demo_pool_env "\<lambda>k. None" demo_pool_config]],
      goal_cases)
    case (1 gw')
    note m = iffD1 [OF spec [OF spec [OF conjunct1 [OF conjunct2 [OF 1]]]]]
    have "mget gw' ''web'' = None"
    proof (cases "mget gw' ''web''")
      case (Some l)
      from m [OF this] web show ?thesis by (elim bexE conjE) metis
    qed
    moreover note conjunct1 [OF 1] conjunct2 [OF conjunct2 [OF 1]]
    ultimately show ?case unfolding ch k without_empty using held by simp
  qed
qed

end
