(* ===== verification/Tunnel_Runs.thy ===== *)
theory Tunnel_Runs
  imports Tunnel_Manager
begin

text \<open>
  The tunnel manager as a state machine: one step per method call or background event,
  the states reachable from a new manager, the abstract table of forwardings that the
  manager refines, and what each operation puts on the wire. A keepalive is a round of its
  own (\<open>OpTick\<close>), or its answer arrives late, after any other steps, even those of a later
  connection (\<open>OpKeepaliveAnswer\<close>).
\<close>

section \<open>Steps and reachable states\<close>

datatype mgr_op =
    OpConnect
  | OpStart ForwardingConfig
  | OpStop ForwardingConfig
  | OpShutdown
  | OpTick
  | OpKeepaliveAnswer send_outcome
  | OpDialFailed int string
  | OpDialOk string

type_synonym mgr_state = "SSHTunnelManager \<times> trace"

inductive mgr_step :: "ssh_env \<Rightarrow> mgr_state \<Rightarrow> mgr_op \<Rightarrow> mgr_state \<Rightarrow> bool" for env where
  connect: "Connect env m tr = (e, m', tr') \<Longrightarrow> mgr_step env (m, tr) OpConnect (m', tr')"
| start: "StartForwarding env fwd m tr = (e, m', tr') \<Longrightarrow> mgr_step env (m, tr) (OpStart fwd) (m', tr')"
| stop: "StopForwarding env fwd m tr = (e, m', tr') \<Longrightarrow> mgr_step env (m, tr) (OpStop fwd) (m', tr')"
| shutdown: "Stop env m tr = (m', tr') \<Longrightarrow> mgr_step env (m, tr) OpShutdown (m', tr')"
| tick: "monitorTick env m tr = (go_on, m', tr') \<Longrightarrow> mgr_step env (m, tr) OpTick (m', tr')"
| answer: "monitorResult answer m tr = (go_on, m', tr') \<Longrightarrow> mgr_step env (m, tr) (OpKeepaliveAnswer answer) (m', tr')"
| dial_failed: "logBackendDialError now a (m_dialErrors m) = (l, d) \<Longrightarrow>
    mgr_step env (m, tr) (OpDialFailed now a) (m\<lparr>m_dialErrors := d\<rparr>, tr)"
| dial_ok: "mgr_step env (m, tr) (OpDialOk a)
    (m\<lparr>m_dialErrors := recordBackendDialSuccess a (m_dialErrors m)\<rparr>, tr)"

inductive_cases mgr_stepE: "mgr_step env (m, tr) op (m', tr')"

inductive mgr_reachable :: "ssh_env \<Rightarrow> mgr_state \<Rightarrow> bool" for env where
  new: "NewSSHTunnelManager ParsePrivateKey config = Inr m \<Longrightarrow> mgr_reachable env (m, tr)"
| step: "mgr_reachable env s \<Longrightarrow> mgr_step env s op s' \<Longrightarrow> mgr_reachable env s'"

lemma TM_inv_dialErrors [simp]: "TM_inv (m\<lparr>m_dialErrors := d\<rparr>) \<longleftrightarrow> TM_inv m"
  by (simp add: TM_inv_defs)

lemma mgr_step_inv: "mgr_step env (m, tr) op (m', tr') \<Longrightarrow> TM_inv m \<Longrightarrow> TM_inv m'"
  by (erule mgr_stepE)
    (auto intro: TM_inv_Connect TM_inv_StartForwarding TM_inv_StopForwarding TM_inv_monitorTick TM_inv_monitorResult
      dest: TM_inv_Stop [of m env tr])

lemma mgr_reachable_inv_pair: "mgr_reachable env s \<Longrightarrow> TM_inv (fst s)"
proof (induction rule: mgr_reachable.induct)
  case (new ParsePrivateKey config m tr)
  then show ?case by (auto intro: TM_inv_New)
next
  case (step s op s')
  then show ?case using mgr_step_inv [of env "fst s" "snd s" op "fst s'" "snd s'"] by simp
qed

section \<open>Refinement of an abstract table of forwardings\<close>

text \<open>
  What a client may assume of a session: it is offline, or online with a table of
  forwardings. A connect attempt may fail; a start adds the entry or changes nothing; a
  stop removes the entry; a shutdown takes the session offline; a keepalive either changes
  nothing or takes it offline. Coming online, the table is empty.
\<close>

type_synonym session_spec = "(string \<rightharpoonup> ForwardingConfig) option"

fun spec_step :: "session_spec \<Rightarrow> mgr_op \<Rightarrow> session_spec \<Rightarrow> bool" where
  "spec_step s OpConnect s' \<longleftrightarrow> s' = s \<or> s = None \<and> s' = Some Map.empty"
| "spec_step s (OpStart fwd) s' \<longleftrightarrow>
     s' = s \<or> (\<exists>t. s = Some t \<and> t (cfgKey fwd) = None \<and> s' = Some (t(cfgKey fwd \<mapsto> fwd)))"
| "spec_step s (OpStop fwd) s' \<longleftrightarrow> s' = map_option (\<lambda>t. t(cfgKey fwd := None)) s"
| "spec_step s OpShutdown s' \<longleftrightarrow> s' = None"
| "spec_step s OpTick s' \<longleftrightarrow> s' = s \<or> s' = None"
| "spec_step s (OpKeepaliveAnswer answer) s' \<longleftrightarrow> s' = s \<or> s' = None"
| "spec_step s (OpDialFailed now a) s' \<longleftrightarrow> s' = s"
| "spec_step s (OpDialOk a) s' \<longleftrightarrow> s' = s"

definition abs_session :: "SSHTunnelManager \<Rightarrow> session_spec" where
  "abs_session m = (if m_connected m then Some (tm_active m) else None)"

lemma abs_session_simps [simp]:
  "abs_session (m\<lparr>m_dialErrors := d\<rparr>) = abs_session m"
  "\<not> m_connected m \<Longrightarrow> abs_session m = None"
  "m_connected m \<Longrightarrow> abs_session m = Some (tm_active m)"
  by (simp_all add: abs_session_def tm_active_def)

lemma refine_connect:
  assumes "TM_inv m" "Connect env m tr = (e, m', tr')"
  shows "spec_step (abs_session m) OpConnect (abs_session m')"
proof (cases e)
  case None
  with assms show ?thesis
    using tm.connect_active [of m env tr e m' tr'] TM_inv_parts(5) [OF assms(1)]
    by (auto simp: abs_session_def tm_active_def tm_defs split: if_splits option.splits)
next
  case (Some err)
  with assms show ?thesis using tm.connect_fail [of env m tr err m' tr'] by simp
qed

lemma refine_start:
  assumes "TM_inv m" "StartForwarding env fwd m tr = (e, m', tr')"
  shows "spec_step (abs_session m) (OpStart fwd) (abs_session m')"
  using tm.start_active [of m env fwd tr e m' tr'] tm.start_connected [of m env fwd tr e m' tr']
    tm.start_ok_fresh [of m env fwd tr m' tr'] tm.start_ok_connected [of env fwd m tr m' tr'] assms
  by (auto simp: abs_session_def IsConnected_def)

lemma refine_stop:
  assumes "TM_inv m" "StopForwarding env fwd m tr = (e, m', tr')"
  shows "spec_step (abs_session m) (OpStop fwd) (abs_session m')"
  using tm.stop_active_general [of m env fwd tr e m' tr'] tm.stop_connected [of m env fwd tr e m' tr'] assms
  by (auto simp: abs_session_def IsConnected_def)

lemma refine_dial: "spec_step s (OpDialFailed now a) s" "spec_step s (OpDialOk a) s"
  by simp_all

lemma refine_shutdown: "Stop env m tr = (m', tr') \<Longrightarrow> spec_step (abs_session m) OpShutdown (abs_session m')"
  using Stop_state [of env m tr] by (auto simp: abs_session_def split: if_splits)

lemma refine_answer:
  assumes "monitorResult answer m tr = (b, m', tr')"
  shows "spec_step (abs_session m) (OpKeepaliveAnswer answer) (abs_session m')"
  using assms
  by (auto simp: monitorResult_def closeClient_def abs_session_def split: if_splits send_outcome.splits)

lemma refine_tick:
  assumes "monitorTick env m tr = (b, m', tr')"
  shows "spec_step (abs_session m) OpTick (abs_session m')"
  using assms
  by (auto simp: monitor_defs closeClient_def abs_session_def Let_def split: if_splits send_outcome.splits)

section \<open>The wire\<close>

abbreviation wire_cancel :: "SSHTunnelManager \<Rightarrow> ForwardingConfig \<Rightarrow> SessionFlags \<times> wire_event" where
  "wire_cancel m f \<equiv>
     (m_flags m, EvSend ''cancel-tcpip-forward'' (RemoteHost f) (word_of_int (RemotePort f)))"

abbreviation wire_start :: "SSHTunnelManager \<Rightarrow> ForwardingConfig \<Rightarrow> SessionFlags \<times> wire_event" where
  "wire_start m f \<equiv> (m_flags m, EvSend ''tcpip-forward'' (RemoteHost f) (word_of_int (RemotePort f)))"

lemma send_cancel_trace:
  "0 \<le> RemotePort f \<Longrightarrow> RemotePort f \<le> 65535 \<Longrightarrow>
     snd (sendForwardingOnce env m f ForwardCancel tr) = tr @ [wire_cancel m f]"
  by (simp add: sendForwardingOnce_trace)

lemma cancelForwarding_trace:
  "0 \<le> p \<Longrightarrow> p \<le> 65535 \<Longrightarrow>
     cancelForwarding env m h p tr = tr @ [(m_flags m, EvSend ''cancel-tcpip-forward'' h (word_of_int p))]"
  by (simp add: cancelForwarding_def sendForwardingOnce_trace)

lemma cancel_all_trace:
  assumes "\<forall>(k, f) \<in> set fs. 0 \<le> RemotePort f \<and> RemotePort f \<le> 65535"
  shows "snd (cancel_all env m fs tr) = tr @ map (\<lambda>(k, f). wire_cancel m f) fs"
  using assms
proof (induction fs arbitrary: tr)
  case (Cons e fs)
  then show ?case
    by (cases e) (simp add: sendForwarding_cancel send_cancel_trace split: prod.splits)
qed simp

lemma forwardings_ports:
  "TM_inv m \<Longrightarrow> \<forall>(k, f) \<in> set (m_forwardings m). 0 \<le> RemotePort f \<and> RemotePort f \<le> 65535"
  by (auto simp: TM_inv_def forwardings_filed_def mget_Some_iff)

lemma Stop_trace:
  assumes "TM_inv m" "m_connected m"
  shows "snd (Stop env m tr) =
    tr @ map (\<lambda>(k, f). wire_cancel m f) (m_forwardings m) @ [(m_flags m, EvClose)]"
proof -
  have c: "m_client m" using assms TM_inv_parts(1) by blast
  have "cancel_all env m (m_forwardings m) tr =
      (m, tr @ map (\<lambda>(k, f). wire_cancel m f) (m_forwardings m))"
    using cancel_all_state [of env m "m_forwardings m" tr]
      cancel_all_trace [OF forwardings_ports [OF assms(1)], of env m tr]
    by (metis prod.collapse)
  with c assms(2) show ?thesis by (simp add: Stop_def closeClient_def)
qed

text \<open>The requests of a start, before the answer is awaited.\<close>

definition start_events :: "SSHTunnelManager \<Rightarrow> ForwardingConfig \<Rightarrow> trace" where
  "start_events m fwd =
     (if m_captureReady m then [(m_flags m, EvAwaitCapture)] else []) @
     (if EnforcePort fwd then [wire_cancel m fwd] else []) @
     [wire_start m fwd]"

lemma start_request_trace:
  "0 \<le> RemotePort fwd \<Longrightarrow> RemotePort fwd \<le> 65535 \<Longrightarrow>
     snd (start_request env m fwd tr) =
       tr @ (if EnforcePort fwd then [wire_cancel m fwd] else []) @ [wire_start m fwd]"
  by (simp add: start_request_def sendForwardingOnce_trace cancelForwarding_trace)

lemma await_trace:
  assumes "awaitAssignedAddresses env m fwd key tr = (e, m', tr')"
    and "0 \<le> RemotePort fwd" "RemotePort fwd \<le> 65535"
  shows "tr' = tr @ (m_flags m, EvAwaitURIs key) # (if e = None then [] else [wire_cancel m fwd])"
  using assms(1)
  by (auto simp: awaitAssignedAddresses_def handleVerificationTimeout_def handleAssignedURIs_def Let_def
      cancelForwarding_trace [OF assms(2,3)] sendForwardingOnce_trace assms(2,3)
      split: option.splits if_splits prod.splits
      dest!: arg_cong [where f = snd and x = "sendForwardingOnce _ _ _ _ _"])

lemma start_trace:
  assumes "TM_inv m" "StartForwarding env fwd m tr = (e, m', tr')"
    and "0 \<le> RemotePort fwd" "RemotePort fwd \<le> 65535"
  obtains (refused) "e \<noteq> None" "(m_flags m, EvAwaitURIs (cfgKey fwd)) \<notin> set (drop (length tr) tr')"
  | (asked) "e \<noteq> None" "m' = m" "tr' = tr @ start_events m fwd @ [(m_flags m, EvAwaitURIs (cfgKey fwd)), wire_cancel m fwd]"
  | (granted) "e = None" "tr' = tr @ start_events m fwd @
      (if m_remoteAddrFunc m then [(m_flags m, EvAwaitURIs (cfgKey fwd))] else [])"
  using assms(2) TM_inv_parts(2) [OF assms(1)]
proof (cases rule: StartForwarding_cases)
  case offline
  with that(1) show ?thesis by simp
next
  case held
  with that(1) show ?thesis by simp
next
  case (failed err)
  define tr1 where "tr1 = (if m_captureReady m then tr @ [(m_flags m, EvAwaitCapture)] else tr)"
  obtain e3 tr3 where r: "start_request env m fwd tr1 = (e3, tr3)" by force
  then have t3: "tr3 = tr @ start_events m fwd"
    using start_request_trace [OF assms(3,4), of env m tr1] by (simp add: start_events_def tr1_def)
  consider (capture) "tr' = tr1" | (request) "tr' = tr3"
    | (await) "awaitAssignedAddresses env m fwd (cfgKey fwd) tr3 = (e, m', tr')"
    using failed r
    by (auto simp: sendForwarding_start_eq [OF TM_inv_parts(2) [OF assms(1)]] tr1_def [symmetric] Let_def
        split: if_splits option.splits)
  then show ?thesis
  proof cases
    case capture
    with failed show ?thesis by (intro that(1)) (auto simp: tr1_def)
  next
    case request
    with failed t3 show ?thesis by (intro that(1)) (auto simp: start_events_def)
  next
    case await
    with failed show ?thesis
      using await_trace [OF await assms(3,4)] t3 by (intro that(2)) simp_all
  qed
next
  case (started as)
  define tr1 where "tr1 = (if m_captureReady m then tr @ [(m_flags m, EvAwaitCapture)] else tr)"
  obtain e3 tr3 where r: "start_request env m fwd tr1 = (e3, tr3)" by force
  then have t3: "tr3 = tr @ start_events m fwd"
    using start_request_trace [OF assms(3,4), of env m tr1] by (simp add: start_events_def tr1_def)
  consider (plain) "\<not> m_remoteAddrFunc m" "tr' = tr3"
    | (await) m1 where "m_remoteAddrFunc m" "awaitAssignedAddresses env m fwd (cfgKey fwd) tr3 = (None, m1, tr')"
    using started(4) r
    by (auto simp: sendForwarding_start_eq [OF TM_inv_parts(2) [OF assms(1)]] tr1_def [symmetric] Let_def
        split: if_splits option.splits)
  then show ?thesis
  proof cases
    case plain
    with started t3 show ?thesis by (intro that(3)) simp_all
  next
    case await
    with started show ?thesis
      using await_trace [OF await(2) assms(3,4)] t3 by (intro that(3)) simp_all
  qed
qed

lemma StartForwarding_ok_port:
  assumes "TM_inv m" "StartForwarding env fwd m tr = (None, m', tr')"
  shows "0 \<le> RemotePort fwd \<and> RemotePort fwd \<le> 65535"
  using assms(2) TM_inv_parts(2) [OF assms(1)]
  by (cases rule: StartForwarding_cases) simp_all

text \<open>A request with a port out of range never reaches the wire.\<close>

lemma bad_port_no_await:
  assumes "TM_inv m" "StartForwarding env fwd m tr = (e, m', tr')"
    and "\<not> (0 \<le> RemotePort fwd \<and> RemotePort fwd \<le> 65535)"
  shows "(m_flags m, EvAwaitURIs (cfgKey fwd)) \<notin> set (drop (length tr) tr')"
proof -
  have once: "sendForwardingOnce env m f r t = (Some (Errorf (''invalid remote port '' @ Itoa (RemotePort f) @ '': must be between 0 and 65535'')), t)"
    if "RemotePort f = RemotePort fwd" for f r t
    using assms(3) that by (auto simp: sendForwardingOnce_def)
  then have "cancelForwarding env m h (RemotePort fwd) t = t" for h t
    by (simp add: cancelForwarding_def)
  with once have req: "start_request env m fwd t = (Some (Errorf (''invalid remote port '' @ Itoa (RemotePort fwd) @ '': must be between 0 and 65535'')), t)" for t
    by (simp add: start_request_def)
  have "sendForwarding env m fwd ForwardStart tr = (e1, m1, tr1) \<Longrightarrow>
      tr1 = (if m_captureReady m then tr @ [(m_flags m, EvAwaitCapture)] else tr)" for e1 m1 tr1
    by (auto simp: sendForwarding_start_eq [OF TM_inv_parts(2) [OF assms(1)]] req Let_def split: if_splits)
  with assms(2) TM_inv_parts(2) [OF assms(1)] show ?thesis
    by (cases rule: StartForwarding_cases) auto
qed

section \<open>A concrete session\<close>

text \<open>A server that grants every request and reports one address, and a manager driven by it.\<close>

definition demo_env :: ssh_env where
  "demo_env = \<lparr>e_dial = (\<lambda>fl tr cb. cb ''SHA256:demo''), e_capture = (\<lambda>fl tr. True),
     e_send = (\<lambda>fl tr t h p. Replied True), e_uris = (\<lambda>fl tr k. Some [''https://app.example.com'']),
     e_keepalive = (\<lambda>fl tr. SendTimedOut)\<rparr>"

definition demo_config :: SSHConnectionConfig where
  "demo_config = \<lparr>RemoteAddrFunc = True, ServerAddress = ''tuns.sh:22'', Username = ''u'',
     HostKey = ''SHA256:demo'', PrivateKey = ''k'', ConnectTimeout = 5000000000,
     FwdReqTimeout = 2000000000, KeepAliveInterval = 10000000000, AddressVerificationTimeout = 0,
     ConfigSessionFlags = noFlags, SessionLabel = ''plain''\<rparr>"

definition demo_fwd :: ForwardingConfig where
  "demo_fwd = \<lparr>RemoteHost = ''app.example.com'', InternalHost = ''web.default.svc.cluster.local'',
     RemotePort = 80, InternalPort = 90, EnforcePort = False\<rparr>"

definition demo_new :: SSHTunnelManager where
  "demo_new = (case NewSSHTunnelManager (\<lambda>k. None) demo_config of Inr m \<Rightarrow> m)"

definition demo_online :: mgr_state where
  "demo_online = snd (Connect demo_env demo_new [])"

definition demo_started :: mgr_state where
  "demo_started = snd (StartForwarding demo_env demo_fwd (fst demo_online) (snd demo_online))"

lemmas demo_defs = demo_env_def demo_config_def demo_fwd_def demo_new_def demo_online_def demo_started_def

lemma demo_new_eq: "NewSSHTunnelManager (\<lambda>k. None) demo_config = Inr demo_new"
  by (simp add: demo_new_def NewSSHTunnelManager_def Let_def)

lemma demo_online_eq: "Connect demo_env demo_new [] = (None, demo_online)"
  by (simp add: demo_online_def demo_new_def demo_config_def demo_env_def NewSSHTunnelManager_def
      Connect_def connectClient_def HostKeyCallback_def Let_def)

lemma demo_started_eq:
  "StartForwarding demo_env demo_fwd (fst demo_online) (snd demo_online) = (None, demo_started)"
  by code_simp

lemma demo_reachable: "mgr_reachable demo_env demo_online" "mgr_reachable demo_env demo_started"
proof -
  have "mgr_reachable demo_env (demo_new, [])" by (rule mgr_reachable.new [OF demo_new_eq])
  moreover have "mgr_step demo_env (demo_new, []) OpConnect demo_online"
    using mgr_step.connect [of demo_env demo_new "[]" None "fst demo_online" "snd demo_online"] demo_online_eq
    by simp
  ultimately show on: "mgr_reachable demo_env demo_online" by (rule mgr_reachable.step)
  have "mgr_step demo_env demo_online (OpStart demo_fwd) demo_started"
    using mgr_step.start [of demo_env demo_fwd "fst demo_online" "snd demo_online" None "fst demo_started" "snd demo_started"]
      demo_started_eq
    by simp
  with on show "mgr_reachable demo_env demo_started" by (rule mgr_reachable.step)
qed

section \<open>Properties\<close>

text \<open>
  C5. The invariant of the tunnel manager holds in every reachable state, for every server
  and every order of connects, starts, stops, shutdowns, keepalives and dial results.
\<close>

theorem tunnel_invariant: "mgr_reachable env s \<Longrightarrow> TM_inv (fst s)"
  by (rule mgr_reachable_inv_pair)

theorem tunnel_invariant_witness:
  "TM_inv (fst demo_started) \<and> map fst (m_forwardings (fst demo_started)) = [''app.example.com:80'']"
proof -
  have "map fst (m_forwardings (fst demo_started)) = [''app.example.com:80'']" by code_simp
  then show ?thesis using tunnel_invariant [OF demo_reachable(2)] by simp
qed

text \<open>
  In every reachable state, a held forwarding that asked for a specific hostname or an
  enforced port has assigned addresses, and they match what it asked for (where the manager
  collects addresses at all).
\<close>

theorem held_forwardings_verified:
  assumes "mgr_reachable env (m, tr)" "m_remoteAddrFunc m"
    and "mget (m_forwardings m) k = Some f" "needs_verification f"
  shows "MatchesRequestedHost (GetAssignedAddresses (RemoteHost f) (RemotePort f) m)
           (RemoteHost f) (RemotePort f) (EnforcePort f)"
proof -
  have inv: "TM_inv m" using mgr_reachable_inv_pair [OF assms(1)] by simp
  then have "k = cfgKey f"
    using assms(3) by (auto simp: TM_inv_def forwardings_filed_def)
  with inv assms(2-4) show ?thesis
    by (fastforce simp: TM_inv_def addrs_verified_def GetAssignedAddresses_def)
qed

theorem held_forwardings_verified_witness:
  "MatchesRequestedHost (GetAssignedAddresses ''app.example.com'' 80 (fst demo_started)) ''app.example.com'' 80 False"
proof -
  have r: "mgr_reachable demo_env (fst demo_started, snd demo_started)"
    using demo_reachable(2) by simp
  have "m_remoteAddrFunc (fst demo_started)"
      "mget (m_forwardings (fst demo_started)) ''app.example.com:80'' = Some demo_fwd"
      "needs_verification demo_fwd"
    by code_simp+
  from held_forwardings_verified [OF r this] show ?thesis by (simp add: demo_fwd_def)
qed

text \<open>
  C9. Refinement: every step of the manager is a step of the abstract session, whose only
  content is whether it is online and which forwardings it holds.
\<close>

theorem tunnel_refines_session:
  assumes "TM_inv m" "mgr_step env (m, tr) op (m', tr')"
  shows "spec_step (abs_session m) op (abs_session m')"
  using assms(2)
  by (elim mgr_stepE)
    (auto simp del: spec_step.simps simp: refine_dial
      intro: refine_connect refine_start refine_stop refine_shutdown refine_tick refine_answer assms(1))

theorem tunnel_refines_session_witness:
  "spec_step (Some Map.empty) (OpStart demo_fwd) (abs_session (fst demo_started)) \<and>
   abs_session (fst demo_started) \<noteq> Some Map.empty"
proof -
  have inv: "TM_inv (fst demo_online)" by (rule mgr_reachable_inv_pair [OF demo_reachable(1)])
  have step: "mgr_step demo_env (fst demo_online, snd demo_online) (OpStart demo_fwd)
      (fst demo_started, snd demo_started)"
    using mgr_step.start demo_started_eq by (metis prod.collapse)
  have on: "m_connected (fst demo_online)" "m_forwardings (fst demo_online) = []" by code_simp+
  have held: "m_connected (fst demo_started)" "mget (m_forwardings (fst demo_started)) ''app.example.com:80'' \<noteq> None"
    by code_simp+
  show ?thesis
    using tunnel_refines_session [OF inv step] on held by (auto simp: tm_active_def)
qed

text \<open>
  C14. A start that fails leaks nothing: it leaves the manager as it was, and if the server had
  already granted the request (so that its address was awaited), the last thing on the wire
  is the cancellation of the very host and port that were requested.
\<close>

theorem failed_start_releases:
  assumes "TM_inv m" "StartForwarding env fwd m tr = (Some err, m', tr')"
  shows "m' = m \<and>
    ((m_flags m, EvAwaitURIs (cfgKey fwd)) \<in> set (drop (length tr) tr') \<longrightarrow> last tr' = wire_cancel m fwd)"
proof (cases "0 \<le> RemotePort fwd \<and> RemotePort fwd \<le> 65535")
  case True
  have "m' = m" using tm.start_fail [of m env fwd tr err m' tr'] assms by simp
  with True show ?thesis
    by (cases rule: start_trace [OF assms]) auto
next
  case False
  then show ?thesis
    using tm.start_fail [of m env fwd tr err m' tr'] bad_port_no_await [OF assms] assms by simp
qed

theorem failed_start_releases_witness:
  "fst (snd (StartForwarding (demo_env\<lparr>e_uris := (\<lambda>fl tr k. Some [''https://other.example.com''])\<rparr>)
      demo_fwd (fst demo_online) (snd demo_online))) = fst demo_online \<and>
   last (snd (snd (StartForwarding (demo_env\<lparr>e_uris := (\<lambda>fl tr k. Some [''https://other.example.com''])\<rparr>)
      demo_fwd (fst demo_online) (snd demo_online)))) = wire_cancel (fst demo_online) demo_fwd"
proof -
  let ?env = "demo_env\<lparr>e_uris := (\<lambda>fl tr k. Some [''https://other.example.com''])\<rparr>"
  let ?r = "StartForwarding ?env demo_fwd (fst demo_online) (snd demo_online)"
  have inv: "TM_inv (fst demo_online)" by (rule mgr_reachable_inv_pair [OF demo_reachable(1)])
  have e: "?r = (Some (Errorf ''wrong hostname assigned: [https://other.example.com]''), fst (snd ?r), snd (snd ?r))"
    by code_simp
  have a: "List.member (drop (length (snd demo_online)) (snd (snd ?r)))
      (m_flags (fst demo_online), EvAwaitURIs (cfgKey demo_fwd))"
    by code_simp
  show ?thesis using failed_start_releases [OF inv e] a by simp
qed

text \<open>
  C33. A start that succeeds has put exactly this on the wire: the wait for the capture
  session, the pre-emptive cancellation when the port is enforced, one tcpip-forward for
  the requested host and port, and the wait for the addresses; and the forwarding is then
  held under its key.
\<close>

theorem successful_start_wire:
  assumes "TM_inv m" "StartForwarding env fwd m tr = (None, m', tr')"
  shows "tr' = tr @ start_events m fwd @ (if m_remoteAddrFunc m then [(m_flags m, EvAwaitURIs (cfgKey fwd))] else []) \<and>
    m_forwardings m' = mput (cfgKey fwd) fwd (m_forwardings m) \<and>
    mget (m_forwardings m) (cfgKey fwd) = None"
proof -
  have "m_forwardings m' = mput (cfgKey fwd) fwd (m_forwardings m) \<and> mget (m_forwardings m) (cfgKey fwd) = None"
    using assms(2) TM_inv_parts(2) [OF assms(1)] by (cases rule: StartForwarding_cases) simp_all
  then show ?thesis
    using StartForwarding_ok_port [OF assms] by (cases rule: start_trace [OF assms]) auto
qed

theorem successful_start_wire_witness:
  "snd demo_started = snd demo_online @
     [(noFlags, EvAwaitCapture), (noFlags, EvSend ''tcpip-forward'' ''app.example.com'' 80),
      (noFlags, EvAwaitURIs ''app.example.com:80'')]"
proof -
  have inv: "TM_inv (fst demo_online)" by (rule mgr_reachable_inv_pair [OF demo_reachable(1)])
  have e: "StartForwarding demo_env demo_fwd (fst demo_online) (snd demo_online)
      = (None, fst demo_started, snd demo_started)"
    using demo_started_eq by simp
  have "m_captureReady (fst demo_online)" "m_flags (fst demo_online) = noFlags"
      "m_remoteAddrFunc (fst demo_online)" "cfgKey demo_fwd = ''app.example.com:80''"
    by code_simp+
  then show ?thesis
    using successful_start_wire [OF inv e] by (simp add: start_events_def demo_fwd_def)
qed

text \<open>
  C31. Stopping a held forwarding always forgets it and its addresses and sends one cancellation
  for the host and port it was started with, also when the server refuses or does not answer.
\<close>

theorem stop_always_forgets:
  assumes "TM_inv m" "m_connected m" "mget (m_forwardings m) (cfgKey fwd) = Some held"
    and "StopForwarding env fwd m tr = (e, m', tr')"
  shows "m_forwardings m' = mdel (cfgKey fwd) (m_forwardings m) \<and>
    GetAssignedAddresses (RemoteHost fwd) (RemotePort fwd) m' = [] \<and>
    tr' = tr @ [wire_cancel m held]"
  using assms(4)
proof (cases rule: StopForwarding_cases)
  case (removed old d)
  have p: "0 \<le> RemotePort old \<and> RemotePort old \<le> 65535"
    using assms(1) removed(3) by (auto simp: TM_inv_def forwardings_filed_def)
  have "tr' = snd (sendForwardingOnce env m old ForwardCancel tr)"
    using removed(5) by (metis snd_conv)
  with p removed assms(3) show ?thesis
    by (simp add: send_cancel_trace GetAssignedAddresses_def)
qed (use assms in auto)

theorem stop_always_forgets_witness:
  "m_forwardings (fst (snd (StopForwarding (demo_env\<lparr>e_send := (\<lambda>fl tr t h p. Replied False)\<rparr>)
     demo_fwd (fst demo_started) (snd demo_started)))) = []"
proof -
  let ?env = "demo_env\<lparr>e_send := (\<lambda>fl tr t h p. Replied False)\<rparr>"
  let ?r = "StopForwarding ?env demo_fwd (fst demo_started) (snd demo_started)"
  have inv: "TM_inv (fst demo_started)" by (rule mgr_reachable_inv_pair [OF demo_reachable(2)])
  have h: "m_connected (fst demo_started)" "mget (m_forwardings (fst demo_started)) (cfgKey demo_fwd) = Some demo_fwd"
    by code_simp+
  have e: "?r = (fst ?r, fst (snd ?r), snd (snd ?r))" by simp
  have "mdel (cfgKey demo_fwd) (m_forwardings (fst demo_started)) = []" by code_simp
  then show ?thesis using stop_always_forgets [OF inv h e] by simp
qed

text \<open>
  C32. Shutting an online manager down sends exactly one cancellation per held forwarding and
  then closes the connection; afterwards it is offline and holds nothing.
\<close>

theorem shutdown_releases_all:
  assumes "TM_inv m" "m_connected m" "Stop env m tr = (m', tr')"
  shows "tr' = tr @ map (\<lambda>(k, f). wire_cancel m f) (m_forwardings m) @ [(m_flags m, EvClose)] \<and>
    \<not> m_connected m' \<and> m_forwardings m' = [] \<and> m_assignedAddrs m' = []"
  using Stop_trace [OF assms(1,2), of env tr] Stop_state [of env m tr] assms(2,3) by simp

theorem shutdown_releases_all_witness:
  "snd (Stop demo_env (fst demo_started) (snd demo_started)) = snd demo_started @
     [(noFlags, EvSend ''cancel-tcpip-forward'' ''app.example.com'' 80), (noFlags, EvClose)]"
proof -
  have inv: "TM_inv (fst demo_started)" by (rule mgr_reachable_inv_pair [OF demo_reachable(2)])
  have h: "m_connected (fst demo_started)" "m_forwardings (fst demo_started) = [(''app.example.com:80'', demo_fwd)]"
      "m_flags (fst demo_started) = noFlags"
    by code_simp+
  show ?thesis
    using shutdown_releases_all [OF inv h(1), of demo_env "snd demo_started"] h(2,3)
    by (cases "Stop demo_env (fst demo_started) (snd demo_started)") (simp add: demo_fwd_def)
qed

text \<open>
  After a lost keepalive and a successful reconnect, no forwarding of the old connection
  is known any more: stopping any of them answers that it was not found.
\<close>

theorem reconnect_forgets_forwardings:
  assumes "TM_inv m" "monitorTick env m tr = (b, m1, tr1)" "\<not> m_connected m1"
    and "Connect env m1 tr1 = (None, m2, tr2)"
  shows "StopForwarding env fwd m2 tr2 = (Some (ErrSSHForwardingNotFound (cfgKey fwd)), m2, tr2)"
proof -
  have inv1: "TM_inv m1" by (rule TM_inv_monitorTick [OF assms(1,2)])
  have inv2: "TM_inv m2" by (rule TM_inv_Connect [OF inv1 assms(4)])
  have "tm_active m2 = tm_active m1"
    using tm.connect_active [of m1 env tr1 None m2 tr2] inv1 assms(4) by simp
  moreover have "IsConnected m2"
    using tm.connect_ok [of m1 env tr1 m2 tr2] inv1 assms(4) by simp
  ultimately show ?thesis
    using tm.stop_missing [of m2 env fwd tr2] inv2 TM_inv_parts(5) [OF inv1 assms(3)]
    by (simp add: tm_active_def)
qed

theorem reconnect_forgets_forwardings_witness:
  "(let (b, m1, tr1) = monitorTick demo_env (fst demo_started) (snd demo_started);
        (e, m2, tr2) = Connect demo_env m1 tr1
    in fst (StopForwarding demo_env demo_fwd m2 tr2)) = Some (ErrSSHForwardingNotFound ''app.example.com:80'')"
proof -
  let ?t = "monitorTick demo_env (fst demo_started) (snd demo_started)"
  let ?c = "Connect demo_env (fst (snd ?t)) (snd (snd ?t))"
  have inv: "TM_inv (fst demo_started)" by (rule mgr_reachable_inv_pair [OF demo_reachable(2)])
  have t: "?t = (fst ?t, fst (snd ?t), snd (snd ?t))" by simp
  have off: "\<not> m_connected (fst (snd ?t))" by code_simp
  have "fst ?c = None" by code_simp
  then have c: "?c = (None, fst (snd ?c), snd (snd ?c))" by (metis prod.collapse)
  have k: "cfgKey demo_fwd = ''app.example.com:80''" by code_simp
  show ?thesis
    using reconnect_forgets_forwardings [OF inv t off c, of demo_fwd]
    by (simp add: Let_def split_beta k)
qed

text \<open>
  With a pinned host key, a manager comes online only with a server that presents that
  key, for every dial function that consults the callback of the client configuration (as
  the dial of the SSH library does: it fails when the callback refuses the key).
\<close>

theorem pinned_host_key_enforced:
  assumes "\<And>fl t cb. e_dial env fl t cb = None \<Longrightarrow> cb server_fingerprint = None"
    and "m_hostKey m \<noteq> []" "\<not> m_connected m" "Connect env m tr = (e, m', tr')" "m_connected m'"
  shows "server_fingerprint = m_hostKey m"
proof -
  have "e_dial env (m_flags m) tr (HostKeyCallback m) = None"
    using assms(3-5) by (auto simp: Connect_def connectClient_def split: option.splits)
  then have "HostKeyCallback m server_fingerprint = None" by (rule assms(1))
  with assms(2) show ?thesis by (simp add: HostKeyCallback_def split: if_splits)
qed

theorem pinned_host_key_enforced_witness: "''SHA256:demo'' = m_hostKey demo_new"
proof (rule pinned_host_key_enforced [where env = demo_env and m = demo_new and tr = "[]"
      and e = None and m' = "fst demo_online" and tr' = "snd demo_online"])
  show "\<And>fl t cb. e_dial demo_env fl t cb = None \<Longrightarrow> cb ''SHA256:demo'' = None"
    by (simp add: demo_env_def)
  show "Connect demo_env demo_new [] = (None, fst demo_online, snd demo_online)"
    using demo_online_eq by simp
qed (code_simp)+

end
