(* ===== verification/Channel_Handling.thy ===== *)
theory Channel_Handling
  imports Tunnel_Runs "HOL-Library.Sublist"
begin

text \<open>
  \<open>handleChannels\<close> of \<open>ssh/ssh_tunnel_manager.go\<close>: what is done with a channel that the SSH
  server opens, the dial to the backend, and the two copy loops of an accepted channel.
  Parsing the channel's extra data is the SSH library's, so a channel comes with its parsed
  payload or the parse error.
\<close>

section \<open>Dispatching a channel\<close>

record forwardedTCPPayload =
  pl_Addr :: string
  pl_Port :: "32 word"
  pl_OriginAddr :: string
  pl_OriginPort :: "32 word"

record new_channel =
  ChannelType :: string
  ExtraData :: "go_error + forwardedTCPPayload"

datatype channel_action =
    RejectUnparsable string
  | AcceptFor ForwardingConfig string
  | RejectOrphan string "32 word"
  | RejectUnknownType

definition handleChannel :: "SSHTunnelManager \<Rightarrow> new_channel \<Rightarrow> channel_action" where
  "handleChannel m ch =
     (if ChannelType ch = ''forwarded-tcpip'' then
        (case ExtraData ch of
           Inl err \<Rightarrow> RejectUnparsable (''could not parse forwarded-tcpip payload: '' @ ErrorText err)
         | Inr payload \<Rightarrow>
             (case mget (m_forwardings m) (forwardingKey (pl_Addr payload) (uint (pl_Port payload))) of
                Some fwd \<Rightarrow> AcceptFor fwd (JoinHostPort (InternalHost fwd) (Itoa (InternalPort fwd)))
              | None \<Rightarrow> RejectOrphan (pl_Addr payload) (pl_Port payload)))
      else RejectUnknownType)"

text \<open>The goroutine that asks the server to release an orphan forwarding.\<close>

definition cancelOrphan :: "ssh_env \<Rightarrow> SSHTunnelManager \<Rightarrow> string \<Rightarrow> 32 word \<Rightarrow> trace \<Rightarrow> trace" where
  "cancelOrphan env m addr port tr =
     (if \<not> m_connected m \<or> \<not> m_client m then tr
      else cancelForwarding env m addr (uint port) tr)"

text \<open>
  The goroutine of an accepted channel: accept, dial the backend, keep the failure statistics;
  the first component tells whether the copy loops are started.
\<close>

definition serveChannel ::
  "go_error option \<Rightarrow> go_error option \<Rightarrow> int \<Rightarrow> string \<Rightarrow> dial_map \<Rightarrow> bool \<times> dial_log option \<times> dial_map" where
  "serveChannel acceptErr localErr now addr dialErrors =
     (if acceptErr \<noteq> None then (False, None, dialErrors)
      else if localErr \<noteq> None then
        (let (l, d) = logBackendDialError now addr dialErrors in (False, Some l, d))
      else (True, None, recordBackendDialSuccess addr dialErrors))"

text \<open>The goroutine that discards the requests on an accepted channel: its replies.\<close>

fun discardRequests :: "(string \<times> bool) list \<Rightarrow> bool list" where
  "discardRequests [] = []"
| "discardRequests ((reqType, WantReply) # reqs) =
     (if WantReply then False # discardRequests reqs else discardRequests reqs)"

text \<open>
  The loop: what its \<open>select\<close> receives, each with the manager as it is at that moment. It
  ends with the connection or with a nil channel, which is what a closed Go channel yields.
\<close>

datatype channel_input = ConnectionDone | ChannelOpened "new_channel option"

fun channelLoop :: "(SSHTunnelManager \<times> channel_input) list \<Rightarrow> channel_action list" where
  "channelLoop [] = []"
| "channelLoop ((m, ConnectionDone) # inputs) = []"
| "channelLoop ((m, ChannelOpened None) # inputs) = []"
| "channelLoop ((m, ChannelOpened (Some ch)) # inputs) = handleChannel m ch # channelLoop inputs"

definition handleChannels :: "SSHTunnelManager \<Rightarrow> (SSHTunnelManager \<times> channel_input) list \<Rightarrow> channel_action list" where
  "handleChannels m inputs = (if \<not> m_client m then [] else channelLoop inputs)"

text \<open>Every channel that arrives before the loop ends is answered once, in order.\<close>

definition served_before :: "(SSHTunnelManager \<times> channel_input) list \<Rightarrow> (SSHTunnelManager \<times> channel_input) list" where
  "served_before inputs = takeWhile (\<lambda>(m, i). \<exists>ch. i = ChannelOpened (Some ch)) inputs"

lemma channelLoop_once:
  "list_all2 (\<lambda>(m, i) a. \<exists>ch. i = ChannelOpened (Some ch) \<and> a = handleChannel m ch)
     (served_before inputs) (channelLoop inputs)"
  by (induction inputs rule: channelLoop.induct) (auto simp: served_before_def)

section \<open>The copy loops\<close>

text \<open>
  Two goroutines copy between the channel (remote) and the backend connection (local), and a
  third waits for both. \<open>io.Copy\<close> reads what has arrived and writes it to the other side; it
  returns when its source is at its end or either side fails, which may be at any time, also
  after part of what was read has been written, and must when a connection was closed. Its
  goroutine then closes both connections, its destination first, in two further steps, between
  which anything else may happen; the peers may send at any time. A connection counts as open
  until it is closed here.
\<close>

datatype copy_phase = Copying | CopyEnded | ClosedOne | LoopDone

record proxy =
  remoteOpen :: bool
  localOpen :: bool
  outPhase :: copy_phase
  inPhase :: copy_phase
  proxyClosed :: bool
  remoteSent :: string
  remoteRead :: nat
  localGot :: string
  localSent :: string
  localRead :: nat
  remoteGot :: string

definition proxy_start :: proxy where
  "proxy_start = \<lparr>remoteOpen = True, localOpen = True, outPhase = Copying, inPhase = Copying, proxyClosed = False,
     remoteSent = [], remoteRead = 0, localGot = [], localSent = [], localRead = 0, remoteGot = []\<rparr>"

definition copy_out :: "nat \<Rightarrow> nat \<Rightarrow> proxy \<Rightarrow> proxy" where
  "copy_out n w p = p\<lparr>localRead := localRead p + n,
     remoteGot := remoteGot p @ take w (take n (drop (localRead p) (localSent p)))\<rparr>"

definition copy_in :: "nat \<Rightarrow> nat \<Rightarrow> proxy \<Rightarrow> proxy" where
  "copy_in n w p = p\<lparr>remoteRead := remoteRead p + n,
     localGot := localGot p @ take w (take n (drop (remoteRead p) (remoteSent p)))\<rparr>"

text \<open>What a copy that reads \<open>n\<close> bytes and writes \<open>w\<close> of them needs: an open source and destination.\<close>

definition can_copy :: "bool \<Rightarrow> bool \<Rightarrow> nat \<Rightarrow> string \<Rightarrow> nat \<Rightarrow> nat \<Rightarrow> bool" where
  "can_copy srcOpen dstOpen pos sent n w \<longleftrightarrow>
     (n = 0 \<or> srcOpen \<and> pos + n \<le> length sent) \<and> (w = 0 \<or> dstOpen \<and> w \<le> n)"

text \<open>The steps of the program itself; \<open>wait\<close> is the third goroutine, whose deferred closes find both
  connections closed.\<close>

inductive proxy_own :: "proxy \<Rightarrow> proxy \<Rightarrow> bool" where
  out_ends: "outPhase p = Copying \<Longrightarrow> can_copy (localOpen p) (remoteOpen p) (localRead p) (localSent p) n w \<Longrightarrow>
     proxy_own p ((copy_out n w p)\<lparr>outPhase := CopyEnded\<rparr>)"
| out_closes_remote: "outPhase p = CopyEnded \<Longrightarrow> proxy_own p (p\<lparr>outPhase := ClosedOne, remoteOpen := False\<rparr>)"
| out_closes_local: "outPhase p = ClosedOne \<Longrightarrow> proxy_own p (p\<lparr>outPhase := LoopDone, localOpen := False\<rparr>)"
| in_ends: "inPhase p = Copying \<Longrightarrow> can_copy (remoteOpen p) (localOpen p) (remoteRead p) (remoteSent p) n w \<Longrightarrow>
     proxy_own p ((copy_in n w p)\<lparr>inPhase := CopyEnded\<rparr>)"
| in_closes_local: "inPhase p = CopyEnded \<Longrightarrow> proxy_own p (p\<lparr>inPhase := ClosedOne, localOpen := False\<rparr>)"
| in_closes_remote: "inPhase p = ClosedOne \<Longrightarrow> proxy_own p (p\<lparr>inPhase := LoopDone, remoteOpen := False\<rparr>)"
| wait: "outPhase p = LoopDone \<Longrightarrow> inPhase p = LoopDone \<Longrightarrow> \<not> proxyClosed p \<Longrightarrow>
     proxy_own p (p\<lparr>proxyClosed := True, localOpen := False, remoteOpen := False\<rparr>)"

inductive proxy_step :: "proxy \<Rightarrow> proxy \<Rightarrow> bool" where
  own: "proxy_own p q \<Longrightarrow> proxy_step p q"
| remote_sends: "proxy_step p (p\<lparr>remoteSent := remoteSent p @ d\<rparr>)"
| local_sends: "proxy_step p (p\<lparr>localSent := localSent p @ d\<rparr>)"
| out_copies: "outPhase p = Copying \<Longrightarrow> can_copy (localOpen p) (remoteOpen p) (localRead p) (localSent p) n n \<Longrightarrow>
     proxy_step p (copy_out n n p)"
| in_copies: "inPhase p = Copying \<Longrightarrow> can_copy (remoteOpen p) (localOpen p) (remoteRead p) (remoteSent p) n n \<Longrightarrow>
     proxy_step p (copy_in n n p)"

inductive proxy_reachable :: "proxy \<Rightarrow> bool" where
  start: "proxy_reachable proxy_start"
| step: "proxy_reachable p \<Longrightarrow> proxy_step p q \<Longrightarrow> proxy_reachable q"

text \<open>Which connections are open is decided by how far the two goroutines have got.\<close>

definition proxy_conns_ok :: "proxy \<Rightarrow> bool" where
  "proxy_conns_ok p \<longleftrightarrow>
     (remoteOpen p \<longleftrightarrow> outPhase p \<in> {Copying, CopyEnded} \<and> inPhase p \<noteq> LoopDone) \<and>
     (localOpen p \<longleftrightarrow> inPhase p \<in> {Copying, CopyEnded} \<and> outPhase p \<noteq> LoopDone) \<and>
     (proxyClosed p \<longrightarrow> outPhase p = LoopDone \<and> inPhase p = LoopDone)"

lemma copy_simps [simp]:
  "remoteOpen (copy_out n w p) = remoteOpen p" "remoteOpen (copy_in n w p) = remoteOpen p"
  "localOpen (copy_out n w p) = localOpen p" "localOpen (copy_in n w p) = localOpen p"
  "outPhase (copy_out n w p) = outPhase p" "outPhase (copy_in n w p) = outPhase p"
  "inPhase (copy_out n w p) = inPhase p" "inPhase (copy_in n w p) = inPhase p"
  "proxyClosed (copy_out n w p) = proxyClosed p" "proxyClosed (copy_in n w p) = proxyClosed p"
  by (simp_all add: copy_out_def copy_in_def)

lemma proxy_conns_own: "proxy_own p q \<Longrightarrow> proxy_conns_ok p \<Longrightarrow> proxy_conns_ok q"
  by (induction rule: proxy_own.induct) (simp_all add: proxy_conns_ok_def)

lemma proxy_conns_step: "proxy_step p q \<Longrightarrow> proxy_conns_ok p \<Longrightarrow> proxy_conns_ok q"
  by (induction rule: proxy_step.induct) (simp_all add: proxy_conns_own, simp_all add: proxy_conns_ok_def)

lemma proxy_conns: "proxy_reachable p \<Longrightarrow> proxy_conns_ok p"
proof (induction rule: proxy_reachable.induct)
  case start
  show ?case by (simp add: proxy_conns_ok_def proxy_start_def)
qed (rule proxy_conns_step)

text \<open>How many steps of its own a proxy can still take; each takes one off.\<close>

fun phase_left :: "copy_phase \<Rightarrow> nat" where
  "phase_left Copying = 3" | "phase_left CopyEnded = 2" | "phase_left ClosedOne = 1" | "phase_left LoopDone = 0"

definition steps_left :: "proxy \<Rightarrow> nat" where
  "steps_left p = phase_left (outPhase p) + phase_left (inPhase p) + (if proxyClosed p then 0 else 1)"

lemma own_takes_one: "proxy_own p q \<Longrightarrow> steps_left p = Suc (steps_left q)"
  by (induction rule: proxy_own.induct) (simp_all add: steps_left_def)

lemma can_stop: "can_copy srcOpen dstOpen pos sent 0 0"
  by (simp add: can_copy_def)

text \<open>
  A step that the program owes: one of its closes, or the end of a copy between two connections
  that it has closed, where the blocking read or write fails.
\<close>

definition owed :: "proxy \<Rightarrow> proxy \<Rightarrow> bool" where
  "owed p q \<longleftrightarrow> proxy_own p q \<and>
     (outPhase p = Copying \<and> outPhase q \<noteq> Copying \<or> inPhase p = Copying \<and> inPhase q \<noteq> Copying \<longrightarrow>
        \<not> remoteOpen p \<and> \<not> localOpen p)"

lemma owedI:
  "proxy_own p q \<Longrightarrow> outPhase q = outPhase p \<or> outPhase p \<noteq> Copying \<Longrightarrow>
   inPhase q = inPhase p \<or> inPhase p \<noteq> Copying \<Longrightarrow> \<exists>q. owed p q"
  unfolding owed_def by metis

lemma owed_close:
  "outPhase p = CopyEnded \<Longrightarrow> \<exists>q. owed p q" "outPhase p = ClosedOne \<Longrightarrow> \<exists>q. owed p q"
  "inPhase p = CopyEnded \<Longrightarrow> \<exists>q. owed p q" "inPhase p = ClosedOne \<Longrightarrow> \<exists>q. owed p q"
  "outPhase p = LoopDone \<Longrightarrow> inPhase p = LoopDone \<Longrightarrow> \<not> proxyClosed p \<Longrightarrow> \<exists>q. owed p q"
  by (rule owedI [OF proxy_own.out_closes_remote] owedI [OF proxy_own.out_closes_local]
      owedI [OF proxy_own.in_closes_local] owedI [OF proxy_own.in_closes_remote] owedI [OF proxy_own.wait]; simp; fail)+

lemma owed_end:
  "\<not> remoteOpen p \<Longrightarrow> \<not> localOpen p \<Longrightarrow> outPhase p = Copying \<or> inPhase p = Copying \<Longrightarrow> \<exists>q. owed p q"
  unfolding owed_def using proxy_own.out_ends [OF _ can_stop, of p] proxy_own.in_ends [OF _ can_stop, of p] by blast

lemma owed_exists:
  assumes "proxy_conns_ok p" "outPhase p \<noteq> Copying \<or> inPhase p \<noteq> Copying" "\<not> proxyClosed p"
  shows "\<exists>q. owed p q"
  using assms owed_close [of p] owed_end [of p] unfolding proxy_conns_ok_def
  by (cases "outPhase p"; cases "inPhase p") simp_all

text \<open>The bytes: what a side has received is a beginning of what the other side sent.\<close>

definition copied_ok :: "bool \<Rightarrow> string \<Rightarrow> nat \<Rightarrow> string \<Rightarrow> bool" where
  "copied_ok copying sent n got \<longleftrightarrow>
     n \<le> length sent \<and> prefix got (take n sent) \<and> (copying \<longrightarrow> got = take n sent)"

lemma copied_ok_prefix: "copied_ok c s n g \<Longrightarrow> prefix g s"
  unfolding copied_ok_def by (meson prefix_order.trans take_is_prefix)

lemma copied_ok_more: "copied_ok c s n g \<Longrightarrow> copied_ok c (s @ d) n g"
  by (simp add: copied_ok_def)

lemma copied_ok_end:
  assumes "copied_ok True s n g" "can_copy so d n s k w"
  shows "copied_ok False s (n + k) (g @ take w (take k (drop n s)))"
proof -
  have "n + k \<le> length s" using assms by (auto simp: can_copy_def copied_ok_def)
  moreover have "take (n + k) s = g @ take k (drop n s)" using assms(1) by (simp add: copied_ok_def take_add)
  ultimately show ?thesis
    using take_is_prefix [of w "take k (drop n s)"] by (simp add: copied_ok_def del: take_take)
qed

lemma copied_ok_copy:
  assumes "copied_ok True s n g" "can_copy so d n s k k"
  shows "copied_ok True s (n + k) (g @ take k (drop n s))"
  using assms by (auto simp: copied_ok_def can_copy_def take_add)

definition proxy_bytes_ok :: "proxy \<Rightarrow> bool" where
  "proxy_bytes_ok p \<longleftrightarrow>
     copied_ok (outPhase p = Copying) (localSent p) (localRead p) (remoteGot p) \<and>
     copied_ok (inPhase p = Copying) (remoteSent p) (remoteRead p) (localGot p)"

lemma proxy_bytes_own: "proxy_own p q \<Longrightarrow> proxy_bytes_ok p \<Longrightarrow> proxy_bytes_ok q"
proof (induction rule: proxy_own.induct)
  case (out_ends p n w)
  from out_ends copied_ok_end [of "localSent p" "localRead p" "remoteGot p" _ _ n w] show ?case
    by (simp add: proxy_bytes_ok_def) (simp add: copy_out_def)
next
  case (in_ends p n w)
  from in_ends copied_ok_end [of "remoteSent p" "remoteRead p" "localGot p" _ _ n w] show ?case
    by (simp add: proxy_bytes_ok_def) (simp add: copy_in_def)
qed (simp_all add: proxy_bytes_ok_def)

lemma proxy_bytes_step: "proxy_step p q \<Longrightarrow> proxy_bytes_ok p \<Longrightarrow> proxy_bytes_ok q"
proof (induction rule: proxy_step.induct)
  case (out_copies p n)
  from out_copies copied_ok_copy [of "localSent p" "localRead p" "remoteGot p" _ _ n] show ?case
    by (simp add: proxy_bytes_ok_def) (simp add: copy_out_def)
next
  case (in_copies p n)
  from in_copies copied_ok_copy [of "remoteSent p" "remoteRead p" "localGot p" _ _ n] show ?case
    by (simp add: proxy_bytes_ok_def) (simp add: copy_in_def)
qed (simp_all add: proxy_bytes_own, simp_all add: proxy_bytes_ok_def copied_ok_more)

lemma proxied_bytes: "proxy_reachable p \<Longrightarrow> prefix (localGot p) (remoteSent p) \<and> prefix (remoteGot p) (localSent p)"
proof -
  assume "proxy_reachable p"
  then have "proxy_bytes_ok p"
  proof (induction rule: proxy_reachable.induct)
    case start
    show ?case by (simp add: proxy_bytes_ok_def proxy_start_def copied_ok_def)
  qed (rule proxy_bytes_step)
  then show ?thesis by (auto simp: proxy_bytes_ok_def intro: copied_ok_prefix)
qed

section \<open>Properties\<close>

text \<open>
  What is registered is what is served: when the server opens a channel for the host and the
  32-bit port that were put on the wire for a held forwarding, the channel is accepted for
  that forwarding and its backend is dialled.
\<close>

theorem registered_channel_served:
  assumes "TM_inv m" "mget (m_forwardings m) k = Some f"
  shows "handleChannel m \<lparr>ChannelType = ''forwarded-tcpip'',
      ExtraData = Inr \<lparr>pl_Addr = RemoteHost f, pl_Port = word_of_int (RemotePort f),
        pl_OriginAddr = oa, pl_OriginPort = op\<rparr>\<rparr>
    = AcceptFor f (JoinHostPort (InternalHost f) (Itoa (InternalPort f)))"
proof -
  have k: "k = cfgKey f" and p: "0 \<le> RemotePort f" "RemotePort f \<le> 65535"
    using assms by (auto simp: TM_inv_def forwardings_filed_def)
  have "uint (word_of_int (RemotePort f) :: 32 word) = RemotePort f"
    using p by (simp add: uint_word_of_int)
  with k assms(2) show ?thesis by (simp add: handleChannel_def)
qed

theorem registered_channel_served_witness:
  "handleChannel (fst demo_started) \<lparr>ChannelType = ''forwarded-tcpip'',
      ExtraData = Inr \<lparr>pl_Addr = ''app.example.com'', pl_Port = 80, pl_OriginAddr = [], pl_OriginPort = 0\<rparr>\<rparr>
    = AcceptFor demo_fwd ''web.default.svc.cluster.local:90''"
proof -
  have inv: "TM_inv (fst demo_started)" by (rule mgr_reachable_inv_pair [OF demo_reachable(2)])
  have h: "mget (m_forwardings (fst demo_started)) ''app.example.com:80'' = Some demo_fwd" by code_simp
  have b: "JoinHostPort (InternalHost demo_fwd) (Itoa (InternalPort demo_fwd)) = ''web.default.svc.cluster.local:90''"
    by code_simp
  show ?thesis
    using registered_channel_served [OF inv h, of "[]" 0] unfolding b by (simp add: demo_fwd_def)
qed

text \<open>
  C19. Traffic only goes where a route was attached: a channel is accepted only for a forwarding
  that is held, under the address and port that the channel names, and the address dialled
  is that forwarding's backend.
\<close>

theorem accepted_only_registered:
  assumes "TM_inv m" "handleChannel m ch = AcceptFor f addr"
  shows "\<exists>payload. ExtraData ch = Inr payload \<and> ChannelType ch = ''forwarded-tcpip'' \<and>
    mget (m_forwardings m) (cfgKey f) = Some f \<and>
    RemoteHost f = pl_Addr payload \<and> RemotePort f = uint (pl_Port payload) \<and>
    addr = JoinHostPort (InternalHost f) (Itoa (InternalPort f))"
proof -
  obtain payload where ch: "ExtraData ch = Inr payload" "ChannelType ch = ''forwarded-tcpip''"
    and f: "mget (m_forwardings m) (forwardingKey (pl_Addr payload) (uint (pl_Port payload))) = Some f"
    and a: "addr = JoinHostPort (InternalHost f) (Itoa (InternalPort f))"
    using assms(2) by (auto simp: handleChannel_def split: if_splits sum.splits option.splits)
  have "forwardingKey (pl_Addr payload) (uint (pl_Port payload)) = cfgKey f"
    using assms(1) f by (auto simp: TM_inv_def forwardings_filed_def)
  with ch f a show ?thesis by (auto simp: forwardingKey_inject)
qed

theorem accepted_only_registered_witness:
  "mget (m_forwardings (fst demo_started)) (cfgKey demo_fwd) = Some demo_fwd"
proof -
  have inv: "TM_inv (fst demo_started)" by (rule mgr_reachable_inv_pair [OF demo_reachable(2)])
  have h: "handleChannel (fst demo_started) \<lparr>ChannelType = ''forwarded-tcpip'',
      ExtraData = Inr \<lparr>pl_Addr = ''app.example.com'', pl_Port = 80, pl_OriginAddr = [], pl_OriginPort = 0\<rparr>\<rparr>
    = AcceptFor demo_fwd ''web.default.svc.cluster.local:90''"
    by code_simp
  show ?thesis using accepted_only_registered [OF inv h] by blast
qed

text \<open>
  A channel for an address that is not held is rejected, and while the manager is online
  the server is asked to release exactly that address and port (if the port is one).
\<close>

theorem orphan_channel_released:
  assumes "TM_inv m" "m_connected m"
    and "handleChannel m ch = RejectOrphan addr port" "uint port \<le> 65535"
  shows "cancelOrphan env m addr port tr =
    tr @ [(m_flags m, EvSend ''cancel-tcpip-forward'' addr port)] \<and>
    mget (m_forwardings m) (forwardingKey addr (uint port)) = None"
proof -
  have "m_client m" using assms(1,2) TM_inv_parts(1) by blast
  moreover have "mget (m_forwardings m) (forwardingKey addr (uint port)) = None"
    using assms(3) by (auto simp: handleChannel_def split: if_splits sum.splits option.splits)
  ultimately show ?thesis
    using assms(2,4) by (simp add: cancelOrphan_def cancelForwarding_trace)
qed

theorem orphan_channel_released_witness:
  "cancelOrphan demo_env (fst demo_started) ''old.example.com'' 80 [] =
     [(noFlags, EvSend ''cancel-tcpip-forward'' ''old.example.com'' 80)]"
proof -
  have inv: "TM_inv (fst demo_started)" by (rule mgr_reachable_inv_pair [OF demo_reachable(2)])
  have h: "m_connected (fst demo_started)" "m_flags (fst demo_started) = noFlags"
    "handleChannel (fst demo_started) \<lparr>ChannelType = ''forwarded-tcpip'',
      ExtraData = Inr \<lparr>pl_Addr = ''old.example.com'', pl_Port = 80, pl_OriginAddr = [], pl_OriginPort = 0\<rparr>\<rparr>
    = RejectOrphan ''old.example.com'' 80"
    by code_simp+
  show ?thesis
    using orphan_channel_released [OF inv h(1,3), of demo_env "[]"] h(2) by simp
qed

text \<open>
  C29. No half-closed connection lingers. Whatever the peers do and however the goroutines of a
  channel interleave: while both copy in both directions, both connections are open; a
  connection is closed only by a goroutine whose copy has ended; as soon as either goroutine is
  through, both connections are closed; and once a copy has ended, the program owes a step until
  all three goroutines are through: a close, or the end of the other copy, whose connections
  are then both closed. There are at most seven steps of its own in all.
\<close>

theorem proxy_closes_both:
  assumes "proxy_reachable p"
  shows "(outPhase p = Copying \<and> inPhase p = Copying \<longrightarrow> remoteOpen p \<and> localOpen p) \<and>
    (\<not> remoteOpen p \<or> \<not> localOpen p \<longrightarrow> outPhase p \<in> {ClosedOne, LoopDone} \<or> inPhase p \<in> {ClosedOne, LoopDone}) \<and>
    (outPhase p = LoopDone \<or> inPhase p = LoopDone \<longrightarrow> \<not> remoteOpen p \<and> \<not> localOpen p) \<and>
    ((outPhase p \<noteq> Copying \<or> inPhase p \<noteq> Copying) \<and> \<not> proxyClosed p \<longrightarrow> (\<exists>q. owed p q)) \<and>
    (\<forall>q k. (proxy_own ^^ k) p q \<longrightarrow> k \<le> 7)"
proof -
  have ok: "proxy_conns_ok p" by (rule proxy_conns [OF assms])
  have "steps_left p = steps_left q + k" if "(proxy_own ^^ k) p q" for k q
    using that by (induction k arbitrary: q) (auto dest: own_takes_one)
  moreover have "phase_left ph \<le> 3" for ph by (cases ph) simp_all
  then have "phase_left (outPhase p) + phase_left (inPhase p) \<le> 6" by (metis add_mono numeral_Bit0)
  then have "steps_left p \<le> 7" by (simp add: steps_left_def)
  ultimately have "k \<le> 7" if "(proxy_own ^^ k) p q" for k q using that by (metis le_add2 order.trans)
  moreover have "(outPhase p \<noteq> Copying \<or> inPhase p \<noteq> Copying) \<and> \<not> proxyClosed p \<longrightarrow> (\<exists>q. owed p q)"
    using owed_exists [OF ok] by blast
  ultimately show ?thesis
    using ok unfolding proxy_conns_ok_def by (cases "outPhase p"; cases "inPhase p") auto
qed

text \<open>The backend has hung up; its goroutine has closed the channel and not yet the backend.\<close>

definition demo_proxy :: proxy where
  "demo_proxy = proxy_start\<lparr>outPhase := ClosedOne, remoteOpen := False\<rparr>"

lemma demo_proxy_reachable: "proxy_reachable demo_proxy"
proof -
  have "proxy_own proxy_start ((copy_out 0 0 proxy_start)\<lparr>outPhase := CopyEnded\<rparr>)"
    by (rule proxy_own.out_ends) (simp_all add: proxy_start_def can_copy_def)
  then have e: "proxy_reachable (proxy_start\<lparr>outPhase := CopyEnded\<rparr>)"
    using proxy_reachable.step [OF proxy_reachable.start proxy_step.own] by (simp add: copy_out_def proxy_start_def)
  have "proxy_own (proxy_start\<lparr>outPhase := CopyEnded\<rparr>) demo_proxy"
    using proxy_own.out_closes_remote [of "proxy_start\<lparr>outPhase := CopyEnded\<rparr>"] by (simp add: demo_proxy_def)
  from proxy_reachable.step [OF e proxy_step.own [OF this]] show ?thesis .
qed

theorem proxy_closes_both_witness:
  "localOpen demo_proxy \<and> \<not> remoteOpen demo_proxy \<and>
   \<not> localOpen (demo_proxy\<lparr>outPhase := LoopDone, localOpen := False\<rparr>) \<and> (\<exists>q. owed demo_proxy q)"
proof -
  have "outPhase demo_proxy = ClosedOne" by (simp add: demo_proxy_def)
  then have "proxy_reachable (demo_proxy\<lparr>outPhase := LoopDone, localOpen := False\<rparr>)"
    using proxy_reachable.step [OF demo_proxy_reachable proxy_step.own [OF proxy_own.out_closes_local]] by blast
  then show ?thesis
    using proxy_closes_both [of "demo_proxy\<lparr>outPhase := LoopDone, localOpen := False\<rparr>"]
      proxy_closes_both [OF demo_proxy_reachable] by (simp add: demo_proxy_def proxy_start_def)
qed

end
