(* ===== verification/Registry_Progress.thy ===== *)
theory Registry_Progress
  imports Registry_Runs Channel_Handling
begin

text \<open>
  What makes progress and what arrives: with a server that grants what is asked, attaching a
  route succeeds, also after a reconnect, unless an older route blocks the listener; and a
  connection that the server opens for an attached route reaches the backend of that route.
\<close>

section \<open>A server that grants what is asked\<close>

text \<open>
  For one host and port: the capture session comes up, every request is granted, and the
  addresses reported for the key pass the verification.
\<close>

definition cooperative :: "ssh_env \<Rightarrow> string \<Rightarrow> int \<Rightarrow> bool \<Rightarrow> bool" where
  "cooperative env h p enforce \<longleftrightarrow>
     (\<forall>fl tr. e_capture env fl tr) \<and>
     (\<forall>fl tr t a q. e_send env fl tr t a q = Replied True) \<and>
     (\<forall>fl tr. \<exists>uris. e_uris env fl tr (forwardingKey h p) = Some uris \<and> MatchesRequestedHost uris h p enforce)"

lemma sendForwardingOnce_granted:
  assumes "cooperative env h p enforce" "0 \<le> RemotePort fwd" "RemotePort fwd \<le> 65535"
  shows "fst (sendForwardingOnce env m fwd req tr) = None"
  using assms by (simp add: sendForwardingOnce_def cooperative_def Let_def)

lemma StartForwarding_granted:
  assumes "TM_inv m" "m_connected m" "mget (m_forwardings m) (cfgKey fwd) = None"
    and "cooperative env (RemoteHost fwd) (RemotePort fwd) (EnforcePort fwd)"
    and "0 \<le> RemotePort fwd" "RemotePort fwd \<le> 65535"
  shows "fst (StartForwarding env fwd m tr) = None"
proof -
  note inv = TM_inv_parts [OF assms(1)]
  define tr1 where "tr1 = (if m_captureReady m then tr @ [(m_flags m, EvAwaitCapture)] else tr)"
  obtain tr3 where req: "start_request env m fwd tr1 = (None, tr3)"
    using sendForwardingOnce_granted [OF assms(4-6)]
    unfolding start_request_def by (metis prod.collapse)
  obtain uris where uris: "e_uris env (m_flags m) tr3 (cfgKey fwd) = Some uris"
      "MatchesRequestedHost uris (RemoteHost fwd) (RemotePort fwd) (EnforcePort fwd)"
    using assms(4) unfolding cooperative_def by blast
  have "fst (awaitAssignedAddresses env m fwd (cfgKey fwd) tr3) = None"
    using uris by (simp add: awaitAssignedAddresses_def handleAssignedURIs_def Let_def)
  moreover have "e_capture env (m_flags m) tr" using assms(4) unfolding cooperative_def by blast
  ultimately have "fst (sendForwarding env m fwd ForwardStart tr) = None"
    using req by (simp add: sendForwarding_start_eq [OF inv(2)] tr1_def [symmetric] Let_def)
  then show ?thesis
    using assms(1-3) inv by (simp add: StartForwarding_def split_beta split: option.splits)
qed

lemma StopForwarding_granted:
  assumes "TM_inv m" "m_connected m" "mget (m_forwardings m) (cfgKey fwd) \<noteq> None"
    and "cooperative env h p enforce"
  shows "fst (StopForwarding env fwd m tr) = None"
proof -
  from assms(3) obtain held where held: "mget (m_forwardings m) (cfgKey fwd) = Some held" by blast
  have "0 \<le> RemotePort held" "RemotePort held \<le> 65535"
    using assms(1) held by (auto simp: TM_inv_def forwardings_filed_def)
  with sendForwardingOnce_granted [OF assms(4)] held assms(1,2) TM_inv_parts(1) [OF assms(1)] show ?thesis
    by (simp add: StopForwarding_def sendForwarding_cancel Let_def)
qed

lemma pool_StartForwarding_granted:
  assumes "tunnel_pool_inv p" "pool_IsConnected (tunnel_manager env) kind p"
    and "tunnel_pool_active p kind (cfgKey fwd) = None"
    and "cooperative env (RemoteHost fwd) (RemotePort fwd) (EnforcePort fwd)"
    and "0 \<le> RemotePort fwd" "RemotePort fwd \<le> 65535"
  shows "fst (pool_StartForwarding (tunnel_manager env) kind fwd p) = None"
proof -
  from assms(2) obtain m where m: "mget (p_managers p) kind = Some m" "m_connected m"
    by (auto simp: pool_IsConnected_def IsConnected_def split: option.splits)
  then have "TM_inv m" using assms(1) by (auto simp: pool_inv_def)
  with m assms(3-6) show ?thesis
    by (simp add: pool_StartForwarding_def pool_active_def tm_active_def StartForwarding_granted split_beta)
qed

lemma pool_StopForwarding_granted:
  assumes "tunnel_pool_inv p" "pool_IsConnected (tunnel_manager env) kind p"
    and "tunnel_pool_active p kind (cfgKey fwd) \<noteq> None" "cooperative env h q enforce"
  shows "fst (pool_StopForwarding (tunnel_manager env) kind fwd p) = None"
proof -
  from assms(2) obtain m where m: "mget (p_managers p) kind = Some m" "m_connected m"
    by (auto simp: pool_IsConnected_def IsConnected_def split: option.splits)
  then have "TM_inv m" using assms(1) by (auto simp: pool_inv_def)
  with m assms(3,4) show ?thesis
    by (simp add: pool_StopForwarding_def pool_active_def tm_active_def StopForwarding_granted split_beta)
qed

section \<open>Progress of the registry\<close>

context session_pool
begin

lemma setupRouteForwarding_granted:
  assumes i: "inv p" and on: "sp_IsConnected P (l_SessionKind l) p"
    and start: "\<And>p. inv p \<Longrightarrow> sp_IsConnected P (l_SessionKind l) p \<Longrightarrow> active p (l_SessionKind l) (listener_key l) = None \<Longrightarrow>
       fst (sp_StartForwarding P (l_SessionKind l) (start_config l \<lparr>r_Name = n, r_Namespace = ns, r_Host = h, r_Port = port\<rparr>) p) = None"
    and stop: "\<And>p old. inv p \<Longrightarrow> sp_IsConnected P (l_SessionKind l) p \<Longrightarrow> active p (l_SessionKind l) (listener_key l) \<noteq> None \<Longrightarrow>
       fst (sp_StopForwarding P (l_SessionKind l) (stop_config l old) p) = None"
    and free: "l_route l \<noteq> None \<longrightarrow> active p (l_SessionKind l) (listener_key l) \<noteq> None"
  shows "fst (setupRouteForwarding P p l n ns h port) = None"
proof -
  let ?K = "l_SessionKind l" and ?key = "listener_key l"
  let ?r = "\<lparr>r_Name = n, r_Namespace = ns, r_Host = h, r_Port = port\<rparr>"
  obtain se p1 where st: "(case l_route l of None \<Rightarrow> (None, p)
      | Some old \<Rightarrow> sp_StopForwarding P ?K (stop_config l old) p) = (se, p1)" by (metis prod.collapse)
  have p1: "se = None" "inv p1" "sp_IsConnected P ?K p1" "l_route l \<noteq> None \<longrightarrow> active p1 ?K ?key = None"
    using st i on free stop [OF i on] stop_inv [OF i] stop_active [OF i] stop_connected [OF i]
    by (auto split: option.splits) (metis fst_conv option.distinct(1))+
  obtain sf p3 where sf: "sp_StartForwarding P ?K (start_config l ?r) p1 = (sf, p3)" by (metis prod.collapse)
  have "fst (setupRouteForwarding P p l n ns h port) =
      (case sf of Some err \<Rightarrow> fst (handleForwardingError err l ?r) | None \<Rightarrow> None)"
    unfolding setupRouteForwarding_def st
    using p1(1,3) sf by (simp add: Let_def split_beta split: option.splits)
  moreover have "fst (handleForwardingError err l ?r) = None" if "sf = Some err" for err
  proof (cases "active p1 ?K ?key")
    case None
    with start [OF p1(2,3)] sf that show ?thesis by simp
  next
    case (Some held)
    with start_exists [OF p1(2,3), of "start_config l ?r" held] sf that show ?thesis
      by (simp add: handleForwardingError_def errors_As_simps)
  qed
  ultimately show ?thesis by (cases sf) simp_all
qed

lemma setupRouteForwarding_lost:
  assumes "inv p" "sp_IsConnected P (l_SessionKind l) p" "l_route l \<noteq> None"
    and "active p (l_SessionKind l) (listener_key l) = None"
  shows "fst (setupRouteForwarding P p l n ns h port) \<noteq> None"
proof -
  obtain old where old: "l_route l = Some old" using assms(3) by blast
  have "sp_StopForwarding P (l_SessionKind l) (stop_config l old) p = (Some (ErrSSHForwardingNotFound (listener_key l)), p)"
    using stop_missing [OF assms(1,2), of "stop_config l old"] assms(4) by simp
  then show ?thesis by (simp add: setupRouteForwarding_def old)
qed

lemma SetRoute_progress:
  fixes n ns h port
  defines "r \<equiv> \<lparr>r_Name = n, r_Namespace = ns, r_Host = h, r_Port = port\<rparr>"
  assumes i: "inv (gr_pool gr)" and g: "mget (gr_gateways gr) (getGwKey gns gn) = Some gw" "mget gw lis = Some l"
    and ok: "\<not> l_Rejected l" and on: "sp_IsConnected P (l_SessionKind l) (gr_pool gr)"
    and start: "\<And>p. inv p \<Longrightarrow> sp_IsConnected P (l_SessionKind l) p \<Longrightarrow> active p (l_SessionKind l) (listener_key l) = None \<Longrightarrow>
       fst (sp_StartForwarding P (l_SessionKind l) (start_config l r) p) = None"
    and stop: "\<And>p old. inv p \<Longrightarrow> sp_IsConnected P (l_SessionKind l) p \<Longrightarrow> active p (l_SessionKind l) (listener_key l) \<noteq> None \<Longrightarrow>
       fst (sp_StopForwarding P (l_SessionKind l) (stop_config l old) p) = None"
  shows "fst (SetRoute P uo client now gns gn lis n ns h port gr w) = None \<longleftrightarrow>
    (l_route l \<in> {None, Some r} \<or> active (gr_pool gr) (l_SessionKind l) (listener_key l) \<noteq> None)"
proof -
  obtain e gr' w' where s: "SetRoute P uo client now gns gn lis n ns h port gr w = (e, gr', w')" by (metis prod_cases3)
  show ?thesis
    using s
  proof (cases rule: SetRoute_cases)
    case refused
    then show ?thesis using g ok by auto
  next
    case (already gw' l')
    then have "l' = l" "e = None" using g by simp_all
    then show ?thesis using already(7) s by (simp add: r_def)
  next
    case (attempted gw' l1 p' l2)
    with g have l1: "l1 = l" by simp
    define l0 where "l0 = (if l_route l = Some r then l\<lparr>l_route := None\<rparr> else l)"
    have setup_eq: "e = fst (setupRouteForwarding P (gr_pool gr) l0 n ns h port)"
      using attempted(4) unfolding l1 r_def [symmetric] l0_def [symmetric] by (metis fst_conv)
    have f: "l_SessionKind l0 = l_SessionKind l" "listener_key l0 = listener_key l"
        "start_config l0 x = start_config l x" "stop_config l0 x = stop_config l x" for x
      by (simp_all add: l0_def start_config_def stop_config_def)
    have route: "l_route l0 = (if l_route l = Some r then None else l_route l)"
      by (simp add: l0_def)
    let ?held = "active (gr_pool gr) (l_SessionKind l) (listener_key l) \<noteq> None"
    have e: "fst (SetRoute P uo client now gns gn lis n ns h port gr w) = e" using s by simp
    show ?thesis
    proof (cases "l_route l \<in> {None, Some r} \<or> ?held")
      case True
      then have "l_route l0 \<noteq> None \<longrightarrow> ?held" unfolding route by (cases "l_route l = Some r") auto
      then have "e = None"
        unfolding setup_eq
        using setupRouteForwarding_granted [of "gr_pool gr" l0 n ns h port, unfolded f, folded r_def, OF i on start stop] by blast
      with e True show ?thesis by blast
    next
      case False
      then have "l_route l0 \<noteq> None" "\<not> ?held" unfolding route by (simp_all split: if_splits)
      then have "e \<noteq> None"
        unfolding setup_eq using setupRouteForwarding_lost [of "gr_pool gr" l0 n ns h port, unfolded f, OF i on] by blast
      with e False show ?thesis by blast
    qed
  qed
qed

end

section \<open>Properties\<close>

text \<open>
  C7. Attaching a route makes progress. With a server that grants what is asked for the
  listener's host and port, \<open>SetRoute\<close> on a connected session and a listener that is not rejected
  succeeds exactly when the listener has no route, already this route (so a route whose
  forwarding was lost in a reconnect is restored by the next reconciliation), or its forwarding
  is still held; the only obstacle is another route whose forwarding is gone.
\<close>

theorem set_route_progress:
  assumes "tunnel_pool_inv (gr_pool gr)"
    and "mget (gr_gateways gr) (getGwKey gns gn) = Some gw" "mget gw lis = Some l" "\<not> l_Rejected l"
    and "pool_IsConnected (tunnel_manager env) (l_SessionKind l) (gr_pool gr)"
    and "cooperative env (l_Hostname l) (l_Port l) (l_Protocol l = ''TCP'' \<and> l_Port l > 0)"
    and "0 \<le> l_Port l" "l_Port l \<le> 65535"
  shows "fst (SetRoute (tunnel_pool_ops env pk base) uo client now gns gn lis n ns h port gr w) = None \<longleftrightarrow>
    l_route l \<in> {None, Some \<lparr>r_Name = n, r_Namespace = ns, r_Host = h, r_Port = port\<rparr>} \<or>
    tunnel_pool_active (gr_pool gr) (l_SessionKind l) (forwardingKey (l_Hostname l) (l_Port l)) \<noteq> None"
proof (rule tunnels.spp.SetRoute_progress [OF assms(1-4)])
  show "sp_IsConnected (tunnel_pool_ops env pk base) (l_SessionKind l) (gr_pool gr)" using assms(5) by simp
  fix p
  assume p: "tunnel_pool_inv p" "sp_IsConnected (tunnel_pool_ops env pk base) (l_SessionKind l) p"
  show "fst (sp_StartForwarding (tunnel_pool_ops env pk base) (l_SessionKind l)
      (start_config l \<lparr>r_Name = n, r_Namespace = ns, r_Host = h, r_Port = port\<rparr>) p) = None"
    if "tunnel_pool_active p (l_SessionKind l) (listener_key l) = None"
    using pool_StartForwarding_granted [of p env "l_SessionKind l" "start_config l \<lparr>r_Name = n, r_Namespace = ns, r_Host = h, r_Port = port\<rparr>"]
      p that assms(6-8) by (simp add: start_config_def)
  show "fst (sp_StopForwarding (tunnel_pool_ops env pk base) (l_SessionKind l) (stop_config l old) p) = None"
    if "tunnel_pool_active p (l_SessionKind l) (listener_key l) \<noteq> None" for old
    using pool_StopForwarding_granted [of p env "l_SessionKind l" "stop_config l old"] p that assms(6) by simp
qed

definition coop_env :: ssh_env where
  "coop_env = demo_pool_env\<lparr>e_uris := (\<lambda>fl tr k. Some [''http://h''])\<rparr>"

lemma coop_env_cooperative: "cooperative coop_env ''h'' 8 False"
proof -
  have "MatchesRequestedHost [''http://h''] ''h'' 8 False" by code_simp
  then show ?thesis by (simp add: cooperative_def coop_env_def demo_pool_env_def)
qed

text \<open>The route of the demonstration whose forwarding was lost: the same route is restored.\<close>

theorem set_route_progress_witness:
  "fst (SetRoute (tunnel_pool_ops coop_env (\<lambda>k. None) demo_pool_config) (\<lambda>_. None) (Some demo_client) None
     ''ns'' ''gw'' ''web'' ''r'' ''ns'' ''b'' 1 demo_reg_lost 0) = None"
proof -
  let ?l = "demo_web\<lparr>l_route := Some demo_route_r\<rparr>"
  have k: "getGwKey ''ns'' ''gw'' = ''ns/gw''" by code_simp
  have "map_option (\<lambda>gw. mget gw ''web'') (mget (gr_gateways demo_reg_lost) ''ns/gw'') = Some (Some ?l)" by code_simp
  then obtain gw where gw: "mget (gr_gateways demo_reg_lost) (getGwKey ''ns'' ''gw'') = Some gw"
      "mget gw ''web'' = Some ?l" unfolding k by auto
  have inv: "tunnel_pool_inv (gr_pool demo_reg_lost)" by (simp add: demo_reg_lost_def demo_pool_inv)
  have on: "pool_IsConnected (tunnel_manager coop_env) (l_SessionKind ?l) (gr_pool demo_reg_lost)" by code_simp
  have l: "\<not> l_Rejected ?l" "0 \<le> l_Port ?l" "l_Port ?l \<le> 65535"
      "cooperative coop_env (l_Hostname ?l) (l_Port ?l) (l_Protocol ?l = ''TCP'' \<and> l_Port ?l > 0)"
    using coop_env_cooperative by (simp_all add: demo_web_def)
  show ?thesis
    unfolding set_route_progress [OF inv gw l(1) on l(4,2,3)] by (simp add: demo_route_r_def)
qed

text \<open>
  C2. From the registry to the backend. After every successful \<open>SetRoute\<close> (also one that found the
  route attached, or adopted a forwarding) a channel that the server opens for the listener's
  host and port, in the session of the listener's kind, is accepted and connected to the backend
  of the forwarding that this session holds. That is the backend of exactly this route, except
  that a forwarding which was held before the call is kept as it is when the listener had no
  route or already this one; such a forwarding may have another backend.
\<close>

theorem attached_route_reachable:
  fixes n ns h port
  defines "r \<equiv> \<lparr>r_Name = n, r_Namespace = ns, r_Host = h, r_Port = port\<rparr>"
  assumes "tunnel_pool_inv (gr_pool gr)"
    and "SetRoute (tunnel_pool_ops env pk base) uo client now gns gn lis n ns h port gr w = (None, gr', w')"
  shows "\<exists>gw l m f. mget (gr_gateways gr) (getGwKey gns gn) = Some gw \<and> mget gw lis = Some l \<and>
    mget (p_managers (gr_pool gr')) (l_SessionKind l) = Some m \<and>
    handleChannel m \<lparr>ChannelType = ''forwarded-tcpip'',
        ExtraData = Inr \<lparr>pl_Addr = l_Hostname l, pl_Port = word_of_int (l_Port l), pl_OriginAddr = oa, pl_OriginPort = op\<rparr>\<rparr>
      = AcceptFor f (JoinHostPort (InternalHost f) (Itoa (InternalPort f))) \<and>
    (InternalHost f = h \<and> InternalPort f = port \<or>
     l_route l \<in> {None, Some r} \<and>
     tunnel_pool_active (gr_pool gr) (l_SessionKind l) (forwardingKey (l_Hostname l) (l_Port l)) = Some f)"
proof -
  obtain gw l f where l: "mget (gr_gateways gr) (getGwKey gns gn) = Some gw" "mget gw lis = Some l"
    and held: "tunnel_pool_active (gr_pool gr') (l_SessionKind l) (listener_key l) = Some f"
    and which: "f = start_config l r \<or> l_route l \<in> {None, Some r} \<and>
      tunnel_pool_active (gr_pool gr) (l_SessionKind l) (listener_key l) = Some f"
    unfolding r_def using tunnels.spp.SetRoute_serves [OF assms(2,3)] by blast
  from held obtain m where m: "mget (p_managers (gr_pool gr')) (l_SessionKind l) = Some m"
      "mget (m_forwardings m) (listener_key l) = Some f"
    by (auto simp: pool_active_def tm_active_def split: option.splits)
  have "tunnel_pool_inv (gr_pool gr')"
    using tunnels.spp.SetRoute_frame(1) [OF assms(2,3)] by simp
  with m have inv: "TM_inv m" by (auto simp: pool_inv_def)
  then have "listener_key l = cfgKey f" using m(2) by (auto simp: TM_inv_def forwardings_filed_def)
  then have "RemoteHost f = l_Hostname l" "RemotePort f = l_Port l" by (simp_all add: forwardingKey_inject)
  with registered_channel_served [OF inv m(2), of oa op] l m(1) which show ?thesis
    by (auto simp: start_config_def r_def)
qed

theorem attached_route_reachable_witness:
  "\<exists>m. mget (p_managers (gr_pool demo_reg_set)) SessionPlain = Some m \<and>
    handleChannel m \<lparr>ChannelType = ''forwarded-tcpip'',
        ExtraData = Inr \<lparr>pl_Addr = ''h'', pl_Port = 8, pl_OriginAddr = [], pl_OriginPort = 0\<rparr>\<rparr>
      = AcceptFor (start_config demo_web demo_route_r) ''b:1''"
proof -
  have k: "getGwKey ''ns'' ''gw'' = ''ns/gw''" "JoinHostPort ''b'' (Itoa 1) = ''b:1''" by code_simp+
  have web: "map_option (\<lambda>gw. mget gw ''web'') (mget (gr_gateways demo_reg) ''ns/gw'') = Some (Some demo_web)"
    and none: "tunnel_pool_active (gr_pool demo_reg) (l_SessionKind demo_web) (forwardingKey (l_Hostname demo_web) (l_Port demo_web)) = None"
    and one: "tunnel_pool_active (gr_pool demo_reg_set) SessionPlain ''h:8'' = Some (start_config demo_web demo_route_r)"
    and key: "forwardingKey ''h'' (uint (8 :: 32 word)) = ''h:8''"
    by code_simp+
  from attached_route_reachable [OF demo_reg_inv(1) demo_set_eq, of "[]" 0] web none
  obtain m f where m: "mget (p_managers (gr_pool demo_reg_set)) (l_SessionKind demo_web) = Some m"
    "handleChannel m \<lparr>ChannelType = ''forwarded-tcpip'', ExtraData = Inr \<lparr>pl_Addr = l_Hostname demo_web,
        pl_Port = word_of_int (l_Port demo_web), pl_OriginAddr = [], pl_OriginPort = 0\<rparr>\<rparr>
      = AcceptFor f (JoinHostPort (InternalHost f) (Itoa (InternalPort f)))"
    "InternalHost f = ''b''" "InternalPort f = 1"
    unfolding k by auto
  have w: "l_SessionKind demo_web = SessionPlain" "l_Hostname demo_web = ''h''" "l_Port demo_web = 8"
    by (simp_all add: demo_web_def)
  have "f = start_config demo_web demo_route_r"
    using m(1,2) one key w
    by (auto simp: handleChannel_def pool_active_def tm_active_def split: option.splits)
  with m w k(2) show ?thesis by simp
qed

end
