(* ===== verification/Server_Output.thy ===== *)
theory Server_Output
  imports Ssh_Types
begin

text \<open>
  The capture of the server's output in \<open>ssh/ssh_tunnel_manager.go\<close>: the capture session
  (\<open>captureServerOutput\<close>, \<open>createSSHSession\<close>), the two readers (\<open>readServerOutput\<close>,
  \<open>processServerData\<close>), and how what they find reaches the one forwarding that is being
  started (\<open>notifyURIWaiters\<close> against \<open>sendForwarding\<close>), as a step relation.
\<close>

section \<open>The capture session\<close>

text \<open>What the SSH library answers while the session is set up.\<close>

record capture_env =
  cap_realClient :: bool
  cap_NewSession :: "go_error option"
  cap_StdoutPipe :: "go_error option"
  cap_StderrPipe :: "go_error option"
  cap_Shell :: "go_error option"
  cap_Start :: "string \<Rightarrow> go_error option"

datatype capture_event =
    CapReady
  | CapReader string
  | CapShell
  | CapStart string
  | CapAwaitDone
  | CapCloseSession

definition createSSHSession :: "capture_env \<Rightarrow> go_error option" where
  "createSSHSession ce =
     (if \<not> cap_realClient ce then Some (Errorf ''client is not *ssh.Client'') else cap_NewSession ce)"

text \<open>
  The events in order; those of the two deferred functions come last, the session's before the
  one that closes \<open>captureReady\<close> when it was not signalled.
\<close>

definition captureServerOutput :: "capture_env \<Rightarrow> SessionFlags \<Rightarrow> capture_event list" where
  "captureServerOutput ce flags =
     (if createSSHSession ce \<noteq> None then [CapReady]
      else if cap_StdoutPipe ce \<noteq> None then [CapCloseSession, CapReady]
      else if cap_StderrPipe ce \<noteq> None then [CapCloseSession, CapReady]
      else
        [CapReader ''stdout'', CapReader ''stderr'', CapReady] @
        (let (cmd, useShell) = execCommand flags in
         if useShell then
           CapShell # (if cap_Shell ce \<noteq> None then [CapCloseSession]
                       else [CapAwaitDone, CapCloseSession, CapCloseSession])
         else
           CapStart cmd # (if cap_Start ce cmd \<noteq> None then [CapCloseSession]
                           else [CapAwaitDone, CapCloseSession, CapCloseSession])))"

section \<open>The readers\<close>

definition processServerData :: "(string \<Rightarrow> go_error + string list) \<Rightarrow> string \<Rightarrow> string list list" where
  "processServerData remoteAddrFunc dataStr =
     (case remoteAddrFunc dataStr of
        Inl err \<Rightarrow> []
      | Inr uris \<Rightarrow> if uris = [] then [] else [uris])"

text \<open>
  The loop may run for ever, and then it is \<open>None\<close>. \<open>ctx_done i\<close> tells whether the connection
  context is done at the \<open>i\<close>-th round, \<open>read i\<close> what the read returns; the value is the list of
  URI lists that were passed to \<open>notifyURIWaiters\<close>.
\<close>

partial_function (option) readServerOutput ::
  "(nat \<Rightarrow> bool) \<Rightarrow> (nat \<Rightarrow> string \<times> go_error option) \<Rightarrow> (string \<Rightarrow> go_error + string list) \<Rightarrow> nat \<Rightarrow>
     string list list option" where
  "readServerOutput ctx_done read remoteAddrFunc i =
     (if ctx_done i then Some []
      else if snd (read i) \<noteq> None then Some []
      else Option.bind (readServerOutput ctx_done read remoteAddrFunc (i + 1)) (\<lambda>rest.
             Some ((if length (fst (read i)) > 0 then processServerData remoteAddrFunc (fst (read i)) else []) @ rest)))"

definition round_stops :: "(nat \<Rightarrow> bool) \<Rightarrow> (nat \<Rightarrow> string \<times> go_error option) \<Rightarrow> nat \<Rightarrow> bool" where
  "round_stops ctx_done read i \<longleftrightarrow> ctx_done i \<or> snd (read i) \<noteq> None"

definition round_notifies ::
  "(nat \<Rightarrow> string \<times> go_error option) \<Rightarrow> (string \<Rightarrow> go_error + string list) \<Rightarrow> nat \<Rightarrow> string list list" where
  "round_notifies read remoteAddrFunc i =
     (if fst (read i) = [] then [] else processServerData remoteAddrFunc (fst (read i)))"

lemma readServerOutput_stop:
  "round_stops ctx_done read i \<Longrightarrow> readServerOutput ctx_done read f i = Some []"
  by (subst readServerOutput.simps) (auto simp: round_stops_def)

lemma readServerOutput_go:
  "\<not> round_stops ctx_done read i \<Longrightarrow>
   readServerOutput ctx_done read f i =
     map_option (\<lambda>rest. round_notifies read f i @ rest) (readServerOutput ctx_done read f (i + 1))"
  by (subst readServerOutput.simps)
    (cases "readServerOutput ctx_done read f (i + 1)"; auto simp: round_stops_def round_notifies_def)

lemma readServerOutput_until:
  "\<forall>j \<in> {i..<i + n}. \<not> round_stops ctx_done read j \<Longrightarrow> round_stops ctx_done read (i + n) \<Longrightarrow>
   readServerOutput ctx_done read f i = Some (concat (map (round_notifies read f) [i..<i + n]))"
proof (induction n arbitrary: i)
  case 0
  then show ?case by (simp add: readServerOutput_stop)
next
  case (Suc n)
  have "readServerOutput ctx_done read f (i + 1) = Some (concat (map (round_notifies read f) [i + 1..<i + 1 + n]))"
    using Suc.prems by (intro Suc.IH) auto
  then show ?case
    using Suc.prems(1) by (simp add: readServerOutput_go upt_conv_Cons del: upt_Suc)
qed

lemma readServerOutput_returns:
  assumes "readServerOutput ctx_done read f i = Some ns"
  shows "\<exists>n\<ge>i. round_stops ctx_done read n"
proof (rule readServerOutput.raw_induct [where P = "\<lambda>ctx_done read f i ns. \<exists>n\<ge>i. round_stops ctx_done read n", OF _ assms])
  fix g c r h j ms
  assume IH: "\<And>c r h j ms. g c r h j = Some ms \<Longrightarrow> \<exists>n\<ge>j. round_stops c r n"
    and eq: "(if c j then Some []
      else if snd (r j) \<noteq> None then Some []
      else Option.bind (g c r h (j + 1)) (\<lambda>rest.
             Some ((if length (fst (r j)) > 0 then processServerData h (fst (r j)) else []) @ rest))) = Some ms"
  show "\<exists>n\<ge>j. round_stops c r n"
  proof (cases "round_stops c r j")
    case False
    with eq obtain rest where "g c r h (j + 1) = Some rest"
      by (auto simp: round_stops_def bind_eq_Some_conv)
    from IH [OF this] show ?thesis by (metis add_leD1)
  qed auto
qed

section \<open>Notifying the forwarding that waits\<close>

text \<open>
  The channels of \<open>addrNotifications\<close> are numbered as they are made. \<open>sendForwarding\<close> holds
  \<open>clientMu\<close>, so at most one of them waits; when it returns, it deletes its channel from the map
  and then, in a step of its own, closes it. A notifier copies the map under the lock and sends
  to the copied channels afterwards, one by one, without the lock; a full channel is skipped, a
  send on a closed one panics. \<open>ns_received\<close>, \<open>ns_sent\<close> and \<open>ns_overtaken\<close> only record history:
  what waiters received, what notifiers copied for which channel, and whether a channel was closed
  while a notifier still had it to serve.
\<close>

datatype waiter = NoWaiter | Waiting string nat | Leaving nat

record notify_state =
  ns_registered :: "(string, nat) gomap"
  ns_buffer :: "nat \<Rightarrow> string list list"
  ns_closed :: "nat list"
  ns_next :: nat
  ns_waiter :: waiter
  ns_sending :: "(string list \<times> nat list) list"
  ns_panicked :: bool
  ns_received :: "(nat \<times> string list) list"
  ns_sent :: "(nat \<times> string list) list"
  ns_overtaken :: bool

definition ns_start :: notify_state where
  "ns_start = \<lparr>ns_registered = [], ns_buffer = (\<lambda>ch. []), ns_closed = [], ns_next = 0,
     ns_waiter = NoWaiter, ns_sending = [], ns_panicked = False, ns_received = [], ns_sent = [],
     ns_overtaken = False\<rparr>"

definition chan_capacity :: nat where
  "chan_capacity = 5"

definition ns_register :: "string \<Rightarrow> notify_state \<Rightarrow> notify_state" where
  "ns_register key s =
     s\<lparr>ns_registered := mput key (ns_next s) (ns_registered s), ns_buffer := (ns_buffer s)(ns_next s := []),
       ns_next := ns_next s + 1, ns_waiter := Waiting key (ns_next s)\<rparr>"

definition ns_leave :: "string \<Rightarrow> nat \<Rightarrow> notify_state \<Rightarrow> notify_state" where
  "ns_leave key ch s = s\<lparr>ns_registered := mdel key (ns_registered s), ns_waiter := Leaving ch\<rparr>"

definition ns_close :: "nat \<Rightarrow> notify_state \<Rightarrow> notify_state" where
  "ns_close ch s =
     s\<lparr>ns_closed := ch # ns_closed s, ns_waiter := NoWaiter,
       ns_overtaken := (ns_overtaken s \<or> (\<exists>(uris, chs) \<in> set (ns_sending s). ch \<in> set chs))\<rparr>"

definition notify_copy :: "string list \<Rightarrow> notify_state \<Rightarrow> notify_state" where
  "notify_copy uris s =
     s\<lparr>ns_sending := ns_sending s @ [(uris, map snd (ns_registered s))],
       ns_sent := ns_sent s @ map (\<lambda>(key, ch). (ch, uris)) (ns_registered s)\<rparr>"

definition notify_send :: "string list \<Rightarrow> nat \<Rightarrow> notify_state \<Rightarrow> notify_state" where
  "notify_send uris ch s =
     (if ch \<in> set (ns_closed s) then s\<lparr>ns_panicked := True\<rparr>
      else if length (ns_buffer s ch) < chan_capacity
      then s\<lparr>ns_buffer := (ns_buffer s)(ch := ns_buffer s ch @ [uris])\<rparr>
      else s)"

inductive notify_step :: "notify_state \<Rightarrow> notify_state \<Rightarrow> bool" where
  register: "ns_waiter s = NoWaiter \<Longrightarrow> notify_step s (ns_register key s)"
| receive: "ns_waiter s = Waiting key ch \<Longrightarrow> ns_buffer s ch = uris # rest \<Longrightarrow>
    notify_step s (s\<lparr>ns_buffer := (ns_buffer s)(ch := rest), ns_received := ns_received s @ [(ch, uris)]\<rparr>)"
| leave: "ns_waiter s = Waiting key ch \<Longrightarrow> notify_step s (ns_leave key ch s)"
| close: "ns_waiter s = Leaving ch \<Longrightarrow> notify_step s (ns_close ch s)"
| copy: "notify_step s (notify_copy uris s)"
| send: "ns_sending s = xs @ (uris, ch # chs) # ys \<Longrightarrow>
    notify_step s (notify_send uris ch (s\<lparr>ns_sending := xs @ (uris, chs) # ys\<rparr>))"

inductive notify_reachable :: "notify_state \<Rightarrow> bool" where
  start: "notify_reachable ns_start"
| step: "notify_reachable s \<Longrightarrow> notify_step s s' \<Longrightarrow> notify_reachable s'"

definition registered_of :: "waiter \<Rightarrow> (string, nat) gomap" where
  "registered_of w = (case w of Waiting key ch \<Rightarrow> [(key, ch)] | _ \<Rightarrow> [])"

definition sends_pending :: "(string list \<times> nat list) list \<Rightarrow> (nat \<times> string list) set" where
  "sends_pending sending = (\<Union>(uris, chs) \<in> set sending. (\<lambda>ch. (ch, uris)) ` set chs)"

lemma sends_pending_simps:
  "sends_pending [] = {}"
  "sends_pending (xs @ [(uris, chs)]) = sends_pending xs \<union> (\<lambda>ch. (ch, uris)) ` set chs"
  "sends_pending (xs @ (uris, ch # chs) # ys) = insert (ch, uris) (sends_pending (xs @ (uris, chs) # ys))"
  by (auto simp: sends_pending_def)

definition ns_inv :: "notify_state \<Rightarrow> bool" where
  "ns_inv s \<longleftrightarrow>
     ns_registered s = registered_of (ns_waiter s) \<and>
     (\<forall>ch. length (ns_buffer s ch) \<le> chan_capacity) \<and>
     (\<forall>ch u. u \<in> set (ns_buffer s ch) \<longrightarrow> (ch, u) \<in> set (ns_sent s)) \<and>
     sends_pending (ns_sending s) \<subseteq> set (ns_sent s) \<and>
     set (ns_received s) \<subseteq> set (ns_sent s) \<and>
     (\<forall>ch u. (ch, u) \<in> set (ns_sent s) \<longrightarrow> ch < ns_next s) \<and>
     (\<forall>ch \<in> set (ns_closed s). ch < ns_next s) \<and>
     (case ns_waiter s of NoWaiter \<Rightarrow> True | Waiting key ch \<Rightarrow> ch < ns_next s \<and> ch \<notin> set (ns_closed s)
      | Leaving ch \<Rightarrow> ch < ns_next s \<and> ch \<notin> set (ns_closed s)) \<and>
     (\<not> ns_overtaken s \<longrightarrow> \<not> ns_panicked s \<and>
        (\<forall>(ch, u) \<in> sends_pending (ns_sending s). ch \<notin> set (ns_closed s)))"

lemma ns_inv_register: "ns_inv s \<Longrightarrow> ns_waiter s = NoWaiter \<Longrightarrow> ns_inv (ns_register key s)"
  unfolding ns_inv_def ns_register_def by (auto simp: registered_of_def less_SucI)

lemma ns_inv_receive:
  "ns_inv s \<Longrightarrow> ns_waiter s = Waiting key ch \<Longrightarrow> ns_buffer s ch = uris # rest \<Longrightarrow>
   ns_inv (s\<lparr>ns_buffer := (ns_buffer s)(ch := rest), ns_received := ns_received s @ [(ch, uris)]\<rparr>)"
  unfolding ns_inv_def
  by (intro conjI; (elim conjE)?) (auto simp: registered_of_def dest: spec [of _ ch])

lemma ns_inv_leave: "ns_inv s \<Longrightarrow> ns_waiter s = Waiting key ch \<Longrightarrow> ns_inv (ns_leave key ch s)"
  unfolding ns_inv_def ns_leave_def by (simp add: registered_of_def)

lemma ns_inv_close: "ns_inv s \<Longrightarrow> ns_waiter s = Leaving ch \<Longrightarrow> ns_inv (ns_close ch s)"
  unfolding ns_inv_def ns_close_def
  by (intro conjI; (elim conjE)?) (auto simp: registered_of_def sends_pending_def)

lemma ns_inv_copy: "ns_inv s \<Longrightarrow> ns_inv (notify_copy uris s)"
  unfolding ns_inv_def notify_copy_def
  by (auto simp: registered_of_def sends_pending_simps split: waiter.splits)

lemma ns_inv_send:
  "ns_inv s \<Longrightarrow> ns_sending s = xs @ (uris, ch # chs) # ys \<Longrightarrow>
   ns_inv (notify_send uris ch (s\<lparr>ns_sending := xs @ (uris, chs) # ys\<rparr>))"
proof -
  assume inv: "ns_inv s" and sending: "ns_sending s = xs @ (uris, ch # chs) # ys"
  define pend where "pend = sends_pending (xs @ (uris, chs) # ys)"
  have p: "sends_pending (ns_sending s) = insert (ch, uris) pend"
    by (simp add: sending pend_def sends_pending_simps)
  show ?thesis
    using inv unfolding ns_inv_def p notify_send_def by (auto simp: pend_def [symmetric] split: waiter.splits)
qed

lemma notify_reachable_inv: "notify_reachable s \<Longrightarrow> ns_inv s"
proof (induction rule: notify_reachable.induct)
  case start
  show ?case by (simp add: ns_inv_def ns_start_def registered_of_def sends_pending_simps)
next
  case (step s s')
  from step(2) step.IH show ?case
    by (cases rule: notify_step.cases)
      (simp_all only: ns_inv_register ns_inv_receive ns_inv_leave ns_inv_close ns_inv_copy ns_inv_send)
qed

text \<open>
  The copy is used outside the lock. When the waiter leaves between the copy and the send, the
  send finds a closed channel.
\<close>

lemma notify_panic_reachable: "\<exists>s. notify_reachable s \<and> ns_panicked s"
proof -
  define s1 where "s1 = ns_register ''h:1'' ns_start"
  define s2 where "s2 = notify_copy [''http://h''] s1"
  define s3 where "s3 = ns_close 0 (ns_leave ''h:1'' 0 s2)"
  define s4 where "s4 = notify_send [''http://h''] 0 (s3\<lparr>ns_sending := [([''http://h''], [])]\<rparr>)"
  note defs = s1_def s2_def s3_def s4_def ns_register_def notify_copy_def ns_leave_def ns_close_def
    notify_send_def ns_start_def
  have "notify_step ns_start s1"
    unfolding s1_def by (rule notify_step.register) (simp add: ns_start_def)
  moreover have "notify_step s1 s2"
    unfolding s2_def by (rule notify_step.copy)
  moreover have "notify_step s2 (ns_leave ''h:1'' 0 s2)"
    by (rule notify_step.leave) (simp add: defs)
  moreover have "notify_step (ns_leave ''h:1'' 0 s2) s3"
    unfolding s3_def by (rule notify_step.close) (simp add: defs)
  moreover have "notify_step s3 s4"
    using notify_step.send [of s3 "[]" "[''http://h'']" 0 "[]" "[]"]
    unfolding s4_def by (simp add: defs)
  ultimately have "notify_reachable s4"
    by (meson notify_reachable.intros)
  moreover have "ns_panicked s4" by (simp add: defs)
  ultimately show ?thesis by blast
qed

section \<open>Captures of successive connections\<close>

text \<open>
  \<open>connectClient\<close> stores a new channel in \<open>captureReady\<close> and starts a capture, which closes
  whatever channel the field holds when its session is set up or has failed. \<open>rs_current\<close> is the
  channel in the field, \<open>rs_setup\<close> counts the captures that have not signalled yet.
\<close>

record ready_state =
  rs_current :: nat
  rs_closed :: "nat list"
  rs_setup :: nat
  rs_panicked :: bool

definition rs_start :: ready_state where
  "rs_start = \<lparr>rs_current = 0, rs_closed = [0], rs_setup = 0, rs_panicked = False\<rparr>"

definition rs_connect :: "ready_state \<Rightarrow> ready_state" where
  "rs_connect s = s\<lparr>rs_current := rs_current s + 1, rs_setup := rs_setup s + 1\<rparr>"

definition rs_signal :: "ready_state \<Rightarrow> ready_state" where
  "rs_signal s =
     (if rs_current s \<in> set (rs_closed s) then s\<lparr>rs_panicked := True, rs_setup := rs_setup s - 1\<rparr>
      else s\<lparr>rs_closed := rs_current s # rs_closed s, rs_setup := rs_setup s - 1\<rparr>)"

text \<open>\<open>patient\<close>: no connection is made while a capture has not signalled.\<close>

inductive ready_reachable :: "bool \<Rightarrow> ready_state \<Rightarrow> bool" for patient where
  start: "ready_reachable patient rs_start"
| connect: "ready_reachable patient s \<Longrightarrow> (patient \<Longrightarrow> rs_setup s = 0) \<Longrightarrow> ready_reachable patient (rs_connect s)"
| signal: "ready_reachable patient s \<Longrightarrow> rs_setup s > 0 \<Longrightarrow> ready_reachable patient (rs_signal s)"

lemma patient_ready:
  "ready_reachable True s \<Longrightarrow>
   \<not> rs_panicked s \<and> rs_setup s \<le> 1 \<and> (rs_setup s = 0 \<longleftrightarrow> rs_current s \<in> set (rs_closed s)) \<and>
   (\<forall>ch \<in> set (rs_closed s). ch \<le> rs_current s)"
  by (induction rule: ready_reachable.induct) (auto simp: rs_start_def rs_connect_def rs_signal_def)

lemma overtaken_capture_panics: "\<exists>s. ready_reachable False s \<and> rs_panicked s"
proof -
  have "ready_reachable False (rs_signal (rs_signal (rs_connect (rs_connect rs_start))))"
    by (intro ready_reachable.intros) (simp_all add: rs_signal_def rs_connect_def rs_start_def)
  moreover have "rs_panicked (rs_signal (rs_signal (rs_connect (rs_connect rs_start))))"
    by (simp add: rs_signal_def rs_connect_def rs_start_def)
  ultimately show ?thesis by blast
qed

section \<open>Properties\<close>

text \<open>
  C30. The readers stop. A reader returns exactly when the connection ends at some round or a read
  fails; it has then passed on, in order, what was extracted from each chunk read before the
  first such round, and nothing else: chunks without an address, and those whose extraction
  failed, are passed over.
\<close>

theorem reader_terminates:
  "(readServerOutput ctx_done read f 0 = None \<longleftrightarrow> (\<forall>n. \<not> round_stops ctx_done read n)) \<and>
   (round_stops ctx_done read k \<and> (\<forall>j < k. \<not> round_stops ctx_done read j) \<longrightarrow>
      readServerOutput ctx_done read f 0 = Some (concat (map (round_notifies read f) [0..<k])))"
proof (intro conjI impI iffI allI notI)
  fix n assume none: "readServerOutput ctx_done read f 0 = None" and stop: "round_stops ctx_done read n"
  define m where "m = (LEAST n. round_stops ctx_done read n)"
  have "round_stops ctx_done read m"
    unfolding m_def using stop by (rule LeastI [of "round_stops ctx_done read"])
  then have "round_stops ctx_done read (0 + m)" by simp
  moreover have "\<not> round_stops ctx_done read j" if "j \<in> {0..<0 + m}" for j
  proof -
    from that have "j < m" by simp
    then show ?thesis unfolding m_def by (rule not_less_Least)
  qed
  ultimately show False
    using readServerOutput_until [of 0 m ctx_done read f] none by auto
next
  assume never: "\<forall>n. \<not> round_stops ctx_done read n"
  show "readServerOutput ctx_done read f 0 = None"
  proof (cases "readServerOutput ctx_done read f 0")
    case (Some ns)
    from readServerOutput_returns [OF this] never show ?thesis by blast
  qed
next
  assume "round_stops ctx_done read k \<and> (\<forall>j < k. \<not> round_stops ctx_done read j)"
  then show "readServerOutput ctx_done read f 0 = Some (concat (map (round_notifies read f) [0..<k]))"
    using readServerOutput_until [of 0 k ctx_done read f] by simp
qed

theorem reader_terminates_witness:
  "readServerOutput (\<lambda>i. False) (\<lambda>i. if i = 1 then ([], Some (ExternalError ''EOF'')) else (''x'', None))
     (\<lambda>s. Inr [s]) 0 = Some [[''x'']]"
proof -
  define rd :: "nat \<Rightarrow> string \<times> go_error option" where
    "rd = (\<lambda>i. if i = 1 then ([], Some (ExternalError ''EOF'')) else (''x'', None))"
  have "round_stops (\<lambda>i. False) rd 1 \<and> (\<forall>j < 1. \<not> round_stops (\<lambda>i. False) rd j)"
    by (simp add: round_stops_def rd_def)
  moreover have "concat (map (round_notifies rd (\<lambda>s. Inr [s])) [0..<1]) = [[''x'']]"
    by (simp add: round_notifies_def processServerData_def rd_def)
  ultimately show ?thesis
    using reader_terminates [of "\<lambda>i. False" rd "\<lambda>s. Inr [s]" 1] unfolding rd_def by metis
qed

text \<open>
  C28. What is announced reaches only the forwarding being started at that time. In every reachable
  state, whatever the readers and the forwardings do: at most one channel is registered, the one
  of the forwarding being started; no buffer exceeds its capacity; what a forwarding received
  was passed on while its own channel was registered, never before; and a send on a closed
  channel can only come from a notifier that had copied the channel before it was closed and had
  not yet served it.
\<close>

theorem notifications_contained:
  assumes "notify_reachable s"
  shows "ns_registered s = (case ns_waiter s of Waiting key ch \<Rightarrow> [(key, ch)] | _ \<Rightarrow> []) \<and>
    (\<forall>ch. length (ns_buffer s ch) \<le> 5) \<and>
    set (ns_received s) \<subseteq> set (ns_sent s) \<and>
    (ns_panicked s \<longrightarrow> ns_overtaken s)"
  using notify_reachable_inv [OF assms] by (auto simp: ns_inv_def registered_of_def chan_capacity_def)

theorem notifications_contained_witness:
  "ns_registered (notify_copy [''http://h''] (ns_register ''h:1'' ns_start)) = [(''h:1'', 0)]"
proof -
  let ?s = "notify_copy [''http://h''] (ns_register ''h:1'' ns_start)"
  have "notify_step ns_start (ns_register ''h:1'' ns_start)"
    by (rule notify_step.register) (simp add: ns_start_def)
  then have "notify_reachable ?s"
    by (meson notify_reachable.intros notify_step.copy)
  from notifications_contained [OF this] show ?thesis
    by (simp add: notify_copy_def ns_register_def ns_start_def)
qed

text \<open>
  A forwarding never waits for the capture in vain, and no session is left open. However the
  set-up of the capture session ends, \<open>captureReady\<close> is closed exactly once, the session is
  closed if and only if it was created, output is read if and only if both pipes were opened,
  and then before \<open>captureReady\<close> is closed; and the request that is sent is the plain shell for a
  session without flags and the exec command of its flags otherwise.
\<close>

theorem capture_signals_once:
  "length (filter (\<lambda>e. e = CapReady) (captureServerOutput ce flags)) = 1 \<and>
   (CapCloseSession \<in> set (captureServerOutput ce flags) \<longleftrightarrow> createSSHSession ce = None) \<and>
   (takeWhile (\<lambda>e. e \<noteq> CapReady) (captureServerOutput ce flags) = [CapReader ''stdout'', CapReader ''stderr''] \<longleftrightarrow>
      createSSHSession ce = None \<and> cap_StdoutPipe ce = None \<and> cap_StderrPipe ce = None) \<and>
   filter (\<lambda>e. e = CapShell \<or> (\<exists>cmd. e = CapStart cmd)) (captureServerOutput ce flags) =
     (if createSSHSession ce = None \<and> cap_StdoutPipe ce = None \<and> cap_StderrPipe ce = None
      then [if ProxyProtocolVersion flags \<le> 0 \<and> \<not> SNIProxy flags then CapShell
            else CapStart (fst (execCommand flags))]
      else [])"
proof -
  obtain cmd useShell where c: "execCommand flags = (cmd, useShell)" by force
  then have sh: "useShell \<longleftrightarrow> ProxyProtocolVersion flags \<le> 0 \<and> \<not> SNIProxy flags"
    by (auto simp: execCommand_def Let_def split: if_splits)
  show ?thesis
    unfolding captureServerOutput_def c by (simp add: sh)
qed

end
