(* ===== verification/Go_Regexp.thy ===== *)
theory Go_Regexp
  imports Go_Strings
begin

text \<open>
  What the program uses of Go's \<open>regexp\<close>: expressions that are a sequence of literals and of
  greedy repetitions of a character class, with one capture group, and
  \<open>FindAllStringSubmatch\<close>. The class repetitions try the longest run first and back off, as
  the leftmost-first semantics of the package demands. All literals and classes are ASCII, so
  a match on bytes is a match on runes.
\<close>

section \<open>Expressions and the matcher\<close>

datatype rx_item = RxLit string | RxPlus "char \<Rightarrow> bool"

text \<open>Each item comes with a flag: whether it stands inside the parentheses of the group.\<close>

type_synonym rx = "(bool \<times> rx_item) list"

fun first_some :: "'a option list \<Rightarrow> 'a option" where
  "first_some [] = None"
| "first_some (None # xs) = first_some xs"
| "first_some (Some x # xs) = Some x"

text \<open>A match at the start of the text: the captured text and what is left behind the match.\<close>

fun rx_here :: "rx \<Rightarrow> string \<Rightarrow> (string \<times> string) option" where
  "rx_here [] s = Some ([], s)"
| "rx_here ((g, RxLit l) # is) s =
     (if HasPrefix s l
      then map_option (\<lambda>(c, r). (if g then l @ c else c, r)) (rx_here is (drop (length l) s))
      else None)"
| "rx_here ((g, RxPlus p) # is) s =
     first_some (map (\<lambda>k. map_option (\<lambda>(c, r). (if g then take k s @ c else c, r)) (rx_here is (drop k s)))
       (rev [1..<Suc (length (takeWhile p s))]))"

text \<open>
  The captured texts of all matches, from left to right, without overlap. A match of the
  empty text does not occur for the expressions of this program; moving on by at least one
  character is what makes the function total.
\<close>

function FindAllSubmatch :: "rx \<Rightarrow> string \<Rightarrow> string list" where
  "FindAllSubmatch re [] = []"
| "FindAllSubmatch re (x # xs) =
     (case rx_here re (x # xs) of
        None \<Rightarrow> FindAllSubmatch re xs
      | Some (c, r) \<Rightarrow> c # FindAllSubmatch re (if length r \<le> length xs then r else xs))"
  by pat_completeness auto
termination by (relation "measure (\<lambda>(re, s). length s)") auto

section \<open>The language of an expression\<close>

text \<open>\<open>rx_matches re t c\<close>: the text \<open>t\<close> is a match of \<open>re\<close> with captured text \<open>c\<close>.\<close>

inductive rx_matches :: "rx \<Rightarrow> string \<Rightarrow> string \<Rightarrow> bool" where
  empty: "rx_matches [] [] []"
| lit: "rx_matches is t c \<Longrightarrow> rx_matches ((g, RxLit l) # is) (l @ t) (if g then l @ c else c)"
| plus: "x \<noteq> [] \<Longrightarrow> (\<forall>ch \<in> set x. p ch) \<Longrightarrow> rx_matches is t c \<Longrightarrow>
    rx_matches ((g, RxPlus p) # is) (x @ t) (if g then x @ c else c)"

inductive_simps rx_matches_simps [simp]:
  "rx_matches [] t c"
  "rx_matches ((g, RxLit l) # is) t c"
  "rx_matches ((g, RxPlus p) # is) t c"

lemma first_some_Some: "first_some xs = Some x \<Longrightarrow> Some x \<in> set xs"
  by (induction xs rule: first_some.induct) auto

lemma first_some_None: "first_some xs = None \<longleftrightarrow> (\<forall>x \<in> set xs. x = None)"
  by (induction xs rule: first_some.induct) auto

lemma rx_here_sound: "rx_here re s = Some (c, r) \<Longrightarrow> \<exists>t. s = t @ r \<and> rx_matches re t c"
proof (induction re s arbitrary: c r rule: rx_here.induct)
  case (1 s)
  then show ?case by simp
next
  case (2 g l "is" s)
  then obtain c' where here: "HasPrefix s l" "rx_here is (drop (length l) s) = Some (c', r)"
      and c: "c = (if g then l @ c' else c')"
    by (auto split: if_splits)
  from 2(1) [OF here] obtain t where "drop (length l) s = t @ r" "rx_matches is t c'" by blast
  with here(1) c show ?case
    by (intro exI [of _ "l @ t"]) (auto simp: HasPrefix_iff)
next
  case (3 g p "is" s)
  have "Some (c, r) \<in> (\<lambda>k. map_option (\<lambda>(c, r). (if g then take k s @ c else c, r)) (rx_here is (drop k s))) `
      set (rev [1..<Suc (length (takeWhile p s))])"
    using first_some_Some [OF 3(2) [unfolded rx_here.simps]] by (simp only: set_map)
  then obtain k where mem: "k \<in> set (rev [1..<Suc (length (takeWhile p s))])" and
      k_eq: "map_option (\<lambda>(c, r). (if g then take k s @ c else c, r)) (rx_here is (drop k s)) = Some (c, r)"
    by (metis (no_types, lifting) imageE)
  then obtain c' where here: "rx_here is (drop k s) = Some (c', r)"
      and c: "c = (if g then take k s @ c' else c')"
    by (auto split: if_splits)
  have k: "1 \<le> k" "k \<le> length (takeWhile p s)" using mem by auto
  from 3(1) [OF mem here] obtain t where t: "drop k s = t @ r" "rx_matches is t c'" by blast
  have "\<forall>ch \<in> set (take k s). p ch"
    using k(2) by (metis takeWhile_eq_take set_takeWhileD set_take_subset_set_take subsetD)
  moreover have "take k s \<noteq> []"
    using k by (metis One_nat_def length_greater_0_conv length_takeWhile_le length_take
        less_eq_Suc_le list.size(3) min.absorb2 order_trans take_eq_Nil)
  ultimately have "rx_matches ((g, RxPlus p) # is) (take k s @ t) c"
    using rx_matches.plus [of "take k s" p "is" t c' g] t(2) c by simp
  moreover have "s = (take k s @ t) @ r" using t(1) by (metis append.assoc append_take_drop_id)
  ultimately show ?case by blast
qed

lemma rx_here_complete: "rx_matches re t c \<Longrightarrow> rx_here re (t @ r) \<noteq> None"
proof (induction rule: rx_matches.induct)
  case (plus x p "is" t c g)
  have "length x \<le> length (takeWhile p (x @ t @ r))"
    using plus(2) by simp
  moreover have "rx_here is (drop (length x) (x @ t @ r)) \<noteq> None" using plus.IH by simp
  ultimately show ?case
    using plus(1) by (auto simp: first_some_None less_Suc_eq_le Suc_le_eq intro!: bexI [of _ "length x"])
qed auto

section \<open>Determinism\<close>

text \<open>
  No choice is left to the matcher when behind each repetition comes a character outside its
  class; behind the last item comes the text \<open>after\<close>.
\<close>

fun rx_stops :: "(char \<Rightarrow> bool) \<Rightarrow> rx \<Rightarrow> string \<Rightarrow> bool" where
  "rx_stops p [] after \<longleftrightarrow> (case after of [] \<Rightarrow> True | c # _ \<Rightarrow> \<not> p c)"
| "rx_stops p ((g, RxLit l) # is) after \<longleftrightarrow> (case l of [] \<Rightarrow> False | c # _ \<Rightarrow> \<not> p c)"
| "rx_stops p ((g, RxPlus q) # is) after \<longleftrightarrow> (\<forall>c. \<not> (p c \<and> q c))"

fun rx_det :: "rx \<Rightarrow> string \<Rightarrow> bool" where
  "rx_det [] after \<longleftrightarrow> True"
| "rx_det ((g, RxLit l) # is) after \<longleftrightarrow> rx_det is after"
| "rx_det ((g, RxPlus p) # is) after \<longleftrightarrow> rx_stops p is after \<and> rx_det is after"

lemma rx_stops_head:
  assumes "rx_stops p re after" "rx_matches re t c"
  shows "takeWhile p (t @ after) = []"
proof (cases "(p, re, after)" rule: rx_stops.cases)
  case (3 p' g q "is" a)
  with assms obtain x t' where "t = x @ t'" "x \<noteq> []" "\<forall>ch \<in> set x. q ch" "\<forall>c. \<not> (p c \<and> q c)" by auto
  then show ?thesis by (cases x) auto
qed (use assms in \<open>auto split: list.splits\<close>)

lemma rx_here_det:
  "rx_matches re t c \<Longrightarrow> rx_det re after \<Longrightarrow> rx_here re (t @ after) = Some (c, after)"
proof (induction rule: rx_matches.induct)
  case (plus x p "is" t c g)
  have "takeWhile p (x @ t @ after) = x"
    using plus(2) rx_stops_head [OF _ plus(3)] plus.prems by (simp add: takeWhile_append2)
  then show ?case
    using plus.IH plus.prems plus(1) by (simp add: Suc_le_eq)
qed auto

section \<open>Searching\<close>

lemma FindAllSubmatch_sound:
  "c \<in> set (FindAllSubmatch re s) \<Longrightarrow> \<exists>a t b. s = a @ t @ b \<and> rx_matches re t c"
proof (induction re s rule: FindAllSubmatch.induct)
  case (2 re x xs)
  show ?case
  proof (cases "rx_here re (x # xs)")
    case None
    with 2 obtain a t b where "xs = a @ t @ b" "rx_matches re t c" by auto
    then show ?thesis by (metis append_Cons)
  next
    case (Some p)
    obtain d r where p: "p = (d, r)" by force
    obtain m where m: "x # xs = m @ r" "rx_matches re m d"
      using rx_here_sound Some p by blast
    let ?rest = "if length r \<le> length xs then r else xs"
    consider "c = d" | "c \<in> set (FindAllSubmatch re ?rest)"
      using 2(3) Some p by auto
    then show ?thesis
    proof cases
      case 1
      then show ?thesis using m by (metis append_Nil)
    next
      case 2
      with "2.IH"(2) [OF Some p [symmetric]] obtain a t b where
        "?rest = a @ t @ b" "rx_matches re t c" by blast
      moreover have "\<exists>pre. x # xs = pre @ ?rest"
        using m(1) by (auto intro: exI [of _ m] exI [of _ "[x]"])
      ultimately obtain pre where "x # xs = pre @ a @ t @ b" "rx_matches re t c" by auto
      then show ?thesis by (metis append.assoc)
    qed
  qed
qed simp

lemma FindAllSubmatch_complete:
  "rx_matches re t c \<Longrightarrow> t \<noteq> [] \<Longrightarrow> FindAllSubmatch re (a @ t @ b) \<noteq> []"
proof (induction a)
  case Nil
  then obtain x xs where "t @ b = x # xs" by (cases t) auto
  with rx_here_complete [OF Nil(1), of b] show ?case by (auto split: option.splits)
next
  case (Cons x a)
  then show ?case by (auto split: option.splits)
qed

text \<open>Text that no match leaves to the right only adds captures in front.\<close>

lemma FindAllSubmatch_skip:
  assumes "\<And>u v c r. a = u @ v \<Longrightarrow> v \<noteq> [] \<Longrightarrow> rx_here re (v @ b) = Some (c, r) \<Longrightarrow> length b \<le> length r"
  shows "\<exists>cs. FindAllSubmatch re (a @ b) = cs @ FindAllSubmatch re b"
  using assms
proof (induction "length a" arbitrary: a rule: less_induct)
  case less
  show ?case
  proof (cases a)
    case Nil
    then show ?thesis by simp
  next
    case (Cons x a')
    have step: "\<exists>cs. FindAllSubmatch re (v @ b) = cs @ FindAllSubmatch re b"
      if "a = u @ v" "u \<noteq> []" for u v
      using that less(1) [of v] less(2) by (metis append.assoc append_is_Nil_conv length_append
          length_greater_0_conv less_add_same_cancel2)
    show ?thesis
    proof (cases "rx_here re (a @ b)")
      case None
      with Cons step [of "[x]" a'] show ?thesis by simp
    next
      case (Some p)
      obtain c r where p: "p = (c, r)" by force
      have len: "length b \<le> length r"
        using less(2) [of "[]" a c r] Cons Some p by simp
      obtain t where t: "a @ b = t @ r" using rx_here_sound Some p by blast
      then obtain v where r: "r = v @ b" and a: "a = t @ v"
        using len by (force simp: append_eq_append_conv2)
      show ?thesis
      proof (cases "length r \<le> length (a' @ b)")
        case True
        then have "t \<noteq> []" using t Cons by auto
        with step [OF a] r Cons Some p True show ?thesis by (auto intro: exI [of _ "c # _"])
      next
        case False
        with step [of "[x]" a'] Cons Some p show ?thesis by (auto intro: exI [of _ "c # _"])
      qed
    qed
  qed
qed

end
