(* ===== verification/Remote_Address.thy ===== *)
theory Remote_Address
  imports Go_Regexp Go_Url Host_Match
begin

text \<open>
  \<open>getRemoteAddress\<close> of \<open>controllers/common.go\<close>: the addresses announced in the output of the
  SSH server, found with seven expressions. \<open>remoteAddressPatterns\<close> is a Go map, so the
  schemes are visited in any order; the theorems hold for each.
\<close>

section \<open>The expressions\<close>

text \<open>The classes \<open>\s\<close> and \<open>[\w\.-]\<close>; \<open>\d\<close> is \<open>is_digit\<close>.\<close>

definition is_space :: "char \<Rightarrow> bool" where
  "is_space c \<longleftrightarrow> c \<in> {CHR 0x09, CHR 0x0A, CHR 0x0C, CHR 0x0D, CHR 0x20}"

definition esc_colour :: string where
  "esc_colour = [CHR 0x1B] @ ''[0m:''"

definition tcp_group :: rx where
  "tcp_group = [(True, RxPlus name_char), (True, RxLit '':''), (True, RxPlus is_digit)]"

definition http_group :: "string \<Rightarrow> rx" where
  "http_group prefix = [(True, RxLit prefix), (True, RxPlus name_char)]"

definition coloured :: "string \<Rightarrow> rx \<Rightarrow> rx" where
  "coloured label grp = [(False, RxLit (label @ esc_colour)), (False, RxPlus is_space)] @ grp @ [(False, RxLit [CHR 0x0D])]"

definition plain :: "string \<Rightarrow> rx \<Rightarrow> rx" where
  "plain prefix grp = (False, RxLit prefix) # grp"

definition remoteAddressPatterns :: "(string, rx list) gomap" where
  "remoteAddressPatterns =
     [(''tcp'', [coloured ''TCP'' tcp_group,
                 plain ''Forwarding TCP traffic from '' tcp_group]),
      (''http'', [coloured ''HTTP'' (http_group ''http://''),
                  plain ''Forwarding HTTP traffic from '' (http_group ''http://'')]),
      (''https'', [coloured ''HTTPS'' (http_group ''https://''),
                   plain ''tunneled with tls termination, '' (http_group ''https://''),
                   plain ''Forwarding HTTP traffic from '' (http_group ''https://'')])]"

fun addresses_of :: "string \<Rightarrow> rx list \<Rightarrow> string \<Rightarrow> string list" where
  "addresses_of scheme [] input = []"
| "addresses_of scheme (re # pats) input =
     map (\<lambda>m. if scheme = ''tcp'' then ''tcp://'' @ m else m) (FindAllSubmatch re input)
     @ addresses_of scheme pats input"

fun getRemoteAddress :: "(string, rx list) gomap \<Rightarrow> string \<Rightarrow> string list" where
  "getRemoteAddress [] input = []"
| "getRemoteAddress ((scheme, pats) # ps) input = addresses_of scheme pats input @ getRemoteAddress ps input"

section \<open>Announcements\<close>

text \<open>The text \<open>line\<close> announces the address \<open>uri\<close>: one of the expressions describes it.\<close>

definition announces :: "string \<Rightarrow> string \<Rightarrow> bool" where
  "announces line uri \<longleftrightarrow>
     (\<exists>(scheme, pats) \<in> set remoteAddressPatterns. \<exists>re \<in> set pats. \<exists>c.
        rx_matches re line c \<and> uri = (if scheme = ''tcp'' then ''tcp://'' @ c else c))"

lemma addresses_of_set:
  "set (addresses_of scheme pats input) =
     (\<Union>re \<in> set pats. (\<lambda>m. if scheme = ''tcp'' then ''tcp://'' @ m else m) ` set (FindAllSubmatch re input))"
  by (induction pats) auto

lemma getRemoteAddress_set:
  "set (getRemoteAddress ps input) = (\<Union>(scheme, pats) \<in> set ps. set (addresses_of scheme pats input))"
  by (induction ps) auto

lemma getRemoteAddress_mem:
  assumes "set ps = set remoteAddressPatterns"
  shows "uri \<in> set (getRemoteAddress ps input) \<longleftrightarrow>
    (\<exists>(scheme, pats) \<in> set remoteAddressPatterns. \<exists>re \<in> set pats. \<exists>c \<in> set (FindAllSubmatch re input).
       uri = (if scheme = ''tcp'' then ''tcp://'' @ c else c))"
  by (simp only: getRemoteAddress_set addresses_of_set assms UN_iff image_iff case_prod_unfold)

definition group_char :: "char \<Rightarrow> bool" where
  "group_char c \<longleftrightarrow> name_char c \<or> c = CHR '':'' \<or> c = CHR ''/''"

text \<open>A group: its match is not empty, has a colon, and consists of the characters of an address.\<close>

definition address_group :: "rx \<Rightarrow> bool" where
  "address_group g \<longleftrightarrow>
     (\<forall>t c. rx_matches g t c \<longrightarrow> CHR '':'' \<in> set t \<and> (\<forall>ch \<in> set t. group_char ch))"

lemma address_group_tcp: "address_group tcp_group"
  by (auto simp: address_group_def tcp_group_def group_char_def is_digit_name)

lemma prefix_chars:
  "list_all group_char ''http://''" "list_all group_char ''https://''"
  by code_simp+

lemma address_group_prefix:
  assumes "list_all group_char prefix" "CHR '':'' \<in> set prefix"
  shows "address_group (http_group prefix)"
  using assms by (auto simp: address_group_def http_group_def list_all_iff group_char_def)

lemma address_group_http: "address_group (http_group ''http://'')" "address_group (http_group ''https://'')"
  by (rule address_group_prefix [OF prefix_chars(1)], simp)
    (rule address_group_prefix [OF prefix_chars(2)], simp)

lemma rx_matches_appendD:
  "rx_matches (re @ re') t c \<Longrightarrow> \<exists>t1 t2 c1 c2. t = t1 @ t2 \<and> rx_matches re t1 c1 \<and> rx_matches re' t2 c2"
proof (induction re arbitrary: t c)
  case (Cons i re)
  obtain g x where i: "i = (g, x)" by force
  show ?case
  proof (cases x)
    case (RxLit l)
    with Cons.prems i obtain t' c' where t': "t = l @ t'" "rx_matches (re @ re') t' c'" by auto
    from Cons.IH [OF t'(2)] obtain t1 t2 c1 c2 where
      "t' = t1 @ t2" "rx_matches re t1 c1" "rx_matches re' t2 c2" by blast
    with t'(1) i RxLit rx_matches.lit [of re t1 c1 g l] show ?thesis
      by (metis append.assoc)
  next
    case (RxPlus p)
    with Cons.prems i obtain y t' c' where
      t': "t = y @ t'" "y \<noteq> []" "\<forall>ch \<in> set y. p ch" "rx_matches (re @ re') t' c'" by auto
    from Cons.IH [OF t'(4)] obtain t1 t2 c1 c2 where
      "t' = t1 @ t2" "rx_matches re t1 c1" "rx_matches re' t2 c2" by blast
    with t'(1) i RxPlus rx_matches.plus [OF t'(2,3), of re t1 c1 g] show ?thesis
      by (metis append.assoc)
  qed
qed auto

section \<open>Matches that do not reach into an announcement\<close>

text \<open>The two shapes of expression, as texts.\<close>

lemma coloured_matches:
  assumes "rx_matches (coloured label g) t c" "address_group g"
  obtains ws x where "t = label @ esc_colour @ ws @ x @ [CHR 0x0D]"
    "\<forall>ch \<in> set ws. is_space ch" "\<forall>ch \<in> set x. group_char ch"
proof -
  from assms(1) obtain ws t' c' where t: "t = (label @ esc_colour) @ ws @ t'" "\<forall>ch \<in> set ws. is_space ch"
      and r: "rx_matches (g @ [(False, RxLit [CHR 0x0D])]) t' c'"
    by (auto simp: coloured_def)
  from rx_matches_appendD [OF r] obtain x c1 where "t' = x @ [CHR 0x0D]" "rx_matches g x c1" by auto
  with assms(2) t that [of ws x] show thesis by (auto simp: address_group_def)
qed

lemma plain_matches:
  assumes "rx_matches (plain prefix g) t c" "address_group g"
  obtains x where "t = prefix @ x" "CHR '':'' \<in> set x" "\<forall>ch \<in> set x. group_char ch"
  using assms by (auto simp: plain_def address_group_def)

text \<open>
  A coloured label has the escape character once, so no match that starts before an announcement
  reaches into it.
\<close>

lemma not_group_char: "\<not> group_char (CHR 0x1B)" "\<not> group_char (CHR 0x0D)" "\<not> group_char (CHR '' '')"
  by code_simp+

lemma not_space: "\<not> is_space (CHR 0x1B)"
  by code_simp

lemma coloured_no_overlap:
  assumes m: "rx_matches (coloured label g) (v @ w) c" "address_group g" and v: "v \<noteq> []"
    and w: "w \<noteq> []" "w @ z = label @ esc_colour @ y"
    and label: "CHR 0x1B \<notin> set label" "CHR 0x0D \<notin> set label"
  shows False
proof -
  obtain ws x where t: "v @ w = label @ esc_colour @ ws @ x @ [CHR 0x0D]"
      and ws: "\<forall>ch \<in> set ws. is_space ch" and x: "\<forall>ch \<in> set x. group_char ch"
    by (rule coloured_matches [OF m])
  have esc: "CHR 0x1B \<notin> set ws" "CHR 0x1B \<notin> set x"
    using ws x not_group_char(1) not_space by blast+
  have "last w = CHR 0x0D"
    using arg_cong [OF t, of last] w(1) by simp
  then have cr: "CHR 0x0D \<in> set w" using w(1) last_in_set by metis
  have cr_label: "CHR 0x0D \<notin> set (label @ esc_colour)" using label(2) by (simp add: esc_colour_def)
  obtain u where u: "w = label @ esc_colour @ u"
  proof (cases "length w \<le> length (label @ esc_colour)")
    case True
    then have "w = take (length w) (label @ esc_colour)"
      using arg_cong [OF w(2), of "take (length w)"] by simp
    with cr cr_label show thesis by (metis in_set_takeD)
  next
    case False
    then have "take (length (label @ esc_colour)) w = label @ esc_colour"
      using arg_cong [OF w(2), of "take (length (label @ esc_colour))"] by simp
    then show thesis using that by (metis append.assoc append_take_drop_id)
  qed
  have "count_list (v @ w) (CHR 0x1B) = 1"
    unfolding t using label esc by (simp add: esc_colour_def count_list_append)
  moreover have "count_list w (CHR 0x1B) \<ge> 1" unfolding u by (simp add: esc_colour_def count_list_append)
  ultimately have "count_list v (CHR 0x1B) = 0"
    by (simp add: count_list_append)
  then have "CHR 0x1B \<notin> set v"
    by (metis count_list_0_iff)
  have e: "(v @ label) @ CHR 0x1B # (''[0m:'' @ u) = label @ CHR 0x1B # (''[0m:'' @ ws @ x @ [CHR 0x0D])"
    using t unfolding u esc_colour_def by simp
  have "CHR 0x1B \<notin> set (v @ label)" using \<open>CHR 0x1B \<notin> set v\<close> label(1) by simp
  from first_sep_eq [OF e this label(1)] show False using v by simp
qed

text \<open>
  For the other expressions: the prefix does not overlap itself, so a match that reaches into an
  announcement would have to do so with its address, which ends at the last character before.
\<close>

definition no_border :: "string \<Rightarrow> bool" where
  "no_border l \<longleftrightarrow> list_all (\<lambda>i. \<not> HasPrefix l (drop i l)) [1..<length l]"

lemma plain_no_overlap:
  assumes m: "rx_matches (plain l g) (v @ w) c" "address_group g" and v: "v \<noteq> []" "\<not> group_char (last v)"
    and w: "w \<noteq> []" "w @ z = l @ y"
    and l: "no_border l" "\<not> group_char (last l)" "l \<noteq> []" "CHR '':'' \<notin> set l"
  shows False
proof -
  obtain x where t: "v @ w = l @ x" and x: "CHR '':'' \<in> set x" "\<forall>ch \<in> set x. group_char ch"
    by (rule plain_matches [OF m])
  show False
  proof (cases "length v < length l")
    case True
    then have wx: "w = drop (length v) l @ x"
      using arg_cong [OF t, of "drop (length v)"] by simp
    with w(2) have "take (length l - length v) (l @ y) = drop (length v) l"
      by (metis append.assoc append_eq_conv_conj length_drop)
    then have "HasPrefix l (drop (length v) l)" by (simp add: HasPrefix_def)
    with l(1) True v(1) show False by (auto simp: no_border_def list_all_iff Suc_le_eq)
  next
    case False
    then obtain u where u: "v = l @ u" "u @ w = x"
      using t by (auto simp: append_eq_append_conv2)
    show False
    proof (cases "u = []")
      case False
      with u x(2) v(2) show False by (metis Un_iff last_appendR last_in_set set_append)
    next
      case True
      with u have wx: "w = x" by simp
      show False
      proof (cases "length w < length l")
        case True
        then have "w = take (length w) l" using arg_cong [OF w(2), of "take (length w)"] by simp
        with x(1) wx l(4) show False by (metis in_set_takeD)
      next
        case False
        then have "l = take (length l) w" using arg_cong [OF w(2), of "take (length l)"] by simp
        with x(2) wx l(2,3) show False by (metis in_set_takeD last_in_set)
      qed
    qed
  qed
qed

section \<open>Announcements are found\<close>

lemma name_not_space: "\<not> (is_space c \<and> name_char c)"
  by (auto simp: is_space_def name_char_def is_letter_def is_digit_def)

text \<open>
  An expression finds every announcement it describes when nothing that stands before reaches
  into it and no choice is left.
\<close>

lemma found:
  assumes "rx_matches re line c" "rx_det re after" "line \<noteq> []"
    and "\<And>u v w c z. before = u @ v \<Longrightarrow> v \<noteq> [] \<Longrightarrow> w \<noteq> [] \<Longrightarrow> w @ z = line @ after \<Longrightarrow> \<not> rx_matches re (v @ w) c"
  shows "c \<in> set (FindAllSubmatch re (before @ line @ after))"
proof -
  have "\<exists>cs. FindAllSubmatch re (before @ line @ after) = cs @ FindAllSubmatch re (line @ after)"
  proof (rule FindAllSubmatch_skip, rule ccontr)
    fix u v d r
    assume b: "before = u @ v" "v \<noteq> []" and here: "rx_here re (v @ line @ after) = Some (d, r)"
      and len: "\<not> length (line @ after) \<le> length r"
    from rx_here_sound [OF here] obtain t where t: "v @ line @ after = t @ r" "rx_matches re t d" by blast
    define w where "w = drop (length v) t"
    have "length v + length (line @ after) = length t + length r"
      using t(1) by (metis length_append)
    with len have "length v < length t" by linarith
    then have w: "t = v @ w" "w \<noteq> []"
      using arg_cong [OF t(1), of "take (length v)"] append_take_drop_id [of "length v" t]
      by (auto simp: w_def)
    with t(1) have "w @ r = line @ after" by simp
    with assms(4) [OF b w(2), of r d] t(2) w(1) show False by simp
  qed
  moreover obtain x xs where "line @ after = x # xs" using assms(3) by (cases line) auto
  then have "c \<in> set (FindAllSubmatch re (line @ after))"
    using rx_here_det [OF assms(1,2)] by simp
  ultimately show ?thesis by auto
qed

lemma coloured_found:
  assumes "rx_matches (coloured label g) line c" "address_group g"
    and "CHR 0x1B \<notin> set label" "CHR 0x0D \<notin> set label"
    and "rx_det (coloured label g) after"
  shows "c \<in> set (FindAllSubmatch (coloured label g) (before @ line @ after))"
proof (rule found [OF assms(1,5)])
  obtain ws x where line: "line = label @ esc_colour @ ws @ x @ [CHR 0x0D]"
    by (rule coloured_matches [OF assms(1,2)])
  then show "line \<noteq> []" by simp
  fix u v w :: string and d z
  assume "v \<noteq> []" "w \<noteq> []" "w @ z = line @ after"
  with coloured_no_overlap [of label g v w d z "ws @ x @ [CHR 0x0D] @ after"] assms(2-4) line
  show "\<not> rx_matches (coloured label g) (v @ w) d" by auto
qed

lemma plain_found:
  assumes "rx_matches (plain l g) line c" "address_group g" "before = [] \<or> \<not> group_char (last before)"
    and "no_border l" "\<not> group_char (last l)" "l \<noteq> []" "CHR '':'' \<notin> set l"
    and "rx_det (plain l g) after"
  shows "c \<in> set (FindAllSubmatch (plain l g) (before @ line @ after))"
proof (rule found [OF assms(1,8)])
  obtain x where line: "line = l @ x" by (rule plain_matches [OF assms(1,2)])
  with assms(6) show "line \<noteq> []" by simp
  fix u v w :: string and d z
  assume b: "before = u @ v" "v \<noteq> []" and w: "w \<noteq> []" "w @ z = line @ after"
  have "\<not> group_char (last v)" using assms(3) b by auto
  with plain_no_overlap [OF _ assms(2) b(2), of l w d z "x @ after"] w assms(4-7) line
  show "\<not> rx_matches (plain l g) (v @ w) d" by auto
qed

text \<open>All seven expressions have what the two lemmas ask for.\<close>

lemma seps_not_in_classes: "\<not> name_char (CHR '':'')" "\<not> name_char (CHR 0x0D)" "\<not> is_digit (CHR 0x0D)" "\<not> is_space (CHR ''h'')"
  by code_simp+

lemma det_after:
  assumes "after = [] \<or> \<not> name_char (hd after)"
  shows "rx_det (plain l tcp_group) after" "rx_det (coloured l tcp_group) after"
    "rx_det (plain l (http_group ''http://'')) after" "rx_det (coloured l (http_group ''http://'')) after"
    "rx_det (plain l (http_group ''https://'')) after" "rx_det (coloured l (http_group ''https://'')) after"
  using assms name_not_space seps_not_in_classes is_digit_name
  by (auto simp: plain_def coloured_def tcp_group_def http_group_def split: list.splits)

definition coloured_labels :: "string list" where
  "coloured_labels = [''TCP'', ''HTTP'', ''HTTPS'']"

definition plain_prefixes :: "string list" where
  "plain_prefixes =
     [''Forwarding TCP traffic from '', ''Forwarding HTTP traffic from '', ''tunneled with tls termination, '']"

definition address_groups :: "rx set" where
  "address_groups = {tcp_group, http_group ''http://'', http_group ''https://''}"

lemma address_groups_ok: "g \<in> address_groups \<Longrightarrow> address_group g"
  using address_group_tcp address_group_http by (auto simp: address_groups_def)

lemma pattern_shapes:
  "(scheme, pats) \<in> set remoteAddressPatterns \<Longrightarrow> re \<in> set pats \<Longrightarrow>
   \<exists>l. \<exists>g \<in> address_groups. re = coloured l g \<and> l \<in> set coloured_labels \<or> re = plain l g \<and> l \<in> set plain_prefixes"
  unfolding remoteAddressPatterns_def address_groups_def coloured_labels_def plain_prefixes_def by auto

lemma label_chars:
  "list_all (\<lambda>l. CHR 0x1B \<notin> set l \<and> CHR 0x0D \<notin> set l) coloured_labels"
  by code_simp

lemma prefix_ok:
  "list_all (\<lambda>l. no_border l \<and> \<not> group_char (last l) \<and> l \<noteq> [] \<and> CHR '':'' \<notin> set l) plain_prefixes"
  by code_simp

lemma getRemoteAddress_announced:
  assumes "set ps = set remoteAddressPatterns" "announces line uri"
    and "before = [] \<or> \<not> group_char (last before)" and "after = [] \<or> \<not> name_char (hd after)"
  shows "uri \<in> set (getRemoteAddress ps (before @ line @ after))"
proof -
  from assms(2) obtain scheme pats re c where p: "(scheme, pats) \<in> set remoteAddressPatterns" "re \<in> set pats"
    and m: "rx_matches re line c" and uri: "uri = (if scheme = ''tcp'' then ''tcp://'' @ c else c)"
    unfolding announces_def by blast
  from pattern_shapes [OF p] obtain l g where g: "g \<in> address_groups" and
      shape: "re = coloured l g \<and> l \<in> set coloured_labels \<or> re = plain l g \<and> l \<in> set plain_prefixes"
    by blast
  have det: "rx_det (coloured l g) after" "rx_det (plain l g) after"
    using g det_after [OF assms(4)] by (auto simp: address_groups_def)
  note ag = address_groups_ok [OF g]
  have "c \<in> set (FindAllSubmatch re (before @ line @ after))"
    using shape
  proof
    assume "re = coloured l g \<and> l \<in> set coloured_labels"
    with m det(1) label_chars show ?thesis
      by (auto simp only: list_all_iff intro: coloured_found [OF _ ag])
  next
    assume "re = plain l g \<and> l \<in> set plain_prefixes"
    with m det(2) prefix_ok assms(3) show ?thesis
      by (auto simp only: list_all_iff intro: plain_found [OF _ ag])
  qed
  with p uri show ?thesis
    unfolding getRemoteAddress_mem [OF assms(1)] by blast
qed

text \<open>What is announced has one of three forms.\<close>

lemma tcp_capture:
  "rx_matches (coloured l tcp_group) t c \<or> rx_matches (plain l tcp_group) t c \<Longrightarrow>
   \<exists>x d. c = x @ '':'' @ d \<and> list_all name_char x \<and> list_all is_digit d"
  by (auto simp: coloured_def plain_def tcp_group_def list_all_iff)

lemma http_capture:
  "rx_matches (coloured l (http_group s)) t c \<or> rx_matches (plain l (http_group s)) t c \<Longrightarrow>
   \<exists>x. c = s @ x \<and> x \<noteq> [] \<and> list_all name_char x"
  by (auto simp: coloured_def plain_def http_group_def list_all_iff)

definition address_form :: "string \<Rightarrow> bool" where
  "address_form uri \<longleftrightarrow>
     (\<exists>x. x \<noteq> [] \<and> list_all name_char x \<and> (uri = ''http://'' @ x \<or> uri = ''https://'' @ x)) \<or>
     (\<exists>x d. list_all name_char x \<and> list_all is_digit d \<and> uri = ''tcp://'' @ x @ '':'' @ d)"

lemma announces_form: "announces line uri \<Longrightarrow> address_form uri"
  unfolding announces_def remoteAddressPatterns_def
  by (simp del: rx_matches_simps add: ex_disj_distrib)
    (elim disjE exE conjE; drule tcp_capture [OF disjI1] http_capture [OF disjI1] tcp_capture [OF disjI2] http_capture [OF disjI2];
     fastforce simp: address_form_def)

lemma is_digit_no_colon: "list_all is_digit d \<Longrightarrow> CHR '':'' \<notin> set d"
  by (auto simp: list_all_iff is_digit_def)

lemma tcp_form_host:
  assumes "address_form (''tcp://'' @ h @ '':'' @ Itoa p)"
  shows "CHR '':'' \<notin> set h \<and> CHR ''['' \<notin> set h \<and> CHR '']'' \<notin> set h"
proof -
  from assms obtain x d where x: "list_all name_char x" "list_all is_digit d"
      and e: "h @ CHR '':'' # Itoa p = x @ CHR '':'' # d"
    by (auto simp: address_form_def)
  have "h = x"
    using last_sep_eq [OF e] is_digit_no_colon [OF x(2)] Itoa_no_sep by blast
  moreover have "\<not> name_char (CHR '':'')" "\<not> name_char (CHR ''['')" "\<not> name_char (CHR '']'')" by code_simp+
  ultimately show ?thesis using x(1) unfolding list_all_iff by blast
qed

lemma tcp_prefix:
  "HasPrefix (''tcp://'' @ x) ''tcp://''" "\<not> HasPrefix (''tcp://'' @ x) ''http://''" "\<not> HasPrefix (''tcp://'' @ x) ''https://''"
  by simp_all

lemma http_satisfies: "uri_satisfies h p e (''http://'' @ h)" "uri_satisfies h p e (''https://'' @ h)"
proof -
  have no: "\<not> HasPrefix (''https://'' @ h) ''http://''" by simp
  have "httpURIHasHost (''http://'' @ h) h" "httpURIHasHost (''https://'' @ h) h"
    unfolding httpURIHasHost_def Let_def TrimPrefix_append using no
    by (simp_all only: HasPrefix_append if_True if_False) (simp_all add: HasPrefix_def)
  then show "uri_satisfies h p e (''http://'' @ h)" "uri_satisfies h p e (''https://'' @ h)"
    by (simp_all add: uri_satisfies_def)
qed

lemma tcp_satisfies:
  assumes "tcpURIPort (''tcp://'' @ h @ '':'' @ Itoa p) = Some p"
    and "Contains (''tcp://'' @ h @ '':'' @ Itoa p) (forwardingKey h p)"
  shows "uri_satisfies h p e (''tcp://'' @ h @ '':'' @ Itoa p)"
  using assms tcp_prefix [of "h @ '':'' @ Itoa p"] by (simp only: uri_satisfies_def if_False simp_thms if_cancel)

section \<open>What counts as an announcement\<close>

text \<open>
  The seven texts in which sish announces an address, written out, without the expressions:
  a coloured label, blanks, the address and a carriage return; or a sentence and the address.
\<close>

definition host_text :: "string \<Rightarrow> bool" where
  "host_text h \<longleftrightarrow> h \<noteq> [] \<and> (\<forall>c \<in> set h. name_char c)"

definition port_text :: "string \<Rightarrow> bool" where
  "port_text d \<longleftrightarrow> d \<noteq> [] \<and> (\<forall>c \<in> set d. is_digit c)"

definition blanks :: "string \<Rightarrow> bool" where
  "blanks ws \<longleftrightarrow> ws \<noteq> [] \<and> (\<forall>c \<in> set ws. is_space c)"

inductive announcement :: "string \<Rightarrow> string \<Rightarrow> bool" where
  tcp_label: "blanks ws \<Longrightarrow> host_text h \<Longrightarrow> port_text d \<Longrightarrow>
     announcement (''TCP'' @ [CHR 0x1B] @ ''[0m:'' @ ws @ h @ '':'' @ d @ [CHR 0x0D]) (''tcp://'' @ h @ '':'' @ d)"
| tcp_sentence: "host_text h \<Longrightarrow> port_text d \<Longrightarrow>
     announcement (''Forwarding TCP traffic from '' @ h @ '':'' @ d) (''tcp://'' @ h @ '':'' @ d)"
| http_label: "blanks ws \<Longrightarrow> host_text h \<Longrightarrow>
     announcement (''HTTP'' @ [CHR 0x1B] @ ''[0m:'' @ ws @ ''http://'' @ h @ [CHR 0x0D]) (''http://'' @ h)"
| http_sentence: "host_text h \<Longrightarrow>
     announcement (''Forwarding HTTP traffic from '' @ ''http://'' @ h) (''http://'' @ h)"
| https_label: "blanks ws \<Longrightarrow> host_text h \<Longrightarrow>
     announcement (''HTTPS'' @ [CHR 0x1B] @ ''[0m:'' @ ws @ ''https://'' @ h @ [CHR 0x0D]) (''https://'' @ h)"
| https_termination: "host_text h \<Longrightarrow>
     announcement (''tunneled with tls termination, '' @ ''https://'' @ h) (''https://'' @ h)"
| https_sentence: "host_text h \<Longrightarrow>
     announcement (''Forwarding HTTP traffic from '' @ ''https://'' @ h) (''https://'' @ h)"

text \<open>Each expression describes one of these texts.\<close>

lemma coloured_tcp_iff:
  "rx_matches (coloured l tcp_group) t c \<longleftrightarrow>
     (\<exists>ws h d. blanks ws \<and> host_text h \<and> port_text d \<and> c = h @ '':'' @ d \<and>
        t = l @ [CHR 0x1B] @ ''[0m:'' @ ws @ h @ '':'' @ d @ [CHR 0x0D])"
  by (auto simp: coloured_def tcp_group_def esc_colour_def blanks_def host_text_def port_text_def)
    (intro exI conjI; (rule refl | assumption | simp))+

lemma plain_tcp_iff:
  "rx_matches (plain l tcp_group) t c \<longleftrightarrow>
     (\<exists>h d. host_text h \<and> port_text d \<and> c = h @ '':'' @ d \<and> t = l @ h @ '':'' @ d)"
  by (auto simp: plain_def tcp_group_def host_text_def port_text_def)
    (intro exI conjI; (rule refl | assumption | simp))+

lemma coloured_http_iff:
  "rx_matches (coloured l (http_group s)) t c \<longleftrightarrow>
     (\<exists>ws h. blanks ws \<and> host_text h \<and> c = s @ h \<and> t = l @ [CHR 0x1B] @ ''[0m:'' @ ws @ s @ h @ [CHR 0x0D])"
  by (auto simp: coloured_def http_group_def esc_colour_def blanks_def host_text_def)

lemma plain_http_iff:
  "rx_matches (plain l (http_group s)) t c \<longleftrightarrow> (\<exists>h. host_text h \<and> c = s @ h \<and> t = l @ s @ h)"
  by (auto simp: plain_def http_group_def host_text_def)

lemmas pattern_texts = coloured_tcp_iff plain_tcp_iff coloured_http_iff plain_http_iff

lemma announces_cases:
  "announces line uri \<longleftrightarrow>
     (\<exists>c. uri = ''tcp://'' @ c \<and> (rx_matches (coloured ''TCP'' tcp_group) line c \<or>
        rx_matches (plain ''Forwarding TCP traffic from '' tcp_group) line c)) \<or>
     rx_matches (coloured ''HTTP'' (http_group ''http://'')) line uri \<or>
     rx_matches (plain ''Forwarding HTTP traffic from '' (http_group ''http://'')) line uri \<or>
     rx_matches (coloured ''HTTPS'' (http_group ''https://'')) line uri \<or>
     rx_matches (plain ''tunneled with tls termination, '' (http_group ''https://'')) line uri \<or>
     rx_matches (plain ''Forwarding HTTP traffic from '' (http_group ''https://'')) line uri"
  unfolding announces_def remoteAddressPatterns_def by (auto simp del: rx_matches_simps)

lemma announcement_iff: "announcement line uri \<longleftrightarrow> announces line uri"
  unfolding announcement.simps announces_cases pattern_texts by blast

lemma getRemoteAddress_sound:
  assumes "set ps = set remoteAddressPatterns" "uri \<in> set (getRemoteAddress ps input)"
  shows "\<exists>a line b. input = a @ line @ b \<and> announces line uri"
proof -
  from assms(2) obtain scheme pats re c where p: "(scheme, pats) \<in> set remoteAddressPatterns" "re \<in> set pats"
      "c \<in> set (FindAllSubmatch re input)" and uri: "uri = (if scheme = ''tcp'' then ''tcp://'' @ c else c)"
    unfolding getRemoteAddress_mem [OF assms(1)] by blast
  from FindAllSubmatch_sound [OF p(3)] obtain a line b where "input = a @ line @ b" "rx_matches re line c" by blast
  with p uri show ?thesis unfolding announces_def by blast
qed

lemma getRemoteAddress_nonempty:
  assumes "set ps = set remoteAddressPatterns" "announces line uri"
  shows "getRemoteAddress ps (a @ line @ b) \<noteq> []"
proof -
  from assms(2) obtain scheme pats re c where p: "(scheme, pats) \<in> set remoteAddressPatterns" "re \<in> set pats"
      "rx_matches re line c"
    unfolding announces_def by blast
  have "line \<noteq> []"
    using pattern_shapes [OF p(1,2)] p(3) address_groups_ok
    by (fastforce elim!: coloured_matches plain_matches simp: esc_colour_def)
  from FindAllSubmatch_complete [OF p(3) this, of a b]
  obtain d where "d \<in> set (FindAllSubmatch re (a @ line @ b))" by (metis last_in_set)
  with p(1,2) have "(if scheme = ''tcp'' then ''tcp://'' @ d else d) \<in> set (getRemoteAddress ps (a @ line @ b))"
    unfolding getRemoteAddress_mem [OF assms(1)] by blast
  then show ?thesis by auto
qed

section \<open>Properties\<close>

text \<open>
  C18. The extraction is exact, in whichever order the schemes are visited. Every address in the
  result was announced, in one of the seven texts of sish, somewhere in the output, and is an http or
  https address of a host without port, or a tcp address with a port. Conversely every address
  that is announced is in the result, however many there are, unless its text runs on from an
  address right before it or into one right behind it; and even then the result is empty only
  when nothing at all is announced.
\<close>

theorem address_extraction_exact:
  assumes "set ps = set remoteAddressPatterns"
  shows "(\<forall>uri \<in> set (getRemoteAddress ps input).
       address_form uri \<and> (\<exists>a line b. input = a @ line @ b \<and> announcement line uri)) \<and>
    (\<forall>a line b uri. input = a @ line @ b \<and> announcement line uri \<and>
       (a = [] \<or> \<not> group_char (last a)) \<and> (b = [] \<or> \<not> name_char (hd b)) \<longrightarrow>
       uri \<in> set (getRemoteAddress ps input)) \<and>
    (getRemoteAddress ps input = [] \<longleftrightarrow> \<not> (\<exists>a line b uri. input = a @ line @ b \<and> announcement line uri))"
  unfolding announcement_iff
proof (intro conjI)
  show "\<forall>uri \<in> set (getRemoteAddress ps input). address_form uri \<and> (\<exists>a line b. input = a @ line @ b \<and> announces line uri)"
    using getRemoteAddress_sound [OF assms] announces_form by blast
  show "\<forall>a line b uri. input = a @ line @ b \<and> announces line uri \<and>
       (a = [] \<or> \<not> group_char (last a)) \<and> (b = [] \<or> \<not> name_char (hd b)) \<longrightarrow> uri \<in> set (getRemoteAddress ps input)"
    using getRemoteAddress_announced [OF assms] by blast
  show "getRemoteAddress ps input = [] \<longleftrightarrow> \<not> (\<exists>a line b uri. input = a @ line @ b \<and> announces line uri)"
    using getRemoteAddress_sound [OF assms] getRemoteAddress_nonempty [OF assms] by (metis last_in_set)
qed

text \<open>Two announcements in one chunk of output: both are found, and nothing else.\<close>

definition demo_output :: string where
  "demo_output = ''Forwarding TCP traffic from a.b:7'' @ [CHR 0x0A] @
     ''HTTPS'' @ [CHR 0x1B] @ ''[0m:'' @ '' '' @ ''https://'' @ ''c.d'' @ [CHR 0x0D]"

lemma demo_announcements:
  "announcement (''Forwarding TCP traffic from '' @ ''a.b'' @ '':'' @ ''7'') (''tcp://'' @ ''a.b'' @ '':'' @ ''7'')"
  "announcement (''HTTPS'' @ [CHR 0x1B] @ ''[0m:'' @ '' '' @ ''https://'' @ ''c.d'' @ [CHR 0x0D]) (''https://'' @ ''c.d'')"
proof -
  have "host_text ''a.b''" "host_text ''c.d''" "port_text ''7''" "blanks '' ''" by code_simp+
  then show "announcement (''Forwarding TCP traffic from '' @ ''a.b'' @ '':'' @ ''7'') (''tcp://'' @ ''a.b'' @ '':'' @ ''7'')"
    "announcement (''HTTPS'' @ [CHR 0x1B] @ ''[0m:'' @ '' '' @ ''https://'' @ ''c.d'' @ [CHR 0x0D]) (''https://'' @ ''c.d'')"
    by (blast intro: announcement.intros)+
qed

theorem address_extraction_exact_witness:
  "''tcp://a.b:7'' \<in> set (getRemoteAddress remoteAddressPatterns demo_output) \<and>
   ''https://c.d'' \<in> set (getRemoteAddress remoteAddressPatterns demo_output)"
proof -
  have found: "uri \<in> set (getRemoteAddress remoteAddressPatterns (a @ line @ b))"
    if "announcement line uri" "a = [] \<or> \<not> group_char (last a)" "b = [] \<or> \<not> name_char (hd b)" for a line b uri
    using address_extraction_exact [OF refl, of "a @ line @ b"] that by blast
  have hd: "\<not> name_char (CHR 0x0A)" "\<not> group_char (CHR 0x0A)" by code_simp+
  have split: "demo_output = [] @ (''Forwarding TCP traffic from '' @ ''a.b'' @ '':'' @ ''7'') @ drop 33 demo_output"
    "demo_output = take 34 demo_output @ (''HTTPS'' @ [CHR 0x1B] @ ''[0m:'' @ '' '' @ ''https://'' @ ''c.d'' @ [CHR 0x0D]) @ []"
    "drop 33 demo_output = [] \<or> hd (drop 33 demo_output) = CHR 0x0A" "take 34 demo_output = [] \<or> last (take 34 demo_output) = CHR 0x0A"
    by code_simp+
  have "''tcp://'' @ ''a.b'' @ '':'' @ ''7'' \<in> set (getRemoteAddress remoteAddressPatterns demo_output)"
    by (subst split(1), rule found [OF demo_announcements(1)]) (use split(3) hd(1) in metis)+
  moreover have "''https://'' @ ''c.d'' \<in> set (getRemoteAddress remoteAddressPatterns demo_output)"
    by (subst split(2), rule found [OF demo_announcements(2)]) (use split(4) hd(2) in metis)+
  ultimately show ?thesis by simp
qed

text \<open>
  C12. What the server announces is what the verification accepts. When the output contains an
  announcement of the address of a host (for tcp: with the requested port), the addresses
  extracted from it pass the comparison with that host and port, whatever else is announced
  around it and with or without an enforced port; and a tcp address passes for a wildcard
  hostname with the enforced port. The announcement must not run on from an address before it
  or into one behind it.
\<close>

theorem announced_address_verified:
  assumes "set ps = set remoteAddressPatterns" "announcement line uri"
    and "uri \<in> {''http://'' @ h, ''https://'' @ h, ''tcp://'' @ h @ '':'' @ Itoa p}" "0 \<le> p" "p \<le> 65535"
    and "before = [] \<or> \<not> group_char (last before)" "after = [] \<or> \<not> name_char (hd after)"
  shows "MatchesRequestedHost (getRemoteAddress ps (before @ line @ after)) h p enforce \<and>
    (wildcardHost w \<longrightarrow> uri = ''tcp://'' @ h @ '':'' @ Itoa p \<longrightarrow>
       MatchesRequestedHost (getRemoteAddress ps (before @ line @ after)) w p True)"
proof -
  have ann: "announces line uri" using assms(2) by (simp add: announcement_iff)
  have mem: "uri \<in> set (getRemoteAddress ps (before @ line @ after))"
    by (rule getRemoteAddress_announced [OF assms(1) ann assms(6,7)])
  have port: "tcpURIPort (''tcp://'' @ h @ '':'' @ Itoa p) = Some p" if "uri = ''tcp://'' @ h @ '':'' @ Itoa p"
    using tcp_form_host [of h p] announces_form [OF ann] that assms(4,5) by (intro tcpURIPort_tcp) auto
  have "Contains (''tcp://'' @ h @ '':'' @ Itoa p) (forwardingKey h p)"
    unfolding Contains_iff forwardingKey_def by (metis append.assoc append_Nil2)
  with port assms(3) have "uri_satisfies h p enforce uri"
    using http_satisfies [of h p enforce] tcp_satisfies [of h p enforce] by blast
  moreover have "uri_satisfies w p True uri" if "wildcardHost w" "uri = ''tcp://'' @ h @ '':'' @ Itoa p"
    using that port tcp_prefix by (simp only: uri_satisfies_def if_True if_False simp_thms)
  ultimately show ?thesis
    unfolding MatchesRequestedHost_iff using mem by blast
qed

theorem announced_address_verified_witness:
  "MatchesRequestedHost (getRemoteAddress remoteAddressPatterns
     (''Forwarding TCP traffic from a.b:7'' @ [CHR 0x0A])) ''a.b'' 7 True"
  using announced_address_verified [OF refl demo_announcements(1), of "''a.b''" 7 "[]" "[CHR 0x0A]" True "[]"]
  by (simp add: Itoa_def nat_str.simps digit_char_def name_char_def is_letter_def is_digit_def)

text \<open>
  The output is searched chunk by chunk, as it is read. An announcement that is cut by the end
  of a read is found in neither part.
\<close>

lemma split_announcement_lost:
  "getRemoteAddress remoteAddressPatterns ''Forwarding TCP traffic from a.b:7'' \<noteq> [] \<and>
   getRemoteAddress remoteAddressPatterns ''Forwarding TCP traf'' = [] \<and>
   getRemoteAddress remoteAddressPatterns ''fic from a.b:7'' = []"
  by code_simp

end
