(* ===== verification/Gateway_Controller.thy ===== *)
theory Gateway_Controller
  imports Registry_Runs
begin

text \<open>
  The reconcilers of \<open>controllers/gateway_controller.go\<close>: \<open>Reconcile\<close> of Gateways with its
  helpers, \<open>Reconcile\<close> of GatewayClasses and \<open>IsGatewayManaged\<close>. The result of a reconciler is
  the delay after which it asks to be run again (0 for none, in nanoseconds) and an error. The
  state is the registry and the world behind the API client.
\<close>

type_synonym reconcile_result = "int \<times> go_error option"

section \<open>Ownership\<close>

definition IsGatewayManaged ::
  "os_env \<Rightarrow> 'w api_client \<Rightarrow> string \<Rightarrow> string \<Rightarrow> 'w \<Rightarrow> (go_error + bool) \<times> 'w" where
  "IsGatewayManaged os_env C gwNamespace gwName w =
     (case c_GetGateway C gwNamespace gwName w of
        (Inl err, w1) \<Rightarrow> (case IgnoreNotFound (Some err) of None \<Rightarrow> (Inr False, w1) | Some _ \<Rightarrow> (Inl err, w1))
      | (Inr gw, w1) \<Rightarrow>
          (case c_GetGatewayClass C (gw_ClassName gw) w1 of
             (Inl err, w2) \<Rightarrow> (case IgnoreNotFound (Some err) of None \<Rightarrow> (Inr False, w2) | Some _ \<Rightarrow> (Inl err, w2))
           | (Inr gc, w2) \<Rightarrow> (Inr (gc_ControllerName gc = getGatewayControllerName os_env), w2)))"

text \<open>The class of a Gateway when this controller owns it, \<open>Inr None\<close> when it does not.\<close>

definition gatewayClassIfManaged ::
  "os_env \<Rightarrow> 'w api_client \<Rightarrow> Gateway \<Rightarrow> bool \<Rightarrow> 'w \<Rightarrow> (go_error + GatewayClass option) \<times> 'w" where
  "gatewayClassIfManaged os_env C k8sGw isManagedByUs w =
     (case c_GetGatewayClass C (gw_ClassName k8sGw) w of
        (Inl err, w1) \<Rightarrow> (Inl err, w1)
      | (Inr gc, w1) \<Rightarrow>
          if isManagedByUs then (Inr (Some gc), w1)
          else if gc_ControllerName gc \<noteq> getGatewayControllerName os_env then (Inr None, w1)
          else (Inr (Some gc), w1))"

section \<open>Finalizers\<close>

definition with_finalizers :: "Gateway \<Rightarrow> string list \<Rightarrow> Gateway" where
  "with_finalizers g fs = g\<lparr>gw_Meta := (gw_Meta g)\<lparr>Finalizers := fs\<rparr>\<rparr>"

definition ensureGatewayFinalizer ::
  "os_env \<Rightarrow> 'w api_client \<Rightarrow> Gateway \<Rightarrow> 'w \<Rightarrow> go_error option \<times> Gateway \<times> 'w" where
  "ensureGatewayFinalizer os_env C k8sGw w =
     (if containsString (Finalizers (gw_Meta k8sGw)) (getGatewayFinalizer os_env) then (None, k8sGw, w)
      else c_UpdateGateway C
             (with_finalizers k8sGw (Finalizers (gw_Meta k8sGw) @ [getGatewayFinalizer os_env])) w)"

definition reconcileGatewayDelete ::
  "'p sessionPool \<Rightarrow> os_env \<Rightarrow> 'w api_client \<Rightarrow> Gateway \<Rightarrow> bool \<Rightarrow> 'p GatewayReconciler \<Rightarrow> 'w \<Rightarrow>
     reconcile_result \<times> 'p GatewayReconciler \<times> 'w" where
  "reconcileGatewayDelete P os_env C k8sGw isManagedByUs gr w =
     (if \<not> isManagedByUs then ((0, None), gr, w)
      else
        (let gr' = handleDeleteGateway P k8sGw gr;
             (err, k8sGw', w') = c_UpdateGateway C
               (with_finalizers k8sGw (removeString (Finalizers (gw_Meta k8sGw)) (getGatewayFinalizer os_env))) w
         in ((0, err), gr', w')))"

section \<open>The reconciler of Gateways\<close>

text \<open>The part for a Gateway that is owned: sessions, finalizer, registry, status.\<close>

definition reconcile_owned ::
  "'p sessionPool \<Rightarrow> (string \<Rightarrow> (string \<times> string) option) \<Rightarrow>
     (Condition list \<Rightarrow> Condition \<Rightarrow> Condition list \<times> bool) \<Rightarrow> ctl_settings \<Rightarrow> 'w api_client \<Rightarrow> int option \<Rightarrow>
     Gateway \<Rightarrow> GatewayClass \<Rightarrow> 'p GatewayReconciler \<Rightarrow> 'w \<Rightarrow> reconcile_result \<times> 'p GatewayReconciler \<times> 'w" where
  "reconcile_owned P url_other ssc settings C now k8sGw gc gr w =
     (let sessions = parseClassSessionConfig (Annotations (gc_Meta gc));
          (cfgErr, p2) = sp_ConfigureSessions P (ClassPPVersion sessions) (SNIProxyEnabled sessions) (gr_pool gr);
          gr2 = gr\<lparr>gr_pool := p2\<rparr>
      in if cfgErr \<noteq> None then ((10 * 1000000000, None), gr2, w)
         else
           let (up, p3) = reconnectRequiredSessions P sessions (gr_pool gr2);
               gr3 = gr2\<lparr>gr_pool := p3\<rparr>
           in if \<not> up then ((10 * 1000000000, None), gr3, w)
              else
                case ensureGatewayFinalizer (cs_env settings) C k8sGw w of
                  (Some err, _, w3) \<Rightarrow> ((0, Some err), gr3, w3)
                | (None, k8sGw3, w3) \<Rightarrow>
                    let gr4 = handleAddOrUpdateGateway P k8sGw3 gr3
                    in case updateGatewayStatusIfChanged P url_other ssc C now gr4 k8sGw3 gc w3 of
                         (Some err, _, w4) \<Rightarrow> ((0, Some err), gr4, w4)
                       | (None, _, w4) \<Rightarrow> ((cs_gatewayReconcilePeriod settings, None), gr4, w4))"

definition Reconcile ::
  "'p sessionPool \<Rightarrow> (string \<Rightarrow> (string \<times> string) option) \<Rightarrow>
     (Condition list \<Rightarrow> Condition \<Rightarrow> Condition list \<times> bool) \<Rightarrow> ctl_settings \<Rightarrow> 'w api_client \<Rightarrow> int option \<Rightarrow>
     string \<Rightarrow> string \<Rightarrow> 'p GatewayReconciler \<Rightarrow> 'w \<Rightarrow> reconcile_result \<times> 'p GatewayReconciler \<times> 'w" where
  "Reconcile P url_other ssc settings C now reqNamespace reqName gr w =
     (let os_env = cs_env settings;
          (ok, p1) = ensurePlainSSHSessionConnected P (gr_pool gr);
          gr1 = gr\<lparr>gr_pool := p1\<rparr>
      in if \<not> ok then ((10 * 1000000000, None), gr1, w)
         else
           case c_GetGateway C reqNamespace reqName w of
             (Inl err, w1) \<Rightarrow> ((0, IgnoreNotFound (Some err)), gr1, w1)
           | (Inr k8sGw, w1) \<Rightarrow>
               let isManagedByUs = containsString (Finalizers (gw_Meta k8sGw)) (getGatewayFinalizer os_env) in
               if Deleted (gw_Meta k8sGw) then reconcileGatewayDelete P os_env C k8sGw isManagedByUs gr1 w1
               else
                 case gatewayClassIfManaged os_env C k8sGw isManagedByUs w1 of
                   (Inl err, w2) \<Rightarrow> ((0, Some err), gr1, w2)
                 | (Inr None, w2) \<Rightarrow> ((0, None), gr1, w2)
                 | (Inr (Some gc), w2) \<Rightarrow>
                     reconcile_owned P url_other ssc settings C now k8sGw gc gr1 w2)"

section \<open>The reconciler of GatewayClasses\<close>

definition GatewayClass_Reconcile ::
  "os_env \<Rightarrow> 'w api_client \<Rightarrow> int option \<Rightarrow> string \<Rightarrow> 'w \<Rightarrow> reconcile_result \<times> 'w" where
  "GatewayClass_Reconcile os_env C now reqName w =
     (case c_GetGatewayClass C reqName w of
        (Inl err, w1) \<Rightarrow> ((0, IgnoreNotFound (Some err)), w1)
      | (Inr gc, w1) \<Rightarrow>
          if gc_ControllerName gc \<noteq> getGatewayControllerName os_env then ((0, None), w1)
          else
            (case c_UpdateGatewayClassStatus C
                (gc\<lparr>gc_Conditions :=
                  [\<lparr>c_Type = ''Accepted'', c_Status = ConditionTrue, c_ObservedGeneration = 0,
                    c_LastTransitionTime = now, c_Reason = ''Accepted'',
                    c_Message = ''Controller has accepted this GatewayClass''\<rparr>]\<rparr>) w1 of
               (Some err, _, w2) \<Rightarrow> ((0, Some (Wrapf ''failed to update GatewayClass status'' err)), w2)
             | (None, _, w2) \<Rightarrow> ((0, None), w2)))"

section \<open>Lemmas\<close>

context session_pool
begin

lemma update_listeners_connected:
  "inv p \<Longrightarrow> sp_IsConnected P kind (snd (update_listeners P ex ks ann upd p)) = sp_IsConnected P kind p"
proof (induction ks arbitrary: upd p)
  case Nil
  then show ?case by simp
next
  case (Cons k ks)
  have s: "inv (snd (sp_StopForwarding P c f p)) \<and>
      sp_IsConnected P kind (snd (sp_StopForwarding P c f p)) = sp_IsConnected P kind p" for c f
    using stop_inv stop_connected Cons(2) by (metis prod.collapse)
  show ?case
    using Cons s by (auto simp: Let_def split: option.splits)
qed

lemma handleAddOrUpdateGateway_pool:
  assumes "inv (gr_pool gr)"
  shows "inv (gr_pool (handleAddOrUpdateGateway P g gr)) \<and>
    sp_IsConnected P kind (gr_pool (handleAddOrUpdateGateway P g gr)) = sp_IsConnected P kind (gr_pool gr)"
proof (cases "mget (gr_gateways gr) (getGwKey (Namespace (gw_Meta g)) (Name (gw_Meta g)))")
  case None
  with assms show ?thesis by (simp add: handleAddOrUpdateGateway_def)
next
  case (Some gw)
  let ?u = "update_listeners P gw (gw_Listeners g) (Annotations (gw_Meta g)) [] (gr_pool gr)"
  have "gr_pool (handleAddOrUpdateGateway P g gr) = snd ?u"
    using Some by (simp add: handleAddOrUpdateGateway_def split_beta Let_def)
  then show ?thesis
    using update_listeners_pool [OF assms, of gw "gw_Listeners g" "Annotations (gw_Meta g)" "[]"]
      update_listeners_connected [OF assms, of kind gw "gw_Listeners g" "Annotations (gw_Meta g)" "[]"] by simp
qed

lemma reconnectRequiredSessions_state:
  assumes "inv p" "reconnectRequiredSessions P sessions p = (up, p')"
  shows "inv p' \<and> active p' = active p \<and> (p' = p \<or> p' = sp_Connect P p) \<and>
    (up \<longleftrightarrow> (\<forall>k \<in> set (requiredSessionKinds sessions). sp_IsConnected P k p'))"
  using assms connect_inv connect_active
  by (auto simp: reconnectRequiredSessions_def Let_def list_all_iff split: if_splits)

lemma ensurePlain_state:
  assumes "inv p" "ensurePlainSSHSessionConnected P p = (ok, p')"
  shows "inv p' \<and> active p' = active p \<and> (ok \<longleftrightarrow> sp_IsConnected P SessionPlain p')"
  using assms connect_inv connect_active
  by (auto simp: ensurePlainSSHSessionConnected_def Let_def split: if_splits)

end

lemma handleAddOrUpdateGateway_registered:
  "mget (gr_gateways (handleAddOrUpdateGateway P g gr)) (getGwKey (Namespace (gw_Meta g)) (Name (gw_Meta g))) \<noteq> None"
  by (simp add: handleAddOrUpdateGateway_def Let_def split: option.splits prod.splits)

text \<open>A kind whose manager is absent stays absent and disconnected when the others reconnect.\<close>

lemma pool_Connect_absent:
  "mget (p_managers p) kind = None \<Longrightarrow> \<not> pool_IsConnected M kind p \<and> \<not> pool_IsConnected M kind (pool_Connect M p)"
  using connect_all_None [of M "p_managers p" "p_world p" kind] by (simp add: pool_IsConnected_def)

text \<open>What a successful reconciliation has gone through.\<close>

lemma attached_keysI:
  "(name, l) \<in> set gw \<Longrightarrow> l_route l \<noteq> None \<Longrightarrow> (l_SessionKind l, listener_key l) \<in> attached_keys gw"
  by (auto simp: attached_keys_def)

lemma reconcileGatewayDelete_delay: "fst (fst (reconcileGatewayDelete P os_env C g b gr w)) = 0"
  by (simp add: reconcileGatewayDelete_def split_beta)

lemma reconcile_owned_success:
  assumes r: "reconcile_owned P uo ssc settings C now g gc gr w = ((d, None), gr', w')"
    and d: "d \<noteq> 10 * 1000000000"
  obtains p2 p3 g3 w3 where
    "sp_ConfigureSessions P (ClassPPVersion (parseClassSessionConfig (Annotations (gc_Meta gc))))
       (SNIProxyEnabled (parseClassSessionConfig (Annotations (gc_Meta gc)))) (gr_pool gr) = (None, p2)"
    "reconnectRequiredSessions P (parseClassSessionConfig (Annotations (gc_Meta gc))) p2 = (True, p3)"
    "ensureGatewayFinalizer (cs_env settings) C g w = (None, g3, w3)"
    "gr' = handleAddOrUpdateGateway P g3 (gr\<lparr>gr_pool := p3\<rparr>)"
proof -
  let ?ses = "parseClassSessionConfig (Annotations (gc_Meta gc))"
  obtain ce p2 where c: "sp_ConfigureSessions P (ClassPPVersion ?ses) (SNIProxyEnabled ?ses) (gr_pool gr) = (ce, p2)"
    by (metis prod.collapse)
  obtain up p3 where u: "reconnectRequiredSessions P ?ses p2 = (up, p3)" by (metis prod.collapse)
  obtain fe g3 w3 where f: "ensureGatewayFinalizer (cs_env settings) C g w = (fe, g3, w3)" by (metis prod_cases3)
  obtain se g4 w4 where st: "updateGatewayStatusIfChanged P uo ssc C now
      (handleAddOrUpdateGateway P g3 (gr\<lparr>gr_pool := p3\<rparr>)) g3 gc w3 = (se, g4, w4)" by (metis prod_cases3)
  have run: "((d, None), gr', w') =
     (if ce \<noteq> None then ((10 * 1000000000, None), gr\<lparr>gr_pool := p2\<rparr>, w)
      else if \<not> up then ((10 * 1000000000, None), gr\<lparr>gr_pool := p3\<rparr>, w)
      else case fe of Some err \<Rightarrow> ((0, Some err), gr\<lparr>gr_pool := p3\<rparr>, w3)
        | None \<Rightarrow> (case se of
             Some err \<Rightarrow> ((0, Some err), handleAddOrUpdateGateway P g3 (gr\<lparr>gr_pool := p3\<rparr>), w4)
           | None \<Rightarrow> ((cs_gatewayReconcilePeriod settings, None), handleAddOrUpdateGateway P g3 (gr\<lparr>gr_pool := p3\<rparr>), w4)))"
    unfolding r [symmetric] by (simp add: reconcile_owned_def Let_def c u f st split: option.splits)
  with d have "ce = None" "up" by (auto split: if_splits)
  moreover from this run have "fe = None" by (cases fe) auto
  moreover from calculation run have "gr' = handleAddOrUpdateGateway P g3 (gr\<lparr>gr_pool := p3\<rparr>)"
    by (cases se) auto
  ultimately show ?thesis using c u f that [of p2 p3 g3 w3] by simp
qed

text \<open>What a successful reconciliation has gone through.\<close>

lemma Reconcile_success:
  assumes r: "Reconcile P uo ssc settings C now ns n gr w = ((d, None), gr', w')"
    and d: "d \<noteq> 0" "d \<noteq> 10 * 1000000000"
    and g: "c_GetGateway C ns n w = (Inr g, w1)" and gc: "c_GetGatewayClass C (gw_ClassName g) w1 = (Inr gc, w2)"
  obtains p1 where
    "ensurePlainSSHSessionConnected P (gr_pool gr) = (True, p1)"
    "\<not> Deleted (gw_Meta g)"
    "getGatewayFinalizer (cs_env settings) \<in> set (Finalizers (gw_Meta g)) \<or>
       gc_ControllerName gc = getGatewayControllerName (cs_env settings)"
    "reconcile_owned P uo ssc settings C now g gc (gr\<lparr>gr_pool := p1\<rparr>) w2 = ((d, None), gr', w')"
proof -
  let ?fin = "getGatewayFinalizer (cs_env settings) \<in> set (Finalizers (gw_Meta g))"
  obtain ok p1 where e: "ensurePlainSSHSessionConnected P (gr_pool gr) = (ok, p1)" by (metis prod.collapse)
  obtain de dg dw where del: "reconcileGatewayDelete P (cs_env settings) C g ?fin (gr\<lparr>gr_pool := p1\<rparr>) w1 = ((0, de), dg, dw)"
    using reconcileGatewayDelete_delay by (metis prod.collapse)
  have cls: "gatewayClassIfManaged (cs_env settings) C g ?fin w1 =
      (Inr (if ?fin \<or> gc_ControllerName gc = getGatewayControllerName (cs_env settings) then Some gc else None), w2)"
    using gc by (simp add: gatewayClassIfManaged_def)
  have run: "((d, None), gr', w') =
     (if \<not> ok then ((10 * 1000000000, None), gr\<lparr>gr_pool := p1\<rparr>, w)
      else if Deleted (gw_Meta g) then ((0, de), dg, dw)
      else if ?fin \<or> gc_ControllerName gc = getGatewayControllerName (cs_env settings)
      then reconcile_owned P uo ssc settings C now g gc (gr\<lparr>gr_pool := p1\<rparr>) w2
      else ((0, None), gr\<lparr>gr_pool := p1\<rparr>, w2))"
    unfolding r [symmetric] by (simp add: Reconcile_def e g del cls)
  with d have "ok" "\<not> Deleted (gw_Meta g)"
      "?fin \<or> gc_ControllerName gc = getGatewayControllerName (cs_env settings)"
    by (auto split: if_splits)
  with run e that show ?thesis by auto
qed

section \<open>Properties\<close>

text \<open>
  C16. After a successful reconciliation of a Gateway (one that asks for the periodic run) the
  sessions are exactly those that the annotations of its GatewayClass ask for: a session is
  connected if and only if its kind is required. The Gateway is owned (it carries the finalizer,
  or its class names this controller), is not being deleted, carries the finalizer in the API
  before anything of it is registered, and is registered.
\<close>

theorem reconcile_opens_required_sessions:
  assumes "tunnel_pool_inv (gr_pool gr)"
    and "Reconcile (tunnel_pool_ops env pk base) uo ssc settings C now ns n gr w = ((d, None), gr', w')"
    and "d \<noteq> 0" "d \<noteq> 10 * 1000000000"
    and "c_GetGateway C ns n w = (Inr g, w1)" and "c_GetGatewayClass C (gw_ClassName g) w1 = (Inr gc, w2)"
  shows "tunnel_pool_inv (gr_pool gr') \<and>
     (\<forall>kind. pool_IsConnected (tunnel_manager env) kind (gr_pool gr') \<longleftrightarrow>
        kind \<in> set (requiredSessionKinds (parseClassSessionConfig (Annotations (gc_Meta gc))))) \<and>
     \<not> Deleted (gw_Meta g) \<and>
     (getGatewayFinalizer (cs_env settings) \<in> set (Finalizers (gw_Meta g)) \<or>
        gc_ControllerName gc = getGatewayControllerName (cs_env settings)) \<and>
     (\<exists>g3 w3. (if getGatewayFinalizer (cs_env settings) \<in> set (Finalizers (gw_Meta g)) then g3 = g \<and> w3 = w2
        else c_UpdateGateway C (with_finalizers g (Finalizers (gw_Meta g) @ [getGatewayFinalizer (cs_env settings)])) w2
               = (None, g3, w3)) \<and>
        mget (gr_gateways gr') (getGwKey (Namespace (gw_Meta g3)) (Name (gw_Meta g3))) \<noteq> None)"
proof -
  let ?P = "tunnel_pool_ops env pk base" and ?M = "tunnel_manager env"
  let ?ses = "parseClassSessionConfig (Annotations (gc_Meta gc))"
  obtain p1 where s1: "ensurePlainSSHSessionConnected ?P (gr_pool gr) = (True, p1)" "\<not> Deleted (gw_Meta g)"
    "getGatewayFinalizer (cs_env settings) \<in> set (Finalizers (gw_Meta g)) \<or>
       gc_ControllerName gc = getGatewayControllerName (cs_env settings)"
    "reconcile_owned ?P uo ssc settings C now g gc (gr\<lparr>gr_pool := p1\<rparr>) w2 = ((d, None), gr', w')"
    using Reconcile_success [OF assms(2-6)] by blast
  from s1(4) assms(4) obtain p2 p3 g3 w3 where s2:
    "sp_ConfigureSessions ?P (ClassPPVersion ?ses) (SNIProxyEnabled ?ses) p1 = (None, p2)"
    "reconnectRequiredSessions ?P ?ses p2 = (True, p3)"
    "ensureGatewayFinalizer (cs_env settings) C g w2 = (None, g3, w3)"
    "gr' = handleAddOrUpdateGateway ?P g3 (gr\<lparr>gr_pool := p1\<rparr>\<lparr>gr_pool := p3\<rparr>)"
    by (rule reconcile_owned_success) simp
  have i1: "tunnel_pool_inv p1" using tunnels.spp.ensurePlain_state [OF assms(1) s1(1)] by simp
  have c: "ConfigureSessions ?M (tunnel_factory pk base) (ClassPPVersion ?ses) (SNIProxyEnabled ?ses) p1 = (None, p2)"
    using s2(1) by simp
  have i2: "tunnel_pool_inv p2" using tunnels.ConfigureSessions_inv [OF i1 c] .
  note rec = tunnels.spp.reconnectRequiredSessions_state [OF i2 s2(2)]
  have absent: "mget (p_managers p2) k = None" if "k \<notin> set (requiredSessionKinds ?ses)" for k
    using that tunnels.configure_ok_state(1) [OF i1 c] pool_flag_None [OF i2, of k]
    by (cases k) (auto simp: set_requiredSessionKinds wanted_flags_def)
  have p3: "p3 = p2 \<or> p3 = pool_Connect ?M p2" using rec by simp
  have con: "pool_IsConnected ?M k p3 \<longleftrightarrow> k \<in> set (requiredSessionKinds ?ses)" for k
  proof (cases "k \<in> set (requiredSessionKinds ?ses)")
    case True
    with rec show ?thesis by simp
  next
    case False
    from pool_Connect_absent [OF absent [OF False], of ?M] p3 False show ?thesis by auto
  qed
  have fin: "if getGatewayFinalizer (cs_env settings) \<in> set (Finalizers (gw_Meta g)) then g3 = g \<and> w3 = w2
      else c_UpdateGateway C (with_finalizers g (Finalizers (gw_Meta g) @ [getGatewayFinalizer (cs_env settings)])) w2
             = (None, g3, w3)"
    using s2(3) by (auto simp: ensureGatewayFinalizer_def split: if_splits)
  have i3: "tunnel_pool_inv (gr_pool (gr\<lparr>gr_pool := p1\<rparr>\<lparr>gr_pool := p3\<rparr>))" using rec by simp
  have fpool: "tunnel_pool_inv (gr_pool gr') \<and> (\<forall>k. pool_IsConnected ?M k (gr_pool gr') \<longleftrightarrow> k \<in> set (requiredSessionKinds ?ses))"
    using tunnels.spp.handleAddOrUpdateGateway_pool [OF i3, of env pk base g3] con unfolding s2(4) by simp
  show ?thesis
    using fpool s1(2,3) fin handleAddOrUpdateGateway_registered [of ?P g3] unfolding s2(4) by blast
qed

definition demo_settings :: ctl_settings where
  "demo_settings = load_settings (\<lambda>_. None) (\<lambda>_. None)"

definition demo_pp_client :: "nat api_client" where
  "demo_pp_client = demo_client\<lparr>c_GetGatewayClass := (\<lambda>n w. (Inr (demo_class
     \<lparr>gc_ControllerName := ''tunnels.ssh.gateway-api-controller'',
      gc_Meta := demo_meta\<lparr>Annotations := (\<lambda>k. if k = ''ssh-gateway.io/proxy-protocol'' then Some ''2'' else None)\<rparr>\<rparr>), w))\<rparr>"

text \<open>The pool had a session for version 1 and one for SNI; the class asks for version 2 only.\<close>

theorem reconcile_opens_required_sessions_witness:
  "pool_IsConnected (tunnel_manager demo_pool_env) SessionProxyProto
     (gr_pool (fst (snd (Reconcile demo_pool_ops (\<lambda>_. None) demo_ssc demo_settings demo_pp_client None ''ns'' ''gw'' demo_reg 0)))) \<and>
   \<not> pool_IsConnected (tunnel_manager demo_pool_env) SessionSNIProxy
     (gr_pool (fst (snd (Reconcile demo_pool_ops (\<lambda>_. None) demo_ssc demo_settings demo_pp_client None ''ns'' ''gw'' demo_reg 0)))) \<and>
   pool_IsConnected (tunnel_manager demo_pool_env) SessionSNIProxy (gr_pool demo_reg)"
proof -
  let ?r = "Reconcile demo_pool_ops (\<lambda>_. None) demo_ssc demo_settings demo_pp_client None ''ns'' ''gw'' demo_reg 0"
  have d: "fst ?r = (30 * 1000000000, None)" by code_simp
  then have r: "?r = ((30 * 1000000000, None), fst (snd ?r), snd (snd ?r))" by (metis prod.collapse)
  let ?gc = "demo_class\<lparr>gc_ControllerName := ''tunnels.ssh.gateway-api-controller'',
      gc_Meta := demo_meta\<lparr>Annotations := (\<lambda>k. if k = ''ssh-gateway.io/proxy-protocol'' then Some ''2'' else None)\<rparr>\<rparr>"
  have g: "c_GetGateway demo_pp_client ''ns'' ''gw'' 0 = (Inr demo_gateway, 0)"
    by (simp add: demo_pp_client_def demo_client_def)
  have gc: "c_GetGatewayClass demo_pp_client (gw_ClassName demo_gateway) 0 = (Inr ?gc, 0)"
    by (simp add: demo_pp_client_def)
  have k: "SessionProxyProto \<in> set (requiredSessionKinds (parseClassSessionConfig (Annotations (gc_Meta ?gc))))"
      "SessionSNIProxy \<notin> set (requiredSessionKinds (parseClassSessionConfig (Annotations (gc_Meta ?gc))))"
    by code_simp+
  have before: "pool_IsConnected (tunnel_manager demo_pool_env) SessionSNIProxy (gr_pool demo_reg)" by code_simp
  from reconcile_opens_required_sessions [OF demo_reg_inv(1) r _ _ g gc] k before show ?thesis by simp
qed

text \<open>
  C15. Reconciling a deleted Gateway that carries this controller's finalizer. While the plain
  session is down and a reconnect does not bring it up, nothing is released: nothing is sent to
  the API, so the finalizer stays, the registry and the forwardings are as they were, and the
  reconciliation is asked for again in ten seconds. Otherwise the Gateway is gone from the
  registry, the forwardings the pool loses are exactly those of the Gateway's attached
  listeners (none, if it was not registered); and the one thing sent to the API is the Gateway
  with exactly this finalizer removed and all others kept.
\<close>

theorem gateway_deletion_releases:
  assumes "tunnel_pool_inv (gr_pool gr)"
    and "c_GetGateway C ns n w = (Inr g, w1)" "Deleted (gw_Meta g)"
    and "getGatewayFinalizer (cs_env settings) \<in> set (Finalizers (gw_Meta g))"
    and "Reconcile (tunnel_pool_ops env pk base) uo ssc settings C now ns n gr w = (res, gr', w')"
  shows "if pool_IsConnected (tunnel_manager env) SessionPlain (gr_pool gr) \<or>
       pool_IsConnected (tunnel_manager env) SessionPlain (pool_Connect (tunnel_manager env) (gr_pool gr))
     then gr_gateways gr' = mdel (getGwKey (Namespace (gw_Meta g)) (Name (gw_Meta g))) (gr_gateways gr) \<and>
       tunnel_pool_active (gr_pool gr') = without (tunnel_pool_active (gr_pool gr))
         (case mget (gr_gateways gr) (getGwKey (Namespace (gw_Meta g)) (Name (gw_Meta g))) of
            None \<Rightarrow> {} | Some gw \<Rightarrow> attached_keys gw) \<and>
       (\<exists>err g'. res = (0, err) \<and> (err, g', w') = c_UpdateGateway C
          (with_finalizers g (filter (\<lambda>f. f \<noteq> getGatewayFinalizer (cs_env settings)) (Finalizers (gw_Meta g)))) w1)
     else res = (10 * 1000000000, None) \<and> w' = w \<and> gr_gateways gr' = gr_gateways gr \<and>
       tunnel_pool_active (gr_pool gr') = tunnel_pool_active (gr_pool gr)"
proof -
  let ?P = "tunnel_pool_ops env pk base" and ?key = "getGwKey (Namespace (gw_Meta g)) (Name (gw_Meta g))"
  obtain ok p1 where e: "ensurePlainSSHSessionConnected ?P (gr_pool gr) = (ok, p1)" by (metis prod.collapse)
  note s1 = tunnels.spp.ensurePlain_state [OF assms(1) e]
  have up: "ok \<longleftrightarrow> pool_IsConnected (tunnel_manager env) SessionPlain (gr_pool gr) \<or>
      pool_IsConnected (tunnel_manager env) SessionPlain (pool_Connect (tunnel_manager env) (gr_pool gr))"
    using e by (auto simp: ensurePlainSSHSessionConnected_def Let_def split: if_splits)
  show ?thesis
  proof (cases ok)
    case False
    with e assms(5) have "res = (10 * 1000000000, None) \<and> w' = w \<and> gr' = gr\<lparr>gr_pool := p1\<rparr>"
      by (simp add: Reconcile_def Let_def)
    with s1 up False show ?thesis by simp
  next
    case True
    let ?gr1 = "gr\<lparr>gr_pool := p1\<rparr>"
    have run: "(res, gr', w') = reconcileGatewayDelete ?P (cs_env settings) C g True ?gr1 w1"
      unfolding assms(5) [symmetric] using assms(2-4) e True by (simp add: Reconcile_def Let_def)
    have gr': "gr' = handleDeleteGateway ?P g ?gr1" using run by (simp add: reconcileGatewayDelete_def split: prod.splits)
    have sent: "\<exists>err g'. res = (0, err) \<and> (err, g', w') = c_UpdateGateway C
          (with_finalizers g (filter (\<lambda>f. f \<noteq> getGatewayFinalizer (cs_env settings)) (Finalizers (gw_Meta g)))) w1"
      using run by (auto simp: reconcileGatewayDelete_def split: prod.splits)
    have "gr_gateways gr' = mdel ?key (gr_gateways gr) \<and>
        tunnel_pool_active (gr_pool gr') = without (tunnel_pool_active (gr_pool gr))
          (case mget (gr_gateways gr) ?key of None \<Rightarrow> {} | Some gw \<Rightarrow> attached_keys gw)"
    proof (cases "mget (gr_gateways gr) ?key")
      case None
      then have "mdel ?key (gr_gateways gr) = gr_gateways gr" by (intro delete_id) (simp add: map_of_eq_None_iff)
      with None gr' s1 show ?thesis by (simp add: handleDeleteGateway_def without_def fun_eq_iff)
    next
      case (Some gw)
      with gr' s1 tunnels.spp.stop_listeners_state [of p1 env pk base gw] show ?thesis
        by (simp add: handleDeleteGateway_def)
    qed
    with sent True up show ?thesis by simp
  qed
qed

definition demo_deleting_client :: "nat api_client" where
  "demo_deleting_client = demo_client\<lparr>c_GetGateway := (\<lambda>ns n w. (Inr (demo_reg_gateway\<lparr>gw_Meta := demo_meta
     \<lparr>Deleted := True, Finalizers := [''other'', getGatewayFinalizer (\<lambda>_. None)]\<rparr>\<rparr>), w))\<rparr>"

theorem gateway_deletion_releases_witness:
  "tunnel_pool_active (gr_pool (fst (snd (Reconcile demo_pool_ops (\<lambda>_. None) demo_ssc demo_settings demo_deleting_client
     None ''ns'' ''gw'' demo_reg_set 0)))) SessionPlain ''h:8'' = None"
proof -
  let ?g = "demo_reg_gateway\<lparr>gw_Meta := demo_meta
     \<lparr>Deleted := True, Finalizers := [''other'', getGatewayFinalizer (\<lambda>_. None)]\<rparr>\<rparr>"
  let ?r = "Reconcile demo_pool_ops (\<lambda>_. None) demo_ssc demo_settings demo_deleting_client None ''ns'' ''gw'' demo_reg_set 0"
  have r: "?r = (fst ?r, fst (snd ?r), snd (snd ?r))" by simp
  have on: "pool_IsConnected (tunnel_manager demo_pool_env) SessionPlain (gr_pool demo_reg_set)" by code_simp
  have g: "c_GetGateway demo_deleting_client ''ns'' ''gw'' 0 = (Inr ?g, 0)" by (simp add: demo_deleting_client_def)
  have f: "getGatewayFinalizer (cs_env demo_settings) \<in> set (Finalizers (gw_Meta ?g))"
    by (simp add: demo_settings_def load_settings_def)
  have key: "getGwKey (Namespace (gw_Meta ?g)) (Name (gw_Meta ?g)) = ''ns/gw''" "forwardingKey ''h'' 8 = ''h:8''" by code_simp+
  have "map_option (\<lambda>gw. mget gw ''web'') (mget (gr_gateways demo_reg_set) ''ns/gw'')
      = Some (Some (demo_web\<lparr>l_route := Some demo_route_r\<rparr>))" by code_simp
  then obtain gw where gw: "mget (gr_gateways demo_reg_set) (getGwKey (Namespace (gw_Meta ?g)) (Name (gw_Meta ?g))) = Some gw"
      "mget gw ''web'' = Some (demo_web\<lparr>l_route := Some demo_route_r\<rparr>)" unfolding key by auto
  have del: "Deleted (gw_Meta ?g)" by simp
  have "(''web'', demo_web\<lparr>l_route := Some demo_route_r\<rparr>) \<in> set gw" using gw(2) by (rule map_of_SomeD)
  then have "(l_SessionKind (demo_web\<lparr>l_route := Some demo_route_r\<rparr>), listener_key (demo_web\<lparr>l_route := Some demo_route_r\<rparr>))
      \<in> attached_keys gw"
    by (rule attached_keysI) simp
  then have m: "(SessionPlain, ''h:8'') \<in> attached_keys gw" by (simp add: demo_web_def key)
  have "tunnel_pool_active (gr_pool (fst (snd ?r))) = without (tunnel_pool_active (gr_pool demo_reg_set)) (attached_keys gw)"
    using gateway_deletion_releases [OF demo_reg_inv(2) g del f r] on gw(1) by simp
  with m show ?thesis by (simp add: without_def)
qed

end
