(* ===== verification/Route_Status.thy ===== *)
theory Route_Status
  imports Ctl_Common
begin

text \<open>
  \<open>controllers/route_status.go\<close>: the entry of a route's status that belongs to this
  controller, and writing it. \<open>ssc\<close> is the library function \<open>SetStatusCondition\<close>, \<open>retry\<close> the
  library function \<open>RetryOnConflict\<close> with its default back-off, over a function that threads the
  route object and the world.
\<close>

section \<open>Entries\<close>

definition ptrEqual :: "'a option \<Rightarrow> 'a option \<Rightarrow> bool" where
  "ptrEqual a b =
     (case (a, b) of
        (Some x, Some y) \<Rightarrow> x = y
      | (None, None) \<Rightarrow> True
      | _ \<Rightarrow> False)"

definition parentRefEqual :: "ParentReference \<Rightarrow> ParentReference \<Rightarrow> bool" where
  "parentRefEqual a b \<longleftrightarrow>
     ptrEqual (pr_Group a) (pr_Group b) \<and> ptrEqual (pr_Kind a) (pr_Kind b) \<and>
     ptrEqual (pr_Namespace a) (pr_Namespace b) \<and> pr_Name a = pr_Name b \<and>
     ptrEqual (pr_SectionName a) (pr_SectionName b) \<and> ptrEqual (pr_Port a) (pr_Port b)"

definition acceptedRouteConditions :: "Condition list" where
  "acceptedRouteConditions =
     [\<lparr>c_Type = ''Accepted'', c_Status = ConditionTrue, c_ObservedGeneration = 0,
       c_LastTransitionTime = None, c_Reason = ''Accepted'', c_Message = ''Route accepted''\<rparr>,
      \<lparr>c_Type = ''ResolvedRefs'', c_Status = ConditionTrue, c_ObservedGeneration = 0,
       c_LastTransitionTime = None, c_Reason = ''ResolvedRefs'', c_Message = ''All references resolved''\<rparr>]"

definition pendingRouteConditions :: "string \<Rightarrow> Condition list" where
  "pendingRouteConditions msg =
     [\<lparr>c_Type = ''Accepted'', c_Status = ConditionFalse, c_ObservedGeneration = 0,
       c_LastTransitionTime = None, c_Reason = ''Pending'', c_Message = msg\<rparr>]"

fun parent_index :: "RouteParentStatus list \<Rightarrow> string \<Rightarrow> ParentReference \<Rightarrow> nat \<Rightarrow> nat option" where
  "parent_index [] controllerName parentRef i = None"
| "parent_index (p # ps) controllerName parentRef i =
     (if rps_ControllerName p = controllerName \<and> parentRefEqual (rps_ParentRef p) parentRef then Some i
      else parent_index ps controllerName parentRef (i + 1))"

fun set_conditions ::
  "(Condition list \<Rightarrow> Condition \<Rightarrow> Condition list \<times> bool) \<Rightarrow> int \<Rightarrow> Condition list \<Rightarrow> Condition list \<Rightarrow> Condition list" where
  "set_conditions ssc generation [] conds = conds"
| "set_conditions ssc generation (c # cs) conds =
     set_conditions ssc generation cs (fst (ssc conds (c\<lparr>c_ObservedGeneration := generation\<rparr>)))"

definition setOurRouteParentStatus ::
  "os_env \<Rightarrow> (Condition list \<Rightarrow> Condition \<Rightarrow> Condition list \<times> bool) \<Rightarrow> RouteParentStatus list \<Rightarrow>
     ParentReference \<Rightarrow> int \<Rightarrow> Condition list \<Rightarrow> RouteParentStatus list \<times> bool" where
  "setOurRouteParentStatus os_env ssc parents parentRef generation conditions =
     (let controllerName = getGatewayControllerName os_env in
      case parent_index parents controllerName parentRef 0 of
        Some idx \<Rightarrow>
          (let parent = \<lparr>rps_ParentRef = parentRef, rps_ControllerName = controllerName,
                 rps_Conditions = set_conditions ssc generation conditions (rps_Conditions (parents ! idx))\<rparr>
           in if parents ! idx = parent then (parents, False) else (parents[idx := parent], True))
      | None \<Rightarrow>
          (parents @ [\<lparr>rps_ParentRef = parentRef, rps_ControllerName = controllerName,
             rps_Conditions = set_conditions ssc generation conditions []\<rparr>], True))"

section \<open>Writing\<close>

text \<open>
  One attempt. A failed status update re-reads the route, applies the conditions again when the
  type of the object is one that \<open>getRouteStatus\<close> knows, and updates once more.
\<close>

definition status_attempt ::
  "os_env \<Rightarrow> (Condition list \<Rightarrow> Condition \<Rightarrow> Condition list \<times> bool) \<Rightarrow> 'w api_client \<Rightarrow> bool \<Rightarrow>
     ParentReference \<Rightarrow> Condition list \<Rightarrow> K8sRoute \<times> 'w \<Rightarrow> go_error option \<times> K8sRoute \<times> 'w" where
  "status_attempt os_env ssc C status_known parentRef conditions s =
     (case s of (route, w) \<Rightarrow>
        (case c_UpdateRouteStatus C route w of
           (None, route1, w1) \<Rightarrow> (None, route1, w1)
         | (Some updateErr, route1, w1) \<Rightarrow>
             (case c_GetRoute C (Namespace (rt_Meta route1)) (Name (rt_Meta route1)) w1 of
                (Inl getErr, w2) \<Rightarrow> (Some getErr, route1, w2)
              | (Inr latest, w2) \<Rightarrow>
                  c_UpdateRouteStatus C
                    (if status_known
                     then latest\<lparr>rt_Parents := fst (setOurRouteParentStatus os_env ssc (rt_Parents latest)
                            parentRef (Generation (rt_Meta latest)) conditions)\<rparr>
                     else latest) w2)))"

definition writeRouteParentStatus ::
  "os_env \<Rightarrow> (Condition list \<Rightarrow> Condition \<Rightarrow> Condition list \<times> bool) \<Rightarrow>
     ((K8sRoute \<times> 'w \<Rightarrow> go_error option \<times> K8sRoute \<times> 'w) \<Rightarrow> K8sRoute \<times> 'w \<Rightarrow> go_error option \<times> K8sRoute \<times> 'w) \<Rightarrow>
     'w api_client \<Rightarrow> bool \<Rightarrow> K8sRoute \<Rightarrow> ParentReference \<Rightarrow> int \<Rightarrow> Condition list \<Rightarrow> 'w \<Rightarrow> K8sRoute \<times> 'w" where
  "writeRouteParentStatus os_env ssc retry C status_known route parentRef generation conditions w =
     (let (parents, changed) = setOurRouteParentStatus os_env ssc (rt_Parents route) parentRef generation conditions;
          route1 = route\<lparr>rt_Parents := parents\<rparr>
      in if \<not> changed then (route1, w)
         else snd (retry (status_attempt os_env ssc C status_known parentRef conditions) (route1, w)))"

section \<open>Lemmas\<close>

lemma ptrEqual_iff [simp]: "ptrEqual a b \<longleftrightarrow> a = b"
  by (auto simp: ptrEqual_def split: option.splits)

lemma parentRefEqual_iff [simp]: "parentRefEqual a b \<longleftrightarrow> a = b"
  by (cases a; cases b) (auto simp: parentRefEqual_def)

abbreviation entry_of :: "string \<Rightarrow> ParentReference \<Rightarrow> RouteParentStatus \<Rightarrow> bool" where
  "entry_of cn pr p \<equiv> rps_ControllerName p = cn \<and> rps_ParentRef p = pr"

lemma parent_index_None: "parent_index ps cn pr i = None \<longleftrightarrow> (\<forall>p \<in> set ps. \<not> entry_of cn pr p)"
  by (induction ps arbitrary: i) auto

lemma parent_index_Some:
  "parent_index ps cn pr i = Some j \<Longrightarrow>
     \<exists>as p bs. ps = as @ p # bs \<and> j = i + length as \<and> entry_of cn pr p \<and> (\<forall>a \<in> set as. \<not> entry_of cn pr a)"
proof (induction ps arbitrary: i)
  case Nil
  then show ?case by simp
next
  case (Cons q ps)
  show ?case
  proof (cases "entry_of cn pr q")
    case True
    with Cons(2) show ?thesis by (intro exI [of _ "[]"]) auto
  next
    case False
    with Cons(2) have "parent_index ps cn pr (i + 1) = Some j" by (auto split: if_splits)
    from Cons(1) [OF this] obtain as p bs where "ps = as @ p # bs" "j = i + 1 + length as"
      "entry_of cn pr p" "\<forall>a \<in> set as. \<not> entry_of cn pr a" by blast
    with False show ?thesis by (intro exI [of _ "q # as"]) auto
  qed
qed

lemma parent_index_append:
  "\<forall>a \<in> set as. \<not> entry_of cn pr a \<Longrightarrow> entry_of cn pr p \<Longrightarrow> parent_index (as @ p # bs) cn pr i = Some (i + length as)"
  by (induction as arbitrary: i) auto

definition our_entry :: "os_env \<Rightarrow> ParentReference \<Rightarrow> Condition list \<Rightarrow> RouteParentStatus" where
  "our_entry os_env pr conds =
     \<lparr>rps_ParentRef = pr, rps_ControllerName = getGatewayControllerName os_env, rps_Conditions = conds\<rparr>"

abbreviation is_ours :: "os_env \<Rightarrow> ParentReference \<Rightarrow> RouteParentStatus \<Rightarrow> bool" where
  "is_ours os_env pr p \<equiv> entry_of (getGatewayControllerName os_env) pr p"

lemma setOurRouteParentStatus_cases:
  obtains
    (absent) "\<forall>p \<in> set ps. \<not> is_ours os_env pr p"
      "setOurRouteParentStatus os_env ssc ps pr gen cs = (ps @ [our_entry os_env pr (set_conditions ssc gen cs [])], True)"
  | (present) as p bs where "ps = as @ p # bs" "is_ours os_env pr p" "\<forall>a \<in> set as. \<not> is_ours os_env pr a"
      "setOurRouteParentStatus os_env ssc ps pr gen cs =
         (let p' = our_entry os_env pr (set_conditions ssc gen cs (rps_Conditions p))
          in if p = p' then (ps, False) else (as @ p' # bs, True))"
proof (cases "parent_index ps (getGatewayControllerName os_env) pr 0")
  case None
  show ?thesis
  proof (rule absent)
    show "\<forall>p \<in> set ps. \<not> is_ours os_env pr p" using None by (simp only: parent_index_None)
    show "setOurRouteParentStatus os_env ssc ps pr gen cs =
        (ps @ [our_entry os_env pr (set_conditions ssc gen cs [])], True)"
      by (simp add: setOurRouteParentStatus_def our_entry_def None)
  qed
next
  case (Some j)
  from parent_index_Some [OF this] obtain as p bs where
    "ps = as @ p # bs" "j = length as" "is_ours os_env pr p" "\<forall>a \<in> set as. \<not> is_ours os_env pr a" by auto
  with Some show ?thesis
    using present [of as p bs] by (simp add: setOurRouteParentStatus_def our_entry_def Let_def)
qed

text \<open>Every condition of the list is there afterwards, when their types are distinct.\<close>

definition says :: "int \<Rightarrow> Condition list \<Rightarrow> Condition \<Rightarrow> bool" where
  "says gen conds c \<longleftrightarrow>
     (\<exists>d. condition_of (c_Type c) conds = Some d \<and> same_content d (c\<lparr>c_ObservedGeneration := gen\<rparr>))"

lemma ssc_says:
  "set_condition_doc ssc \<Longrightarrow> says gen (fst (ssc conds (c\<lparr>c_ObservedGeneration := gen\<rparr>))) c"
  by (force simp: says_def set_condition_doc_def)

lemma ssc_says_other:
  assumes "set_condition_doc ssc" "c_Type c \<noteq> c_Type d"
  shows "says gen (fst (ssc conds (d\<lparr>c_ObservedGeneration := g\<rparr>))) c \<longleftrightarrow> says gen conds c"
  using ssc_other [OF assms(1), of "c_Type c" "d\<lparr>c_ObservedGeneration := g\<rparr>" conds] assms(2)
  by (simp add: says_def)

lemma set_conditions_other:
  assumes "set_condition_doc ssc" "c_Type c \<notin> c_Type ` set cs"
  shows "says gen (set_conditions ssc gen cs conds) c \<longleftrightarrow> says gen conds c"
  using assms(2)
proof (induction cs arbitrary: conds)
  case Nil
  then show ?case by simp
next
  case (Cons d cs)
  then show ?case using ssc_says_other [OF assms(1), of c d] by simp
qed

lemma set_conditions_says:
  assumes "set_condition_doc ssc"
  shows "distinct (map c_Type cs) \<Longrightarrow> c \<in> set cs \<Longrightarrow> says gen (set_conditions ssc gen cs conds) c"
proof (induction cs arbitrary: conds)
  case Nil
  then show ?case by simp
next
  case (Cons d cs)
  then show ?case
    using set_conditions_other [OF assms, of c cs gen] ssc_says [OF assms, of gen conds c] by auto
qed

lemma set_conditions_idem:
  assumes "set_condition_doc ssc"
  shows "\<forall>c \<in> set cs. says gen conds c \<Longrightarrow> set_conditions ssc gen cs conds = conds"
proof (induction cs)
  case Nil
  then show ?case by simp
next
  case (Cons c cs)
  have "ssc conds (c\<lparr>c_ObservedGeneration := gen\<rparr>) = (conds, False)"
    using Cons(2) assms by (force simp: says_def set_condition_doc_def)
  with Cons show ?case by simp
qed

text \<open>What the upsert does.\<close>

lemma setOurRouteParentStatus_spec:
  assumes doc: "set_condition_doc ssc" and types: "distinct (map c_Type conditions)"
    and run: "setOurRouteParentStatus os_env ssc parents pr gen conditions = (parents', changed)"
  shows "(\<exists>p \<in> set parents'. is_ours os_env pr p \<and> (\<forall>c \<in> set conditions. says gen (rps_Conditions p) c)) \<and>
     filter (\<lambda>p. \<not> is_ours os_env pr p) parents' = filter (\<lambda>p. \<not> is_ours os_env pr p) parents \<and>
     (changed \<longleftrightarrow> parents' \<noteq> parents) \<and>
     setOurRouteParentStatus os_env ssc parents' pr gen conditions = (parents', False)"
proof -
  have again: "setOurRouteParentStatus os_env ssc (as @ q # bs) pr gen conditions = (as @ q # bs, False)"
    if "\<forall>a \<in> set as. \<not> is_ours os_env pr a" "q = our_entry os_env pr cs" "\<forall>c \<in> set conditions. says gen cs c" for as q bs cs
    using that parent_index_append [OF that(1), of q bs 0] set_conditions_idem [OF doc that(3)]
    by (simp add: setOurRouteParentStatus_def our_entry_def)
  have entry: "is_ours os_env pr (our_entry os_env pr cs)" "rps_Conditions (our_entry os_env pr cs) = cs" for cs
    by (simp_all add: our_entry_def)
  note s = set_conditions_says [OF doc types]
  show ?thesis
  proof (rule setOurRouteParentStatus_cases [of parents os_env pr ssc gen conditions], goal_cases)
    case 1
    let ?q = "our_entry os_env pr (set_conditions ssc gen conditions [])"
    from 1 run have r: "parents' = parents @ ?q # []" "changed" by auto
    show ?case using 1(1) r again [of parents ?q _ "[]"] s entry by auto
  next
    case (2 as p bs)
    let ?q = "our_entry os_env pr (set_conditions ssc gen conditions (rps_Conditions p))"
    from 2 run have r: "parents' = as @ ?q # bs" "changed \<longleftrightarrow> p \<noteq> ?q" by (auto simp: Let_def split: if_splits)
    show ?case using 2(1-3) r again [of as ?q _ bs] s entry by auto
  qed
qed

section \<open>Properties\<close>

text \<open>
  C26. The controller writes its own entry of a route's status and no other. Given the documented
  behaviour of \<open>SetStatusCondition\<close>, after \<open>setOurRouteParentStatus\<close> there is an entry of this
  controller for the parent that carries every wanted condition with the route's generation;
  all entries that are not this controller's for this parent are the same and in the same order;
  the result says truthfully whether anything changed; and doing it again changes nothing.
\<close>

theorem route_parent_status_exact:
  assumes doc: "set_condition_doc ssc" and types: "distinct (map c_Type conditions)"
    and run: "setOurRouteParentStatus os_env ssc parents pr gen conditions = (parents', changed)"
  shows "(\<exists>p \<in> set parents'. is_ours os_env pr p \<and> (\<forall>c \<in> set conditions. says gen (rps_Conditions p) c)) \<and>
     filter (\<lambda>p. \<not> is_ours os_env pr p) parents' = filter (\<lambda>p. \<not> is_ours os_env pr p) parents \<and>
     (changed \<longleftrightarrow> parents' \<noteq> parents) \<and>
     setOurRouteParentStatus os_env ssc parents' pr gen conditions = (parents', False)"
  by (rule setOurRouteParentStatus_spec [OF assms])

theorem route_parent_status_exact_witness:
  "snd (setOurRouteParentStatus (\<lambda>_. None) demo_ssc [] (hd (rt_ParentRefs demo_route)) 3 acceptedRouteConditions) \<and>
   setOurRouteParentStatus (\<lambda>_. None) demo_ssc
     (fst (setOurRouteParentStatus (\<lambda>_. None) demo_ssc [] (hd (rt_ParentRefs demo_route)) 3 acceptedRouteConditions))
     (hd (rt_ParentRefs demo_route)) 3 acceptedRouteConditions =
   (fst (setOurRouteParentStatus (\<lambda>_. None) demo_ssc [] (hd (rt_ParentRefs demo_route)) 3 acceptedRouteConditions), False)"
proof -
  let ?r = "setOurRouteParentStatus (\<lambda>_. None) demo_ssc [] (hd (rt_ParentRefs demo_route)) 3 acceptedRouteConditions"
  have d: "distinct (map c_Type acceptedRouteConditions)" by code_simp
  have r: "?r = (fst ?r, snd ?r)" by simp
  note t = route_parent_status_exact [OF demo_ssc_doc d r]
  then have "fst ?r \<noteq> []" by auto
  with t show ?thesis by blast
qed

text \<open>
  C27. The status is written only when it has to be, and a conflicting write loses nothing. Given
  the documented behaviour of \<open>SetStatusCondition\<close> and of the retry (it returns when the attempt
  succeeds), nothing is sent when the entry already says what it should; otherwise the route
  with the new entry is sent. When that update fails and the route can be read again, the one
  update that follows sends the route as just read, with this controller's entry renewed for
  its generation and every other entry as it was read.
\<close>

theorem route_status_write_exact:
  assumes doc: "set_condition_doc ssc" and types: "distinct (map c_Type conditions)"
    and retry: "\<And>f s s'. f s = (None, s') \<Longrightarrow> retry f s = (None, s')"
    and set: "setOurRouteParentStatus os_env ssc (rt_Parents route) pr gen conditions = (parents', changed)"
    and attempt: "status_attempt os_env ssc C True pr conditions (route\<lparr>rt_Parents := parents'\<rparr>, w) = (e, route', w')"
  shows "(parents' = rt_Parents route \<longrightarrow>
       writeRouteParentStatus os_env ssc retry C True route pr gen conditions w = (route, w)) \<and>
    (parents' \<noteq> rt_Parents route \<and> e = None \<longrightarrow>
       writeRouteParentStatus os_env ssc retry C True route pr gen conditions w = (route', w')) \<and>
    (\<forall>r1 w1. c_UpdateRouteStatus C (route\<lparr>rt_Parents := parents'\<rparr>) w = (None, r1, w1) \<longrightarrow>
       (e, route', w') = (None, r1, w1)) \<and>
    (\<forall>err r1 w1 latest w2. c_UpdateRouteStatus C (route\<lparr>rt_Parents := parents'\<rparr>) w = (Some err, r1, w1) \<and>
         c_GetRoute C (Namespace (rt_Meta r1)) (Name (rt_Meta r1)) w1 = (Inr latest, w2) \<longrightarrow>
       (\<exists>ps. (e, route', w') = c_UpdateRouteStatus C (latest\<lparr>rt_Parents := ps\<rparr>) w2 \<and>
          filter (\<lambda>p. \<not> is_ours os_env pr p) ps = filter (\<lambda>p. \<not> is_ours os_env pr p) (rt_Parents latest) \<and>
          (\<exists>p \<in> set ps. is_ours os_env pr p \<and>
             (\<forall>c \<in> set conditions. says (Generation (rt_Meta latest)) (rps_Conditions p) c))))"
proof (intro conjI impI allI)
  have ch: "changed \<longleftrightarrow> parents' \<noteq> rt_Parents route"
    using setOurRouteParentStatus_spec [OF doc types set] by blast
  show "writeRouteParentStatus os_env ssc retry C True route pr gen conditions w = (route, w)"
    if "parents' = rt_Parents route"
    using that ch set by (simp add: writeRouteParentStatus_def)
  show "writeRouteParentStatus os_env ssc retry C True route pr gen conditions w = (route', w')"
    if "parents' \<noteq> rt_Parents route \<and> e = None"
    using that ch set attempt
      retry [of "status_attempt os_env ssc C True pr conditions" "(route\<lparr>rt_Parents := parents'\<rparr>, w)" "(route', w')"]
    by (simp add: writeRouteParentStatus_def)
  show "(e, route', w') = (None, r1, w1)"
    if "c_UpdateRouteStatus C (route\<lparr>rt_Parents := parents'\<rparr>) w = (None, r1, w1)" for r1 w1
    using that attempt by (simp add: status_attempt_def)
  fix err r1 w1 latest w2
  assume conflict: "c_UpdateRouteStatus C (route\<lparr>rt_Parents := parents'\<rparr>) w = (Some err, r1, w1) \<and>
    c_GetRoute C (Namespace (rt_Meta r1)) (Name (rt_Meta r1)) w1 = (Inr latest, w2)"
  let ?gen = "Generation (rt_Meta latest)"
  obtain ps ch' where ps: "setOurRouteParentStatus os_env ssc (rt_Parents latest) pr ?gen conditions = (ps, ch')" by force
  have sent: "(e, route', w') = c_UpdateRouteStatus C (latest\<lparr>rt_Parents := ps\<rparr>) w2"
    using conflict attempt ps by (simp add: status_attempt_def)
  show "\<exists>ps. (e, route', w') = c_UpdateRouteStatus C (latest\<lparr>rt_Parents := ps\<rparr>) w2 \<and>
      filter (\<lambda>p. \<not> is_ours os_env pr p) ps = filter (\<lambda>p. \<not> is_ours os_env pr p) (rt_Parents latest) \<and>
      (\<exists>p \<in> set ps. is_ours os_env pr p \<and> (\<forall>c \<in> set conditions. says ?gen (rps_Conditions p) c))"
    using sent setOurRouteParentStatus_spec [OF doc types ps] by blast
qed

text \<open>A client whose first update conflicts: the world counts the updates.\<close>

definition demo_status_client :: "nat api_client" where
  "demo_status_client = \<lparr>c_GetGateway = (\<lambda>ns n w. (Inl (ExternalError ''none''), w)),
     c_GetGatewayClass = (\<lambda>n w. (Inl (ExternalError ''none''), w)), c_GetRoute = (\<lambda>ns n w. (Inr demo_route, w)),
     c_UpdateGateway = (\<lambda>g w. (None, g, w)), c_UpdateGatewayStatus = (\<lambda>g w. (None, g, w)),
     c_UpdateGatewayClassStatus = (\<lambda>g w. (None, g, w)), c_UpdateRoute = (\<lambda>r w. (None, r, w)),
     c_UpdateRouteStatus = (\<lambda>r w. (if w = 0 then Some (ExternalError ''conflict'') else None, r, w + 1))\<rparr>"

theorem route_status_write_exact_witness:
  "\<exists>ps. snd (writeRouteParentStatus (\<lambda>_. None) demo_ssc (\<lambda>f. f) demo_status_client True demo_route
       (hd (rt_ParentRefs demo_route)) 1 acceptedRouteConditions 0) = 2 \<and>
     (\<exists>p \<in> set ps. is_ours (\<lambda>_. None) (hd (rt_ParentRefs demo_route)) p)"
proof -
  let ?pr = "hd (rt_ParentRefs demo_route)"
  obtain ps' ch where s: "setOurRouteParentStatus (\<lambda>_. None) demo_ssc (rt_Parents demo_route) ?pr 1 acceptedRouteConditions = (ps', ch)"
    by force
  obtain e r' w' where a: "status_attempt (\<lambda>_. None) demo_ssc demo_status_client True ?pr acceptedRouteConditions
      (demo_route\<lparr>rt_Parents := ps'\<rparr>, 0) = (e, r', w')" by (metis prod_cases3)
  have d: "distinct (map c_Type acceptedRouteConditions)" by code_simp
  note t = route_status_write_exact [OF demo_ssc_doc d, of "\<lambda>f. f", OF _ s a]
  have empty: "rt_Parents demo_route = []" by (simp add: demo_route_def)
  have first: "c_UpdateRouteStatus demo_status_client (demo_route\<lparr>rt_Parents := ps'\<rparr>) 0
        = (Some (ExternalError ''conflict''), demo_route\<lparr>rt_Parents := ps'\<rparr>, 1)"
      "c_GetRoute demo_status_client (Namespace (rt_Meta (demo_route\<lparr>rt_Parents := ps'\<rparr>)))
         (Name (rt_Meta (demo_route\<lparr>rt_Parents := ps'\<rparr>))) 1 = (Inr demo_route, 1)"
    by (simp_all add: demo_status_client_def)
  from t [THEN conjunct2, THEN conjunct2, THEN conjunct2] first obtain ps where
      ps: "(e, r', w') = c_UpdateRouteStatus demo_status_client (demo_route\<lparr>rt_Parents := ps\<rparr>) 1"
      and ours: "\<exists>p \<in> set ps. is_ours (\<lambda>_. None) ?pr p" by blast
  then have e: "e = None" "w' = 2" by (simp_all add: demo_status_client_def)
  have "ps' \<noteq> rt_Parents demo_route"
    using s empty by (auto simp: setOurRouteParentStatus_def Let_def)
  with t e have "snd (writeRouteParentStatus (\<lambda>_. None) demo_ssc (\<lambda>f. f) demo_status_client True demo_route ?pr 1 acceptedRouteConditions 0) = 2"
    by auto
  with ours show ?thesis by blast
qed

end
