(* ===== verification/Route_Controller.thy ===== *)
theory Route_Controller
  imports Gateway_Controller Route_Status
begin

text \<open>
  The reconcilers of routes (\<open>httproute_controller.go\<close>, \<open>tcproute_controller.go\<close>,
  \<open>tlsroute_controller.go\<close>). The three files are the same program at three types; here it is
  one definition over a record of what differs: the finalizer, the extractor of the details,
  and whether the type of the object is one that \<open>getRouteStatus\<close> knows. For TLSRoute that
  depends on whether the two API packages name one type, which is an argument.
\<close>

record route_kind =
  rk_Finalizer :: "os_env \<Rightarrow> string"
  rk_extract :: "K8sRoute \<Rightarrow> go_error + routeDetails"
  rk_status_known :: bool

definition HTTPRoute_kind :: route_kind where
  "HTTPRoute_kind = \<lparr>rk_Finalizer = getHTTPRouteFinalizer, rk_extract = extractHTTPRouteDetails, rk_status_known = True\<rparr>"

definition TCPRoute_kind :: route_kind where
  "TCPRoute_kind = \<lparr>rk_Finalizer = getTCPRouteFinalizer, rk_extract = extractTCPRouteDetails, rk_status_known = True\<rparr>"

definition TLSRoute_kind :: "bool \<Rightarrow> route_kind" where
  "TLSRoute_kind same_type =
     \<lparr>rk_Finalizer = getTLSRouteFinalizer, rk_extract = extractTLSRouteDetails, rk_status_known = same_type\<rparr>"

text \<open>The library functions and settings that the reconcilers run with.\<close>

record ('p, 'w) route_libs =
  rl_pool :: "'p sessionPool"
  rl_url :: "string \<Rightarrow> (string \<times> string) option"
  rl_ssc :: "Condition list \<Rightarrow> Condition \<Rightarrow> Condition list \<times> bool"
  rl_retry :: "(K8sRoute \<times> 'w \<Rightarrow> go_error option \<times> K8sRoute \<times> 'w) \<Rightarrow> K8sRoute \<times> 'w \<Rightarrow> go_error option \<times> K8sRoute \<times> 'w"
  rl_settings :: ctl_settings
  rl_client :: "'w api_client"
  rl_now :: "int option"

definition route_with_finalizers :: "K8sRoute \<Rightarrow> string list \<Rightarrow> K8sRoute" where
  "route_with_finalizers r fs = r\<lparr>rt_Meta := (rt_Meta r)\<lparr>Finalizers := fs\<rparr>\<rparr>"

definition route_handleAddOrUpdate ::
  "route_kind \<Rightarrow> ('p, 'w) route_libs \<Rightarrow> K8sRoute \<Rightarrow> routeDetails \<Rightarrow> 'p GatewayReconciler \<Rightarrow> 'w \<Rightarrow>
     reconcile_result \<times> 'p GatewayReconciler \<times> 'w" where
  "route_handleAddOrUpdate rk L k8sRoute rd gr w =
     (let os_env = cs_env (rl_settings L);
          finalizer = rk_Finalizer rk os_env;
          (updErr, route1, w1) =
            (if \<not> containsString (Finalizers (rt_Meta k8sRoute)) finalizer
             then c_UpdateRoute (rl_client L)
                    (route_with_finalizers k8sRoute (Finalizers (rt_Meta k8sRoute) @ [finalizer])) w
             else (None, k8sRoute, w))
      in case updErr of
           Some err \<Rightarrow> ((0, Some err), gr, w1)
         | None \<Rightarrow>
             (case SetRoute (rl_pool L) (rl_url L) (Some (rl_client L)) (rl_now L)
                     (rd_gwNamespace rd) (rd_gwName rd) (rd_listenerName rd)
                     (rd_routeName rd) (rd_routeNamespace rd) (rd_backendHost rd) (rd_backendPort rd) gr w1 of
                (Some err, gr', w2) \<Rightarrow>
                  if errors_As is_GatewayNotReady err \<or> errors_As is_GatewayNotFound err then
                    (let (route2, w3) = writeRouteParentStatus os_env (rl_ssc L) (rl_retry L) (rl_client L)
                           (rk_status_known rk) route1 (hd (rt_ParentRefs route1)) (Generation (rt_Meta route1))
                           (pendingRouteConditions ''Parent Gateway is not ready'') w2
                     in ((cs_routeRetryPeriod (rl_settings L), None), gr', w3))
                  else ((0, Some err), gr', w2)
              | (None, gr', w2) \<Rightarrow>
                  (let (route2, w3) = writeRouteParentStatus os_env (rl_ssc L) (rl_retry L) (rl_client L)
                         (rk_status_known rk) route1 (hd (rt_ParentRefs route1)) (Generation (rt_Meta route1))
                         acceptedRouteConditions w2
                   in ((cs_routeReconcilePeriod (rl_settings L), None), gr', w3))))"

definition route_handleDeletion ::
  "route_kind \<Rightarrow> ('p, 'w) route_libs \<Rightarrow> K8sRoute \<Rightarrow> routeDetails \<Rightarrow> 'p GatewayReconciler \<Rightarrow> 'w \<Rightarrow>
     reconcile_result \<times> 'p GatewayReconciler \<times> 'w" where
  "route_handleDeletion rk L k8sRoute rd gr w =
     (let finalizer = rk_Finalizer rk (cs_env (rl_settings L)) in
      if containsString (Finalizers (rt_Meta k8sRoute)) finalizer then
        (let (err, gr', w1) = RemoveRoute (rl_pool L) (rl_url L) (Some (rl_client L)) (rl_now L)
               (rd_gwNamespace rd) (rd_gwName rd) (rd_listenerName rd) (rd_routeName rd) (rd_routeNamespace rd) gr w;
             stop = (case err of None \<Rightarrow> False
                     | Some e \<Rightarrow> \<not> errors_As is_GatewayNotFound e \<and> \<not> errors_As is_RouteNotFound e)
         in if stop then ((0, err), gr', w1)
            else
              (case c_UpdateRoute (rl_client L)
                  (route_with_finalizers k8sRoute (removeString (Finalizers (rt_Meta k8sRoute)) finalizer)) w1 of
                 (Some e, _, w2) \<Rightarrow> ((0, Some e), gr', w2)
               | (None, _, w2) \<Rightarrow> ((cs_routeReconcilePeriod (rl_settings L), None), gr', w2)))
      else ((cs_routeReconcilePeriod (rl_settings L), None), gr, w))"

text \<open>The part of \<open>Reconcile\<close> behind the ownership check.\<close>

definition route_reconcile_owned ::
  "route_kind \<Rightarrow> ('p, 'w) route_libs \<Rightarrow> K8sRoute \<Rightarrow> bool \<Rightarrow> 'p GatewayReconciler \<Rightarrow> 'w \<Rightarrow>
     reconcile_result \<times> 'p GatewayReconciler \<times> 'w" where
  "route_reconcile_owned rk L k8sRoute isManagedByUs gr w =
     (case rk_extract rk k8sRoute of
        Inl err \<Rightarrow> ((0, Some err), gr, w)
      | Inr rd \<Rightarrow>
          if Deleted (rt_Meta k8sRoute) then
            (if isManagedByUs then route_handleDeletion rk L k8sRoute rd gr w else ((0, None), gr, w))
          else route_handleAddOrUpdate rk L k8sRoute rd gr w)"

definition route_Reconcile ::
  "route_kind \<Rightarrow> ('p, 'w) route_libs \<Rightarrow> string \<Rightarrow> string \<Rightarrow> 'p GatewayReconciler \<Rightarrow> 'w \<Rightarrow>
     reconcile_result \<times> 'p GatewayReconciler \<times> 'w" where
  "route_Reconcile rk L reqNamespace reqName gr w =
     (let os_env = cs_env (rl_settings L) in
      case c_GetRoute (rl_client L) reqNamespace reqName w of
        (Inl err, w1) \<Rightarrow> ((0, IgnoreNotFound (Some err)), gr, w1)
      | (Inr k8sRoute, w1) \<Rightarrow>
          let isManagedByUs = containsString (Finalizers (rt_Meta k8sRoute)) (rk_Finalizer rk os_env) in
          if isManagedByUs then route_reconcile_owned rk L k8sRoute True gr w1
          else
            case extractParentGatewayRef (rt_ParentRefs k8sRoute) (Namespace (rt_Meta k8sRoute)) of
              Inl err \<Rightarrow> ((0, None), gr, w1)
            | Inr (gwNamespace, gwName) \<Rightarrow>
                (case IsGatewayManaged os_env (rl_client L) gwNamespace gwName w1 of
                   (Inl err, w2) \<Rightarrow> ((0, Some err), gr, w2)
                 | (Inr isManaged, w2) \<Rightarrow>
                     if \<not> isManaged then ((0, None), gr, w2)
                     else route_reconcile_owned rk L k8sRoute False gr w2))"

definition HTTPRoute_Reconcile ::
  "('p, 'w) route_libs \<Rightarrow> string \<Rightarrow> string \<Rightarrow> 'p GatewayReconciler \<Rightarrow> 'w \<Rightarrow> reconcile_result \<times> 'p GatewayReconciler \<times> 'w" where
  "HTTPRoute_Reconcile = route_Reconcile HTTPRoute_kind"

definition TCPRoute_Reconcile ::
  "('p, 'w) route_libs \<Rightarrow> string \<Rightarrow> string \<Rightarrow> 'p GatewayReconciler \<Rightarrow> 'w \<Rightarrow> reconcile_result \<times> 'p GatewayReconciler \<times> 'w" where
  "TCPRoute_Reconcile = route_Reconcile TCPRoute_kind"

definition TLSRoute_Reconcile ::
  "bool \<Rightarrow> ('p, 'w) route_libs \<Rightarrow> string \<Rightarrow> string \<Rightarrow> 'p GatewayReconciler \<Rightarrow> 'w \<Rightarrow> reconcile_result \<times> 'p GatewayReconciler \<times> 'w" where
  "TLSRoute_Reconcile same_type = route_Reconcile (TLSRoute_kind same_type)"

section \<open>Lemmas\<close>

lemma route_handleAddOrUpdate_registry:
  assumes "route_handleAddOrUpdate rk L route rd gr w = (res, gr', w')" "gr' \<noteq> gr"
  shows "rk_Finalizer rk (cs_env (rl_settings L)) \<in> set (Finalizers (rt_Meta route)) \<or>
    (\<exists>r1 w1. c_UpdateRoute (rl_client L) (route_with_finalizers route
        (Finalizers (rt_Meta route) @ [rk_Finalizer rk (cs_env (rl_settings L))])) w = (None, r1, w1))"
proof (rule ccontr)
  assume n: "\<not> ?thesis"
  then obtain err r1 w1 where u: "c_UpdateRoute (rl_client L) (route_with_finalizers route
        (Finalizers (rt_Meta route) @ [rk_Finalizer rk (cs_env (rl_settings L))])) w = (Some err, r1, w1)"
    by (metis not_Some_eq prod_cases3)
  with n assms show False by (simp add: route_handleAddOrUpdate_def)
qed

lemma route_handleDeletion_registry:
  "route_handleDeletion rk L route rd gr w = (res, gr', w') \<Longrightarrow> gr' \<noteq> gr \<Longrightarrow>
     rk_Finalizer rk (cs_env (rl_settings L)) \<in> set (Finalizers (rt_Meta route))"
  by (auto simp: route_handleDeletion_def Let_def split: if_splits)

lemma route_reconcile_owned_registry:
  assumes "route_reconcile_owned rk L route b gr w = (res, gr', w')" "gr' \<noteq> gr"
  shows "rk_Finalizer rk (cs_env (rl_settings L)) \<in> set (Finalizers (rt_Meta route)) \<or>
    (\<exists>r1 w1. c_UpdateRoute (rl_client L) (route_with_finalizers route
        (Finalizers (rt_Meta route) @ [rk_Finalizer rk (cs_env (rl_settings L))])) w = (None, r1, w1))"
proof (cases "rk_extract rk route")
  case (Inl err)
  with assms show ?thesis by (simp add: route_reconcile_owned_def)
next
  case (Inr rd)
  show ?thesis
  proof (cases "Deleted (rt_Meta route)")
    case True
    with Inr assms route_handleDeletion_registry [of rk L route rd gr w res gr' w'] show ?thesis
      by (auto simp: route_reconcile_owned_def split: if_splits)
  next
    case False
    with Inr assms route_handleAddOrUpdate_registry [of rk L route rd gr w res gr' w'] show ?thesis
      by (auto simp: route_reconcile_owned_def)
  qed
qed

text \<open>A route without this controller's finalizer goes through the ownership check.\<close>

lemma route_Reconcile_unowned:
  assumes g: "c_GetRoute (rl_client L) ns n w = (Inr route, w1)"
    and f: "rk_Finalizer rk (cs_env (rl_settings L)) \<notin> set (Finalizers (rt_Meta route))"
    and r: "route_Reconcile rk L ns n gr w = (res, gr', w')"
  shows "(\<exists>gns gn w2. extractParentGatewayRef (rt_ParentRefs route) (Namespace (rt_Meta route)) = Inr (gns, gn) \<and>
      IsGatewayManaged (cs_env (rl_settings L)) (rl_client L) gns gn w1 = (Inr True, w2) \<and>
      route_reconcile_owned rk L route False gr w2 = (res, gr', w')) \<or>
    (gr' = gr \<and> (w' = w1 \<or> (\<exists>gns gn. w' = snd (IsGatewayManaged (cs_env (rl_settings L)) (rl_client L) gns gn w1))))"
proof (cases "extractParentGatewayRef (rt_ParentRefs route) (Namespace (rt_Meta route))")
  case (Inl err)
  with g f r show ?thesis by (simp add: route_Reconcile_def)
next
  case (Inr p)
  obtain gns gn where p: "p = (gns, gn)" by (metis prod.collapse)
  obtain res2 w2 where m: "IsGatewayManaged (cs_env (rl_settings L)) (rl_client L) gns gn w1 = (res2, w2)"
    by (metis prod.collapse)
  show ?thesis
  proof (cases "res2 = Inr True")
    case True
    with g f r Inr p m show ?thesis by (simp add: route_Reconcile_def)
  next
    case False
    then have "gr' = gr \<and> w' = w2"
      using g f r Inr p m by (cases res2) (auto simp: route_Reconcile_def)
    with m show ?thesis by (metis snd_conv)
  qed
qed

section \<open>Properties\<close>

text \<open>
  C25. A route reconciler changes the registry, and with it the tunnels, only for a route that is
  guarded: the route carries the finalizer of its kind, or its first parent is a Gateway whose
  class names this controller and the finalizer was stored in the API before. Every route of
  another controller is left alone.
\<close>

theorem route_registry_guarded:
  assumes "rk \<in> {HTTPRoute_kind, TCPRoute_kind, TLSRoute_kind same_type}"
    and "route_Reconcile rk L ns n gr w = (res, gr', w')" and "gr' \<noteq> gr"
  shows "\<exists>route w1. c_GetRoute (rl_client L) ns n w = (Inr route, w1) \<and>
     (rk_Finalizer rk (cs_env (rl_settings L)) \<in> set (Finalizers (rt_Meta route)) \<or>
      (\<exists>gns gn w2 r1 w3.
         extractParentGatewayRef (rt_ParentRefs route) (Namespace (rt_Meta route)) = Inr (gns, gn) \<and>
         IsGatewayManaged (cs_env (rl_settings L)) (rl_client L) gns gn w1 = (Inr True, w2) \<and>
         c_UpdateRoute (rl_client L) (route_with_finalizers route
           (Finalizers (rt_Meta route) @ [rk_Finalizer rk (cs_env (rl_settings L))])) w2 = (None, r1, w3)))"
proof -
  obtain gres w1 where g: "c_GetRoute (rl_client L) ns n w = (gres, w1)" by (metis prod.collapse)
  show ?thesis
  proof (cases gres)
    case (Inl err)
    with assms(2,3) g show ?thesis by (simp add: route_Reconcile_def)
  next
    case (Inr route)
    show ?thesis
    proof (cases "rk_Finalizer rk (cs_env (rl_settings L)) \<in> set (Finalizers (rt_Meta route))")
      case True
      with g Inr show ?thesis by blast
    next
      case False
      from route_Reconcile_unowned [OF g [unfolded Inr] False assms(2)] assms(3)
      obtain gns gn w2 where o: "extractParentGatewayRef (rt_ParentRefs route) (Namespace (rt_Meta route)) = Inr (gns, gn)"
        "IsGatewayManaged (cs_env (rl_settings L)) (rl_client L) gns gn w1 = (Inr True, w2)"
        "route_reconcile_owned rk L route False gr w2 = (res, gr', w')" by blast
      from route_reconcile_owned_registry [OF o(3) assms(3)] False o(1,2) g Inr show ?thesis by blast
    qed
  qed
qed

definition demo_libs :: "nat api_client \<Rightarrow> ((SSHTunnelManager, trace) SSHSessionPool, nat) route_libs" where
  "demo_libs C = \<lparr>rl_pool = demo_pool_ops, rl_url = (\<lambda>_. None), rl_ssc = demo_ssc, rl_retry = (\<lambda>f s. f s),
     rl_settings = demo_settings, rl_client = C, rl_now = None\<rparr>"

definition demo_ns_route :: "string list \<Rightarrow> bool \<Rightarrow> K8sRoute" where
  "demo_ns_route fs deleted = demo_route\<lparr>rt_Meta := (rt_Meta demo_route)\<lparr>Namespace := ''ns'', Finalizers := fs, Deleted := deleted\<rparr>\<rparr>"

definition demo_route_client :: "string list \<Rightarrow> bool \<Rightarrow> nat api_client" where
  "demo_route_client fs deleted = demo_pp_client\<lparr>c_GetRoute := (\<lambda>ns n w. (Inr (demo_ns_route fs deleted), w))\<rparr>"

theorem route_registry_guarded_witness:
  "fst (route_Reconcile HTTPRoute_kind (demo_libs (demo_route_client [] False)) ''ns'' ''r'' demo_reg 0) = (10 * 1000000000, None) \<and>
   (\<exists>w2 r1 w3. IsGatewayManaged (\<lambda>_. None) (demo_route_client [] False) ''ns'' ''gw'' 0 = (Inr True, w2) \<and>
      c_UpdateRoute (demo_route_client [] False) (route_with_finalizers (demo_ns_route [] False)
        [getHTTPRouteFinalizer (\<lambda>_. None)]) w2 = (None, r1, w3))"
proof -
  let ?L = "demo_libs (demo_route_client [] False)"
  let ?r = "route_Reconcile HTTPRoute_kind ?L ''ns'' ''r'' demo_reg 0"
  have r: "?r = (fst ?r, fst (snd ?r), snd (snd ?r))" by simp
  have f: "fst ?r = (10 * 1000000000, None)" by code_simp
  have "map_option (\<lambda>gw. map_option (\<lambda>l. l_route l = None) (mget gw ''web''))
      (mget (gr_gateways (fst (snd ?r))) ''ns/gw'') = Some (Some False)"
    "map_option (\<lambda>gw. map_option (\<lambda>l. l_route l = None) (mget gw ''web''))
      (mget (gr_gateways demo_reg) ''ns/gw'') = Some (Some True)" by code_simp+
  then have ne: "fst (snd ?r) \<noteq> demo_reg" by auto
  have g: "c_GetRoute (rl_client ?L) ''ns'' ''r'' 0 = (Inr (demo_ns_route [] False), 0)"
    by (simp add: demo_libs_def demo_route_client_def)
  have e: "extractParentGatewayRef (rt_ParentRefs (demo_ns_route [] False)) (Namespace (rt_Meta (demo_ns_route [] False))) = Inr (''ns'', ''gw'')"
    by code_simp
  have s: "Finalizers (rt_Meta (demo_ns_route [] False)) = []" "cs_env (rl_settings ?L) = (\<lambda>_. None)"
      "rl_client ?L = demo_route_client [] False" "rk_Finalizer HTTPRoute_kind = getHTTPRouteFinalizer"
    by (simp_all add: demo_ns_route_def demo_libs_def demo_settings_def load_settings_def HTTPRoute_kind_def)
  from route_registry_guarded [OF insertI1 r ne] show ?thesis
    using f g e unfolding s by (auto simp: s(1))
qed

text \<open>The listener, in the registry, to which a route is attached.\<close>

definition attached_at :: "routeDetails \<Rightarrow> 'p GatewayReconciler \<Rightarrow> gateway \<Rightarrow> Listener \<Rightarrow> bool" where
  "attached_at rd gr gw l \<longleftrightarrow>
     mget (gr_gateways gr) (getGwKey (rd_gwNamespace rd) (rd_gwName rd)) = Some gw \<and>
     mget gw (rd_listenerName rd) = Some l \<and>
     (\<exists>r. l_route l = Some r \<and> r_Name r = rd_routeName rd \<and> r_Namespace r = rd_routeNamespace rd)"

text \<open>
  C8. Deleting a route, in order. Reconciling a deleted route that carries the finalizer:
  \<^item> when its parent or backend cannot be extracted, answers the error and does nothing;
  \<^item> when the registry has it attached to its listener, either stopping the forwarding fails, nothing
    is sent to the API (so the finalizer stays) and the registry is as before; or the forwarding was
    held by the session of the listener and is not held any more, no other forwarding changed,
    the listener is free, and then the route without exactly this finalizer is sent;
  \<^item> when the registry does not have it attached (also when its listener or Gateway was dropped from
    the registry, whatever became of the forwarding), no session and no listener is touched and
    the route without exactly this finalizer is sent.
\<close>

theorem route_deletion_order:
  assumes "rk \<in> {HTTPRoute_kind, TCPRoute_kind, TLSRoute_kind same_type}"
    and "rl_pool L = tunnel_pool_ops env pk base" "tunnel_pool_inv (gr_pool gr)"
    and "c_GetRoute (rl_client L) ns n w = (Inr route, w1)" "Deleted (rt_Meta route)"
    and "rk_Finalizer rk (cs_env (rl_settings L)) \<in> set (Finalizers (rt_Meta route))"
    and "route_Reconcile rk L ns n gr w = (res, gr', w')"
  defines "sent \<equiv> \<exists>w2 e r2. (e, r2, w') = c_UpdateRoute (rl_client L) (route_with_finalizers route
        (filter (\<lambda>f. f \<noteq> rk_Finalizer rk (cs_env (rl_settings L))) (Finalizers (rt_Meta route)))) w2 \<and>
      res = (if e = None then (cs_routeReconcilePeriod (rl_settings L), None) else (0, e))"
  shows "case rk_extract rk route of
      Inl err \<Rightarrow> res = (0, Some err) \<and> gr' = gr \<and> w' = w1
    | Inr rd \<Rightarrow>
        (\<forall>gw l. attached_at rd gr gw l \<longrightarrow>
           (\<exists>err. res = (0, Some (Wrapf ''failed to stop forwarding'' err)) \<and> w' = w1 \<and> gr_gateways gr' = gr_gateways gr) \<or>
           (sent \<and>
            tunnel_pool_active (gr_pool gr) (l_SessionKind l) (forwardingKey (l_Hostname l) (l_Port l)) \<noteq> None \<and>
            tunnel_pool_active (gr_pool gr') =
              without (tunnel_pool_active (gr_pool gr)) {(l_SessionKind l, forwardingKey (l_Hostname l) (l_Port l))} \<and>
            gr_gateways gr' = mput (getGwKey (rd_gwNamespace rd) (rd_gwName rd))
              (mput (rd_listenerName rd) (l\<lparr>l_route := None\<rparr>) gw) (gr_gateways gr))) \<and>
        ((\<nexists>gw l. attached_at rd gr gw l) \<longrightarrow> sent \<and> gr' = gr)"
proof (cases "rk_extract rk route")
  case (Inl err)
  with assms(4-7) show ?thesis by (simp add: route_Reconcile_def route_reconcile_owned_def)
next
  case (Inr rd)
  let ?fin = "rk_Finalizer rk (cs_env (rl_settings L))"
  obtain e1 gr1 w2 where rr: "RemoveRoute (tunnel_pool_ops env pk base) (rl_url L) (Some (rl_client L)) (rl_now L)
      (rd_gwNamespace rd) (rd_gwName rd) (rd_listenerName rd) (rd_routeName rd) (rd_routeNamespace rd) gr w1 = (e1, gr1, w2)"
    by (metis prod_cases3)
  obtain e2 r2 w3 where up: "c_UpdateRoute (rl_client L) (route_with_finalizers route
      (filter (\<lambda>f. f \<noteq> ?fin) (Finalizers (rt_Meta route)))) w2 = (e2, r2, w3)" by (metis prod_cases3)
  have run: "(res, gr', w') =
     (if (case e1 of None \<Rightarrow> False | Some e \<Rightarrow> \<not> errors_As is_GatewayNotFound e \<and> \<not> errors_As is_RouteNotFound e)
      then ((0, e1), gr1, w2)
      else if e2 = None then ((cs_routeReconcilePeriod (rl_settings L), None), gr1, w3) else ((0, e2), gr1, w3))"
    unfolding assms(7) [symmetric] using assms(2,4-6) Inr rr up
    by (auto simp: route_Reconcile_def route_reconcile_owned_def route_handleDeletion_def Let_def split: option.splits)
  have sent: "sent" if "(res, gr', w') = ((if e2 = None then (cs_routeReconcilePeriod (rl_settings L), None) else (0, e2)), gr1, w3)"
    unfolding sent_def using that up by (intro exI [of _ w2] exI [of _ e2] exI [of _ r2]) simp
  from assms(3) rr show ?thesis
  proof (cases rule: tunnels.spp.RemoveRoute_cases)
    case absent
    then have "(res, gr', w') = ((if e2 = None then (cs_routeReconcilePeriod (rl_settings L), None) else (0, e2)), gr1, w3)"
      using run by (auto split: option.splits if_splits)
    then show ?thesis using absent(3,5) sent Inr by (auto simp: attached_at_def)
  next
    case (stop_failed gw l r err)
    have "\<not> errors_As is_GatewayNotFound err \<and> \<not> errors_As is_RouteNotFound err"
      using stop_failed(10) tunnels.spp.stop_error by blast
    with stop_failed run Inr show ?thesis by (auto simp: attached_at_def)
  next
    case (removed gw l r)
    then have e: "(res, gr', w') = ((if e2 = None then (cs_routeReconcilePeriod (rl_settings L), None) else (0, e2)), gr1, w3)"
      using run by auto
    have "tunnel_pool_active (gr_pool gr) (l_SessionKind l) (listener_key l) \<noteq> None"
      using tunnels.spp.stop_ok_held [OF assms(3) removed(9)] by (simp add: stop_config_def)
    moreover have "gr' = gr1" using e by simp
    moreover have "attached_at rd gr gw l" using removed(2-6) by (auto simp: attached_at_def)
    moreover have "gw2 = gw \<and> l2 = l" if "attached_at rd gr gw2 l2" for gw2 l2
      using that removed(2,3) by (simp add: attached_at_def)
    ultimately show ?thesis using removed(7,10) sent [OF e] unfolding Inr sum.case by blast
  qed
qed

theorem route_deletion_order_witness:
  "fst (route_Reconcile HTTPRoute_kind (demo_libs (demo_route_client [getHTTPRouteFinalizer (\<lambda>_. None)] True)) ''ns'' ''r'' demo_reg_set 0)
     = (10 * 1000000000, None) \<and>
   tunnel_pool_active (gr_pool demo_reg_set) SessionPlain ''h:8'' \<noteq> None \<and>
   tunnel_pool_active (gr_pool (fst (snd (route_Reconcile HTTPRoute_kind
      (demo_libs (demo_route_client [getHTTPRouteFinalizer (\<lambda>_. None)] True)) ''ns'' ''r'' demo_reg_set 0)))) SessionPlain ''h:8'' = None"
proof -
  let ?fin = "getHTTPRouteFinalizer (\<lambda>_. None)"
  let ?L = "demo_libs (demo_route_client [?fin] True)"
  let ?route = "demo_ns_route [?fin] True"
  let ?rd = "\<lparr>rd_routeName = ''r'', rd_routeNamespace = ''ns'', rd_gwName = ''gw'', rd_gwNamespace = ''ns'',
     rd_listenerName = ''web'', rd_backendHost = ''svc.other.svc.cluster.local'', rd_backendPort = 80\<rparr>"
  let ?r = "route_Reconcile HTTPRoute_kind ?L ''ns'' ''r'' demo_reg_set 0"
  let ?l = "demo_web\<lparr>l_route := Some demo_route_r\<rparr>"
  have r: "?r = (fst ?r, fst (snd ?r), snd (snd ?r))" by simp
  have f: "fst ?r = (10 * 1000000000, None)" by code_simp
  have k: "getGwKey ''ns'' ''gw'' = ''ns/gw''" "forwardingKey ''h'' 8 = ''h:8''" by code_simp+
  have pool: "rl_pool ?L = demo_pool_ops" by (simp add: demo_libs_def)
  have g: "c_GetRoute (rl_client ?L) ''ns'' ''r'' 0 = (Inr ?route, 0)"
    by (simp add: demo_libs_def demo_route_client_def)
  have del: "Deleted (rt_Meta ?route)" by (simp add: demo_ns_route_def)
  have fin: "rk_Finalizer HTTPRoute_kind (cs_env (rl_settings ?L)) \<in> set (Finalizers (rt_Meta ?route))"
    by (simp add: demo_ns_route_def demo_libs_def demo_settings_def load_settings_def HTTPRoute_kind_def)
  have ex: "rk_extract HTTPRoute_kind ?route = Inr ?rd" by code_simp
  have "map_option (\<lambda>gw. mget gw ''web'') (mget (gr_gateways demo_reg_set) ''ns/gw'') = Some (Some ?l)" by code_simp
  then obtain gw where at: "attached_at ?rd demo_reg_set gw ?l"
    by (auto simp: attached_at_def k demo_route_r_def)
  have l: "l_SessionKind ?l = SessionPlain" "forwardingKey (l_Hostname ?l) (l_Port ?l) = ''h:8''"
    by (simp_all add: demo_web_def k)
  from route_deletion_order [OF insertI1 pool demo_reg_inv(2) g del fin r, unfolded ex sum.case] at f l
  have "tunnel_pool_active (gr_pool demo_reg_set) SessionPlain ''h:8'' \<noteq> None \<and>
      tunnel_pool_active (gr_pool (fst (snd ?r))) = without (tunnel_pool_active (gr_pool demo_reg_set)) {(SessionPlain, ''h:8'')}"
    by fastforce
  with f show ?thesis by (simp add: without_def)
qed

end
