(* ===== verification/Startup.thy ===== *)
theory Startup
  imports Registry_Runs
begin

text \<open>
  How the program starts: \<open>main.go\<close>, \<open>GatewayReconciler.SetupWithManager\<close>,
  \<open>RegisterGatewayClassController\<close> and \<open>createSSHSessionPool\<close>. What the operating system and
  controller-runtime answer is a record; a nil pool is \<open>None\<close>.
\<close>

record startup_env =
  se_ReadFile :: "string \<Rightarrow> go_error + string"
  se_NewManager :: "go_error option"
  se_Complete :: "string \<Rightarrow> go_error option"
  se_Start :: "go_error option"

section \<open>The session pool\<close>

definition sshConfig :: "ctl_settings \<Rightarrow> string \<Rightarrow> SSHConnectionConfig" where
  "sshConfig cs key =
     \<lparr>RemoteAddrFunc = True, ServerAddress = cs_sshServer cs, Username = cs_sshUsername cs,
      HostKey = cs_sshHostKey cs, PrivateKey = key, ConnectTimeout = cs_connectTimeout cs,
      FwdReqTimeout = 2 * 1000000000, KeepAliveInterval = cs_keepAliveInterval cs,
      AddressVerificationTimeout = 0, ConfigSessionFlags = noFlags, SessionLabel = []\<rparr>"

definition createSSHSessionPool ::
  "ssh_env \<Rightarrow> (string \<Rightarrow> go_error option) \<Rightarrow> startup_env \<Rightarrow> ctl_settings \<Rightarrow> trace \<Rightarrow>
     go_error + (SSHTunnelManager, trace) SSHSessionPool" where
  "createSSHSessionPool env ParsePrivateKey se cs tr =
     (case se_ReadFile se (cs_keyPath cs) of
        Inl err \<Rightarrow> Inl (Wrapf ''could not load private key'' err)
      | Inr key \<Rightarrow> NewSSHSessionPool env ParsePrivateKey (sshConfig cs key) tr)"

section \<open>Registration of the controllers\<close>

definition RegisterGatewayClassController :: "startup_env \<Rightarrow> go_error option" where
  "RegisterGatewayClassController se = se_Complete se ''GatewayClass''"

definition SetupWithManager ::
  "ssh_env \<Rightarrow> (string \<Rightarrow> go_error option) \<Rightarrow> startup_env \<Rightarrow> ctl_settings \<Rightarrow> trace \<Rightarrow>
     go_error option \<times> (SSHTunnelManager, trace) SSHSessionPool option GatewayReconciler" where
  "SetupWithManager env ParsePrivateKey se cs tr =
     (let r = \<lparr>gr_pool = None, gr_gateways = []\<rparr>
      in case createSSHSessionPool env ParsePrivateKey se cs tr of
           Inl err \<Rightarrow> (Some (Wrapf ''failed to create SSH session pool'' err), r)
         | Inr pool \<Rightarrow>
             (let r = r\<lparr>gr_pool := Some pool\<rparr>
              in case RegisterGatewayClassController se of
                   Some err \<Rightarrow> (Some (Wrapf ''failed to register GatewayClass controller'' err), r)
                 | None \<Rightarrow> (se_Complete se ''Gateway'', r)))"

definition route_SetupWithManager :: "startup_env \<Rightarrow> string \<Rightarrow> go_error option" where
  "route_SetupWithManager se kind = se_Complete se kind"

text \<open>
  The outcome of \<open>main\<close>: exit status 1 with the message that is logged and its error, or the
  manager runs (until \<open>Start\<close> returns) on the Gateway reconciler that is given.
\<close>

datatype main_outcome =
    ExitOne string go_error
  | Served "(SSHTunnelManager, trace) SSHSessionPool option GatewayReconciler" "(string \<times> go_error) option"

definition main ::
  "ssh_env \<Rightarrow> (string \<Rightarrow> go_error option) \<Rightarrow> startup_env \<Rightarrow> ctl_settings \<Rightarrow> trace \<Rightarrow> main_outcome" where
  "main env ParsePrivateKey se cs tr =
     (case se_NewManager se of
        Some err \<Rightarrow> ExitOne ''unable to start manager'' err
      | None \<Rightarrow>
     (case SetupWithManager env ParsePrivateKey se cs tr of
        (Some err, gwRecon) \<Rightarrow> ExitOne ''unable to create Gateway controller'' err
      | (None, gwRecon) \<Rightarrow>
     (case route_SetupWithManager se ''HTTPRoute'' of
        Some err \<Rightarrow> ExitOne ''unable to create HTTPRoute controller'' err
      | None \<Rightarrow>
     (case route_SetupWithManager se ''TCPRoute'' of
        Some err \<Rightarrow> ExitOne ''unable to create TCPRoute controller'' err
      | None \<Rightarrow>
     (case route_SetupWithManager se ''TLSRoute'' of
        Some err \<Rightarrow> ExitOne ''unable to create TLSRoute controller'' err
      | None \<Rightarrow> Served gwRecon (map_option (Pair ''problem running manager'') (se_Start se)))))))"

section \<open>Properties\<close>

lemma Connect_forwardings:
  "Connect env m tr = (e, m', tr') \<Longrightarrow> m_forwardings m' = m_forwardings m"
  by (auto simp: Connect_def connectClient_def Let_def split: if_splits option.splits prod.splits)

lemma NewSSHSessionPool_ok: "(\<exists>p. NewSSHSessionPool env pk c tr = Inr p) \<longleftrightarrow> pk (PrivateKey c) = None"
  by (auto simp: NewSSHSessionPool_def newSessionPoolWithFactory_def tunnel_factory_def NewSSHTunnelManager_def
      Let_def split: sum.splits option.splits prod.splits)

lemma NewSSHSessionPool_fresh:
  assumes "NewSSHSessionPool env pk c tr = Inr p"
  shows "p_flags p = [(SessionPlain, noFlags)] \<and> map fst (p_managers p) = [SessionPlain] \<and>
    tunnel_pool_active p kind key = None"
proof -
  obtain m e m' w' where m: "tunnel_factory pk c noFlags ''plain'' = Inr m"
    and c: "Connect env m tr = (e, m', w')"
    and p: "p = \<lparr>p_managers = [(SessionPlain, m')], p_flags = [(SessionPlain, noFlags)], p_world = w'\<rparr>"
    using assms by (auto simp: NewSSHSessionPool_def newSessionPoolWithFactory_def split: sum.splits prod.splits)
  have "m_forwardings m = []"
    using m by (auto simp: tunnel_factory_def NewSSHTunnelManager_def Let_def split: option.splits)
  with Connect_forwardings [OF c] p show ?thesis
    by (simp add: pool_active_def tm_active_def split: option.splits)
qed

lemma createSSHSessionPool_ok:
  "createSSHSessionPool env pk se cs tr = Inr p \<longleftrightarrow>
     (\<exists>key. se_ReadFile se (cs_keyPath cs) = Inr key \<and> NewSSHSessionPool env pk (sshConfig cs key) tr = Inr p)"
  by (simp add: createSSHSessionPool_def split: sum.splits)

lemma SetupWithManager_ok:
  "SetupWithManager env pk se cs tr = (None, r) \<longleftrightarrow>
     (\<exists>p. createSSHSessionPool env pk se cs tr = Inr p \<and> r = \<lparr>gr_pool = Some p, gr_gateways = []\<rparr> \<and>
        se_Complete se ''GatewayClass'' = None \<and> se_Complete se ''Gateway'' = None)"
  by (auto simp: SetupWithManager_def RegisterGatewayClassController_def Let_def split: sum.splits option.splits)

lemma main_serves:
  "main env pk se cs tr = Served r e \<longleftrightarrow>
     se_NewManager se = None \<and> SetupWithManager env pk se cs tr = (None, r) \<and>
     se_Complete se ''HTTPRoute'' = None \<and> se_Complete se ''TCPRoute'' = None \<and> se_Complete se ''TLSRoute'' = None \<and>
     e = map_option (Pair ''problem running manager'') (se_Start se)"
  by (auto simp: main_def route_SetupWithManager_def split: option.splits prod.splits)

text \<open>What decides whether the program comes up: the SSH server is not part of it.\<close>

definition startup_ok :: "(string \<Rightarrow> go_error option) \<Rightarrow> startup_env \<Rightarrow> ctl_settings \<Rightarrow> bool" where
  "startup_ok pk se cs \<longleftrightarrow> se_NewManager se = None \<and>
     (\<forall>kind \<in> {''GatewayClass'', ''Gateway'', ''HTTPRoute'', ''TCPRoute'', ''TLSRoute''}. se_Complete se kind = None) \<and>
     (\<exists>key. se_ReadFile se (cs_keyPath cs) = Inr key \<and> pk key = None)"

lemma startup_ok_iff: "(\<exists>r e. main env pk se cs tr = Served r e) \<longleftrightarrow> startup_ok pk se cs"
proof -
  have "(\<exists>p. createSSHSessionPool env pk se cs tr = Inr p) \<longleftrightarrow>
      (\<exists>key. se_ReadFile se (cs_keyPath cs) = Inr key \<and> pk key = None)"
    using NewSSHSessionPool_ok [of env pk "sshConfig cs _" tr]
    by (auto simp: createSSHSessionPool_ok sshConfig_def)
  then show ?thesis by (auto simp: main_serves SetupWithManager_ok startup_ok_def)
qed

text \<open>
  C17. Startup. The program comes up exactly when the key file is readable, its key parses and the
  five controllers register: a server that is down does not stop it. It then serves on an empty
  registry from which every later state is reachable, so that all invariants of the registry
  and of the tunnels hold; only the plain session is open, without flags, connected with the
  settings read from the environment, and nothing is forwarded yet. Otherwise it exits.
\<close>

theorem startup_exact:
  "((\<exists>r e. main env pk se cs tr = Served r e) \<longleftrightarrow> startup_ok pk se cs) \<and>
   (\<forall>r e. main env pk se cs tr = Served r e \<longrightarrow>
      (\<exists>key p. se_ReadFile se (cs_keyPath cs) = Inr key \<and> gr_pool r = Some p \<and> gr_gateways r = [] \<and>
        reg_reachable (tunnel_pool_ops env pk (sshConfig cs key)) tunnel_pool_inv uo client
          (\<lparr>gr_pool = p, gr_gateways = gr_gateways r\<rparr>, w) \<and>
        p_flags p = [(SessionPlain, noFlags)] \<and> map fst (p_managers p) = [SessionPlain] \<and>
        (\<forall>kind k. tunnel_pool_active p kind k = None)))"
  (is "_ \<and> (\<forall>r e. _ \<longrightarrow> ?served r)")
proof (intro conjI allI impI)
  show "(\<exists>r e. main env pk se cs tr = Served r e) \<longleftrightarrow> startup_ok pk se cs" by (rule startup_ok_iff)
  fix r e
  assume "main env pk se cs tr = Served r e"
  then obtain key p where key: "se_ReadFile se (cs_keyPath cs) = Inr key"
    and p: "NewSSHSessionPool env pk (sshConfig cs key) tr = Inr p"
    and r: "gr_pool r = Some p" "gr_gateways r = []"
    by (auto simp: main_serves SetupWithManager_ok createSSHSessionPool_ok)
  have "tunnel_pool_inv p" by (rule NewSSHSessionPool_inv [OF p])
  then have "reg_reachable (tunnel_pool_ops env pk (sshConfig cs key)) tunnel_pool_inv uo client
      (\<lparr>gr_pool = p, gr_gateways = gr_gateways r\<rparr>, w)"
    unfolding r(2) by (rule reg_reachable.start)
  with key r show "?served r" using NewSSHSessionPool_fresh [OF p] by blast
qed

definition demo_startup :: startup_env where
  "demo_startup = \<lparr>se_ReadFile = (\<lambda>path. if path = ''/ssh/id'' then Inr ''key'' else Inl (Errorf ''no such file'')),
     se_NewManager = None, se_Complete = (\<lambda>kind. None), se_Start = None\<rparr>"

text \<open>A server that refuses every connection.\<close>

abbreviation down_env :: ssh_env where
  "down_env \<equiv> demo_pool_env\<lparr>e_dial := (\<lambda>fl tr cb. Some (Errorf ''connection refused''))\<rparr>"

abbreviation demo_start_settings :: ctl_settings where
  "demo_start_settings \<equiv> load_settings (\<lambda>_. None) (\<lambda>_. None)"

theorem startup_exact_witness:
  "\<exists>r e p. main down_env (\<lambda>k. None) demo_startup demo_start_settings [] = Served r e \<and>
     gr_pool r = Some p \<and> p_flags p = [(SessionPlain, noFlags)] \<and> \<not> pool_IsConnected (tunnel_manager down_env) SessionPlain p"
proof -
  have ok: "startup_ok (\<lambda>k. None) demo_startup demo_start_settings"
    by (simp add: startup_ok_def demo_startup_def load_settings_def getEnvOrDefault_def)
  note starts = startup_exact [of down_env "\<lambda>k. None" demo_startup demo_start_settings "[]" "\<lambda>_. None"
      "None :: unit api_client option" "()"]
  obtain r e where m: "main down_env (\<lambda>k. None) demo_startup demo_start_settings [] = Served r e"
    using starts ok by blast
  obtain p where p: "gr_pool r = Some p" "p_flags p = [(SessionPlain, noFlags)]"
    using starts m by blast
  have "\<not> (case main down_env (\<lambda>k. None) demo_startup demo_start_settings [] of
      Served r e \<Rightarrow> pool_IsConnected (tunnel_manager down_env) SessionPlain (the (gr_pool r)) | _ \<Rightarrow> True)"
    by code_simp
  with m p show ?thesis by auto
qed

end
