(* ===== verification/Program_Runs.thy ===== *)
theory Program_Runs
  imports Route_Controller Startup Channel_Handling
begin

text \<open>
  The whole program as a state machine: from \<open>main\<close> through any sequence of calls of the five
  reconcilers, of background events in the tunnels and of changes in the API. Every reconciler
  is a run of the registry's operations, so the invariants of the registry and of the tunnels
  hold in the program.
\<close>

section \<open>Reconcilers as runs of the registry\<close>

abbreviation reg_run ::
  "'p sessionPool \<Rightarrow> ('p \<Rightarrow> bool) \<Rightarrow> (string \<Rightarrow> (string \<times> string) option) \<Rightarrow> 'w api_client option \<Rightarrow>
     ('p, 'w) reg_state \<Rightarrow> ('p, 'w) reg_state \<Rightarrow> bool" where
  "reg_run P pinv uo client \<equiv> (reg_step P pinv uo client)\<^sup>*\<^sup>*"

lemma reg_reachable_run:
  "reg_run P pinv uo client s s' \<Longrightarrow> reg_reachable P pinv uo client s \<Longrightarrow> reg_reachable P pinv uo client s'"
  by (induction rule: rtranclp_induct) (auto intro: reg_reachable.step)

lemma pool_same [simp]: "gr\<lparr>gr_pool := gr_pool gr\<rparr> = gr"
  by simp

lemma run_world: "pinv (gr_pool gr) \<Longrightarrow> reg_run P pinv uo client (gr, w) (gr, w')"
  using reg_step.outside [of pinv "gr_pool gr" P uo client gr w w'] by auto

lemma run_pool: "pinv p \<Longrightarrow> reg_run P pinv uo client (gr, w) (gr\<lparr>gr_pool := p\<rparr>, w')"
  by (blast intro: reg_step.outside)

text \<open>What the Gateway reconciler does to pool and registry: sessions, then at most one handler.\<close>

definition gateway_effect :: "'p sessionPool \<Rightarrow> ('p \<Rightarrow> bool) \<Rightarrow> 'p GatewayReconciler \<Rightarrow> 'p GatewayReconciler \<Rightarrow> bool" where
  "gateway_effect P pinv gr gr' \<longleftrightarrow> (\<exists>p. pinv p \<and> (gr' = gr\<lparr>gr_pool := p\<rparr> \<or>
     (\<exists>g. gr' = handleAddOrUpdateGateway P g (gr\<lparr>gr_pool := p\<rparr>) \<or> gr' = handleDeleteGateway P g (gr\<lparr>gr_pool := p\<rparr>))))"

context session_pool
begin

lemma handler_inv:
  assumes "inv (gr_pool gr)"
  shows "inv (gr_pool (handleAddOrUpdateGateway P g gr))" "inv (gr_pool (handleDeleteGateway P g gr))"
proof -
  show "inv (gr_pool (handleAddOrUpdateGateway P g gr))"
    using handleAddOrUpdateGateway_pool [OF assms] by blast
  show "inv (gr_pool (handleDeleteGateway P g gr))"
    using stop_listeners_state [OF assms] assms by (auto simp: handleDeleteGateway_def Let_def split: option.splits)
qed

lemma gateway_effect_run:
  assumes "gateway_effect P inv gr gr'"
  shows "reg_run P inv uo client (gr, w) (gr', w')"
proof -
  obtain p where p: "inv p" and cases: "gr' = gr\<lparr>gr_pool := p\<rparr> \<or>
     (\<exists>g. gr' = handleAddOrUpdateGateway P g (gr\<lparr>gr_pool := p\<rparr>) \<or> gr' = handleDeleteGateway P g (gr\<lparr>gr_pool := p\<rparr>))"
    using assms by (auto simp: gateway_effect_def)
  have start: "reg_run P inv uo client (gr, w) (gr\<lparr>gr_pool := p\<rparr>, w')" using p by (rule run_pool)
  from cases show ?thesis
    using start reg_step.update_gateway reg_step.delete_gateway by (metis rtranclp.rtrancl_into_rtrancl)
qed

lemma reconcile_owned_effect:
  assumes i: "inv (gr_pool gr)" and r: "reconcile_owned P uo ssc settings C now g gc gr w = (res, gr', w')"
  shows "gateway_effect P inv gr gr'"
proof -
  let ?ses = "parseClassSessionConfig (Annotations (gc_Meta gc))"
  obtain ce p2 where c: "sp_ConfigureSessions P (ClassPPVersion ?ses) (SNIProxyEnabled ?ses) (gr_pool gr) = (ce, p2)"
    by (metis prod.collapse)
  obtain up p3 where u: "reconnectRequiredSessions P ?ses p2 = (up, p3)" by (metis prod.collapse)
  obtain fe g3 w3 where f: "ensureGatewayFinalizer (cs_env settings) C g w = (fe, g3, w3)" by (metis prod_cases3)
  obtain se g4 w4 where st: "updateGatewayStatusIfChanged P uo ssc C now
      (handleAddOrUpdateGateway P g3 (gr\<lparr>gr_pool := p3\<rparr>)) g3 gc w3 = (se, g4, w4)" by (metis prod_cases3)
  have "gr' = gr\<lparr>gr_pool := p2\<rparr> \<or> gr' = gr\<lparr>gr_pool := p3\<rparr> \<or> gr' = handleAddOrUpdateGateway P g3 (gr\<lparr>gr_pool := p3\<rparr>)"
    using r by (auto simp: reconcile_owned_def Let_def c u f st split: option.splits if_splits)
  moreover have i2: "inv p2" using configure_inv [OF i c] .
  moreover have "inv p3" using reconnectRequiredSessions_state [OF i2 u] by blast
  ultimately show ?thesis unfolding gateway_effect_def by blast
qed

lemma Reconcile_effect:
  assumes i: "inv (gr_pool gr)" and r: "Reconcile P uo ssc settings C now ns n gr w = (res, gr', w')"
  shows "gateway_effect P inv gr gr'"
proof -
  obtain ok p1 where e: "ensurePlainSSHSessionConnected P (gr_pool gr) = (ok, p1)" by (metis prod.collapse)
  have i1: "inv p1" using ensurePlain_state [OF i e] by blast
  have same: "gateway_effect P inv gr (gr\<lparr>gr_pool := p1\<rparr>)" using i1 by (auto simp: gateway_effect_def)
  have del: "gateway_effect P inv gr gr2"
    if "reconcileGatewayDelete P os C g b (gr\<lparr>gr_pool := p1\<rparr>) w1 = (res2, gr2, w2)" for os g b w1 res2 gr2 w2
    using that i1 by (auto simp: reconcileGatewayDelete_def gateway_effect_def split: if_splits prod.splits)
  have own: "gateway_effect P inv gr gr2"
    if "reconcile_owned P uo ssc settings C now g gc (gr\<lparr>gr_pool := p1\<rparr>) w1 = (res2, gr2, w2)" for g gc w1 res2 gr2 w2
    using reconcile_owned_effect [OF _ that] i1 by (simp add: gateway_effect_def)
  from r same show ?thesis
    by (auto simp: Reconcile_def e Let_def split: if_splits sum.splits option.splits prod.splits dest: del own)
qed

text \<open>What a route reconciler does: at most one \<open>SetRoute\<close> or \<open>RemoveRoute\<close>.\<close>

lemma set_route_run:
  assumes "inv (gr_pool gr)" "SetRoute P uo client now gns gn lis n ns h port gr w1 = (e, gr', w2)" "inv (gr_pool gr')"
  shows "reg_run P inv uo client (gr, w) (gr', w')"
  using run_world [where pinv = inv, OF assms(1)] reg_step.set_route [OF assms(2)] run_world [where pinv = inv, OF assms(3)]
  by (metis (no_types, lifting) rtranclp.rtrancl_into_rtrancl rtranclp_trans)

lemma remove_route_run:
  assumes "inv (gr_pool gr)" "RemoveRoute P uo client now gns gn lis n ns gr w1 = (e, gr', w2)" "inv (gr_pool gr')"
  shows "reg_run P inv uo client (gr, w) (gr', w')"
  using run_world [where pinv = inv, OF assms(1)] reg_step.remove_route [OF assms(2)] run_world [where pinv = inv, OF assms(3)]
  by (metis (no_types, lifting) rtranclp.rtrancl_into_rtrancl rtranclp_trans)

lemma RemoveRoute_inv:
  assumes "inv (gr_pool gr)" "RemoveRoute P uo client now gns gn lis n ns gr w = (e, gr', w')"
  shows "inv (gr_pool gr')"
  using assms(1,2) by (cases rule: RemoveRoute_cases) (use assms(1) in auto)

lemma route_handleAddOrUpdate_run:
  assumes i: "inv (gr_pool gr)" and L: "rl_pool L = P"
    and r: "route_handleAddOrUpdate rk L route rd gr w = (res, gr', w')"
  shows "reg_run P inv (rl_url L) (Some (rl_client L)) (gr, w) (gr', w')"
proof -
  let ?set = "\<lambda>w1. SetRoute P (rl_url L) (Some (rl_client L)) (rl_now L) (rd_gwNamespace rd) (rd_gwName rd)
    (rd_listenerName rd) (rd_routeName rd) (rd_routeNamespace rd) (rd_backendHost rd) (rd_backendPort rd) gr w1"
  have "gr' = gr \<or> (\<exists>w1. gr' = fst (snd (?set w1)))"
    using r L by (auto simp: route_handleAddOrUpdate_def Let_def split: if_splits option.splits prod.splits) (metis fst_conv snd_conv)+
  then show ?thesis
  proof
    assume "gr' = gr"
    then show ?thesis using run_world [where pinv = inv, OF i] by simp
  next
    assume "\<exists>w1. gr' = fst (snd (?set w1))"
    then obtain w1 where "gr' = fst (snd (?set w1))" by blast
    then have s: "?set w1 = (fst (?set w1), gr', snd (snd (?set w1)))" by simp
    from SetRoute_frame [OF i s] have "inv (gr_pool gr')" by blast
    then show ?thesis by (rule set_route_run [OF i s])
  qed
qed

lemma route_handleDeletion_run:
  assumes i: "inv (gr_pool gr)" and L: "rl_pool L = P"
    and r: "route_handleDeletion rk L route rd gr w = (res, gr', w')"
  shows "reg_run P inv (rl_url L) (Some (rl_client L)) (gr, w) (gr', w')"
proof -
  let ?rem = "RemoveRoute P (rl_url L) (Some (rl_client L)) (rl_now L) (rd_gwNamespace rd) (rd_gwName rd)
    (rd_listenerName rd) (rd_routeName rd) (rd_routeNamespace rd) gr w"
  have "gr' = gr \<or> gr' = fst (snd ?rem)"
    using r L by (auto simp: route_handleDeletion_def Let_def split: if_splits option.splits prod.splits)
  then show ?thesis
  proof
    assume "gr' = gr"
    then show ?thesis using run_world [where pinv = inv, OF i] by simp
  next
    assume "gr' = fst (snd ?rem)"
    then have s: "?rem = (fst ?rem, gr', snd (snd ?rem))" by simp
    from RemoveRoute_inv [OF i s] show ?thesis by (rule remove_route_run [OF i s])
  qed
qed

lemma route_reconcile_owned_run:
  assumes i: "inv (gr_pool gr)" and L: "rl_pool L = P"
    and r: "route_reconcile_owned rk L route b gr w = (res, gr', w')"
  shows "reg_run P inv (rl_url L) (Some (rl_client L)) (gr, w) (gr', w')"
  using r route_handleDeletion_run [OF i L] route_handleAddOrUpdate_run [OF i L] run_world [where pinv = inv, OF i]
  by (auto simp: route_reconcile_owned_def split: if_splits sum.splits)

lemma route_Reconcile_run:
  assumes i: "inv (gr_pool gr)" and L: "rl_pool L = P"
    and r: "route_Reconcile rk L ns n gr w = (res, gr', w')"
  shows "reg_run P inv (rl_url L) (Some (rl_client L)) (gr, w) (gr', w')"
proof -
  have "gr' = gr \<or> (\<exists>route b w1. route_reconcile_owned rk L route b gr w1 = (res, gr', w'))"
    using r by (auto simp: route_Reconcile_def Let_def split: if_splits sum.splits prod.splits)
  then show ?thesis
  proof
    assume "gr' = gr"
    then show ?thesis using run_world [where pinv = inv, OF i] by simp
  next
    assume "\<exists>route b w1. route_reconcile_owned rk L route b gr w1 = (res, gr', w')"
    then obtain route b w1 where "route_reconcile_owned rk L route b gr w1 = (res, gr', w')" by blast
    from route_reconcile_owned_run [OF i L this] show ?thesis
      using run_world [where pinv = inv, OF i, of P "rl_url L" "Some (rl_client L)" w w1] by (rule rtranclp_trans [rotated])
  qed
qed

end

section \<open>Managers of one configuration\<close>

text \<open>
  All managers are made from one base configuration and keep it. Where the dial function
  consults the host key callback, a connected manager talks to a server that the callback accepts.
\<close>

definition consults_callback :: "ssh_env \<Rightarrow> string \<Rightarrow> bool" where
  "consults_callback env fingerprint \<longleftrightarrow>
     (\<forall>fl tr cb. e_dial env fl tr cb = None \<longrightarrow> cb fingerprint = None)"

definition TM_configured :: "ssh_env \<Rightarrow> SSHConnectionConfig \<Rightarrow> SSHTunnelManager \<Rightarrow> bool" where
  "TM_configured env base m \<longleftrightarrow> TM_inv m \<and> m_hostKey m = HostKey base \<and>
     m_sshServerAddress m = ServerAddress base \<and> m_sshUser m = Username base \<and>
     m_remoteAddrFunc m = RemoteAddrFunc base \<and>
     (\<forall>fingerprint. consults_callback env fingerprint \<and> m_connected m \<longrightarrow> HostKeyCallback m fingerprint = None)"

lemma TM_configured_inv: "TM_configured env base m \<Longrightarrow> TM_inv m"
  by (simp add: TM_configured_def)

text \<open>What a configured manager promises.\<close>

lemma configured_manager:
  assumes "TM_configured env (sshConfig cs key) m"
  shows "m_sshServerAddress m = cs_sshServer cs \<and> m_sshUser m = cs_sshUsername cs \<and> m_hostKey m = cs_sshHostKey cs \<and>
    (\<forall>fingerprint. consults_callback env fingerprint \<and> m_connected m \<and> cs_sshHostKey cs \<noteq> [] \<longrightarrow>
       fingerprint = cs_sshHostKey cs) \<and>
    (\<forall>k f. mget (m_forwardings m) k = Some f \<longrightarrow>
       k = forwardingKey (RemoteHost f) (RemotePort f) \<and> 0 \<le> RemotePort f \<and> RemotePort f \<le> 65535 \<and>
       (needs_verification f \<longrightarrow>
          MatchesRequestedHost (GetAssignedAddresses (RemoteHost f) (RemotePort f) m)
            (RemoteHost f) (RemotePort f) (EnforcePort f)))"
proof -
  have inv: "TM_inv m" and ra: "m_remoteAddrFunc m" and hk: "m_hostKey m = cs_sshHostKey cs"
    and conf: "m_sshServerAddress m = cs_sshServer cs" "m_sshUser m = cs_sshUsername cs"
    and cb: "\<And>fp. consults_callback env fp \<Longrightarrow> m_connected m \<Longrightarrow> HostKeyCallback m fp = None"
    using assms by (auto simp: TM_configured_def sshConfig_def)
  have "fp = cs_sshHostKey cs" if "consults_callback env fp" "m_connected m" "cs_sshHostKey cs \<noteq> []" for fp
    using cb [OF that(1,2)] that(3) hk by (simp add: HostKeyCallback_def split: if_splits)
  moreover have "k = cfgKey f \<and> 0 \<le> RemotePort f \<and> RemotePort f \<le> 65535"
    if "mget (m_forwardings m) k = Some f" for k f
    using TM_inv_parts(3) [OF inv] that by (simp add: forwardings_filed_def)
  moreover have "MatchesRequestedHost (GetAssignedAddresses (RemoteHost f) (RemotePort f) m)
      (RemoteHost f) (RemotePort f) (EnforcePort f)"
    if "mget (m_forwardings m) k = Some f" "needs_verification f" for k f
  proof -
    have "k = cfgKey f" using TM_inv_parts(3) [OF inv] that(1) by (simp add: forwardings_filed_def)
    then show ?thesis using TM_inv_parts(4) [OF inv] that ra by (fastforce simp: addrs_verified_def GetAssignedAddresses_def)
  qed
  ultimately show ?thesis using hk conf by blast
qed

text \<open>A change that keeps the invariant and the configuration, and does not go online.\<close>

lemma TM_configured_same:
  assumes "TM_configured env base m" "TM_inv m'" "m_hostKey m' = m_hostKey m"
    "m_sshServerAddress m' = m_sshServerAddress m" "m_sshUser m' = m_sshUser m"
    "m_remoteAddrFunc m' = m_remoteAddrFunc m" "m_connected m' \<Longrightarrow> m_connected m"
  shows "TM_configured env base m'"
proof -
  have "HostKeyCallback m' = HostKeyCallback m" using assms(3) by (simp add: HostKeyCallback_def fun_eq_iff)
  with assms show ?thesis unfolding TM_configured_def by auto
qed

lemma TM_configured_New:
  "tunnel_factory pk base flags label = Inr m \<Longrightarrow> TM_configured env base m"
  using TM_inv_New [of pk "base\<lparr>ConfigSessionFlags := flags, SessionLabel := label\<rparr>" m]
  by (auto simp: tunnel_factory_def TM_configured_def NewSSHTunnelManager_def Let_def split: option.splits)

lemma TM_configured_Connect:
  assumes "TM_configured env base m" "Connect env m tr = (e, m', tr')"
  shows "TM_configured env base m'"
proof (cases "m_connected m \<or> e_dial env (m_flags m) tr (HostKeyCallback m) \<noteq> None")
  case True
  then have "m' = m" using assms(2) by (auto simp: Connect_def connectClient_def split: if_splits)
  with assms(1) show ?thesis by simp
next
  case False
  then have m': "m' = m\<lparr>m_client := True, m_connected := True, m_connectionCtx := Some False,
      m_connectionCancel := True, m_captureReady := True\<rparr>"
    using assms(2) by (simp add: Connect_def connectClient_def)
  have "HostKeyCallback m fingerprint = None" if "consults_callback env fingerprint" for fingerprint
    using that False by (auto simp: consults_callback_def)
  moreover have "TM_inv m'" using TM_inv_Connect [OF TM_configured_inv [OF assms(1)] assms(2)] .
  moreover have "HostKeyCallback m' = HostKeyCallback m" using m' by (simp add: HostKeyCallback_def fun_eq_iff)
  ultimately show ?thesis using assms(1) m' by (simp add: TM_configured_def)
qed

lemma TM_configured_StartForwarding:
  assumes c: "TM_configured env base m" and s: "StartForwarding env fwd m tr = (e, m', tr')"
  shows "TM_configured env base m'"
proof -
  note i = TM_configured_inv [OF c]
  have "TM_inv m'" using TM_inv_StartForwarding [OF i s] .
  from s TM_inv_parts(2) [OF i] show ?thesis
    by (cases rule: StartForwarding_cases) (use c \<open>TM_inv m'\<close> in \<open>auto intro: TM_configured_same\<close>)
qed

lemma TM_configured_StopForwarding:
  assumes c: "TM_configured env base m" and s: "StopForwarding env fwd m tr = (e, m', tr')"
  shows "TM_configured env base m'"
proof -
  have "TM_inv m'" using TM_inv_StopForwarding [OF TM_configured_inv [OF c] s] .
  from s show ?thesis
    by (cases rule: StopForwarding_cases) (use c \<open>TM_inv m'\<close> in \<open>auto intro: TM_configured_same\<close>)
qed

lemma TM_configured_Stop:
  assumes c: "TM_configured env base m" and s: "Stop env m tr = (m', tr')"
  shows "TM_configured env base m'"
proof -
  have "TM_inv m'" using TM_inv_Stop [OF TM_configured_inv [OF c], of env tr] s by simp
  with c Stop_state [of env m tr] s show ?thesis
    by (intro TM_configured_same [OF c]) (auto split: if_splits)
qed

interpretation configured: session_pool_provider "tunnel_manager env" "TM_configured env base" tm_active "tunnel_factory pk base"
  for env base pk
proof (unfold_locales, goal_cases)
  case (1 m fwd w e m' w') then show ?case by (auto intro: TM_configured_StartForwarding)
next
  case (2 m fwd w e m' w') then show ?case by (auto intro: TM_configured_StopForwarding)
next
  case (3 m w m' w') then show ?case by (auto intro: TM_configured_Stop)
next
  case (4 m w e m' w') then show ?case by (auto intro: TM_configured_Connect)
next
  case (25 flags label m)
  then show ?case using tunnels.factory_new [of pk base flags label m] TM_configured_New by blast
qed (((drule TM_configured_inv)?, ((rule tm.offline_empty; assumption)
   | (rule tm.addrs_active; assumption)
   | (rule tm.start_offline; assumption)
   | (rule tm.start_exists; assumption)
   | (rule tm.start_ok; assumption)
   | (rule tm.start_fail; assumption)
   | (rule tm.start_connected; assumption)
   | (rule tm.start_addrs_other; assumption)
   | (rule tm.stop_offline; assumption)
   | (rule tm.stop_missing; assumption)
   | (rule tm.stop_active; assumption)
   | (rule tm.stop_connected; assumption)
   | (rule tm.stop_addrs_other; assumption)
   | (rule tm.connect_online; assumption)
   | (rule tm.connect_ok; assumption)
   | (rule tm.connect_fail; assumption)
   | (rule tm.connect_active; assumption)
   | (rule tm.shutdown_offline; assumption)
   | (rule tm.start_exists_only; assumption)
   | (rule tm.stop_error; assumption)))+)

text \<open>The pool of the program: its managers are configured, and the plain session is always there.\<close>

definition program_inv :: "ssh_env \<Rightarrow> SSHConnectionConfig \<Rightarrow> (SSHTunnelManager, trace) SSHSessionPool \<Rightarrow> bool" where
  "program_inv env base p \<longleftrightarrow> pool_inv (TM_configured env base) p \<and> mget (p_managers p) SessionPlain \<noteq> None"

lemma program_inv_pool: "program_inv env base p \<Longrightarrow> pool_inv (TM_configured env base) p"
  by (simp add: program_inv_def)

lemma program_inv_tunnel: "program_inv env base p \<Longrightarrow> tunnel_pool_inv p"
  using TM_configured_inv by (fastforce simp: program_inv_def pool_inv_def)

lemma pool_keys:
  "mget (p_managers (snd (pool_StartForwarding M kind cfg p))) k = None \<longleftrightarrow> mget (p_managers p) k = None"
  "mget (p_managers (snd (pool_StopForwarding M kind cfg p))) k = None \<longleftrightarrow> mget (p_managers p) k = None"
  "mget (p_managers (pool_Connect M p)) k = None \<longleftrightarrow> mget (p_managers p) k = None"
  by (auto simp: pool_StartForwarding_def pool_StopForwarding_def connect_all_None split: option.splits prod.splits)

interpretation program: session_pool "tunnel_pool_ops env pk base" "program_inv env base" tunnel_pool_active
  for env pk base
proof (unfold_locales, goal_cases)
  case (1 p kind cfg e p')
  then show ?case
    using configured.spp.start_inv [of env base p pk kind cfg e p'] pool_keys(1) [of "tunnel_manager env" kind cfg p SessionPlain]
    by (simp add: program_inv_def)
next
  case (2 p kind cfg e p')
  then show ?case
    using configured.spp.stop_inv [of env base p pk kind cfg e p'] pool_keys(2) [of "tunnel_manager env" kind cfg p SessionPlain]
    by (simp add: program_inv_def)
next
  case (3 p)
  then show ?case
    using configured.spp.connect_inv [of env base p pk] by (simp add: program_inv_def connect_all_None del: not_None_eq)
next
  case (4 p v sni e p')
  then show ?case
    using configured.spp.configure_inv [of env base p pk v sni e p'] configured.configure_plain(1) [of env base p pk v sni e p']
    by (simp add: program_inv_def)
qed (((drule program_inv_pool)?, ((rule configured.spp.offline_empty; assumption)
   | (rule configured.spp.addrs_active; assumption)
   | (rule configured.spp.start_offline; assumption)
   | (rule configured.spp.start_exists; assumption)
   | (rule configured.spp.start_active; assumption)
   | (rule configured.spp.start_connected; assumption)
   | (rule configured.spp.start_addrs_other; assumption)
   | (rule configured.spp.stop_offline; assumption)
   | (rule configured.spp.stop_missing; assumption)
   | (rule configured.spp.stop_active; assumption)
   | (rule configured.spp.stop_connected; assumption)
   | (rule configured.spp.connect_connected; assumption)
   | (rule configured.spp.connect_active; assumption)
   | (rule configured.spp.start_exists_only; assumption)
   | (rule configured.spp.stop_error; assumption)))+)

section \<open>The program\<close>

text \<open>
  What happens in the tunnels without a reconciler: keepalives, their late answers, dials to
  backends, and the cancellation of orphan forwardings.
\<close>

inductive tunnel_event ::
  "ssh_env \<Rightarrow> (SSHTunnelManager, trace) SSHSessionPool \<Rightarrow> (SSHTunnelManager, trace) SSHSessionPool \<Rightarrow> bool" for env where
  background: "mget (p_managers p) kind = Some m \<Longrightarrow> mgr_step env (m, p_world p) op (m', tr') \<Longrightarrow>
     op = OpTick \<or> (\<exists>answer. op = OpKeepaliveAnswer answer) \<or> (\<exists>t a. op = OpDialFailed t a) \<or> (\<exists>a. op = OpDialOk a) \<Longrightarrow>
     tunnel_event env p (p\<lparr>p_managers := mput kind m' (p_managers p), p_world := tr'\<rparr>)"
| orphan: "mget (p_managers p) kind = Some m \<Longrightarrow>
     tunnel_event env p (p\<lparr>p_world := cancelOrphan env m addr port (p_world p)\<rparr>)"

text \<open>
  The libraries and the API that the program runs with; the pool and the settings are its own.
  A step is a call of a reconciler, at any time, an event in the tunnels, or a change of the API
  by others.
\<close>

definition program_libs ::
  "ssh_env \<Rightarrow> (string \<Rightarrow> go_error option) \<Rightarrow> ctl_settings \<Rightarrow> string \<Rightarrow>
     ((SSHTunnelManager, trace) SSHSessionPool, 'w) route_libs \<Rightarrow> int option \<Rightarrow>
     ((SSHTunnelManager, trace) SSHSessionPool, 'w) route_libs" where
  "program_libs env pk cs key L now =
     L\<lparr>rl_pool := tunnel_pool_ops env pk (sshConfig cs key), rl_settings := cs, rl_now := now\<rparr>"

inductive program_step ::
  "ssh_env \<Rightarrow> bool \<Rightarrow> (int option \<Rightarrow> ((SSHTunnelManager, trace) SSHSessionPool, 'w) route_libs) \<Rightarrow>
     ((SSHTunnelManager, trace) SSHSessionPool, 'w) reg_state \<Rightarrow>
     ((SSHTunnelManager, trace) SSHSessionPool, 'w) reg_state \<Rightarrow> bool" for env same_type libs where
  gateway: "L = libs now \<Longrightarrow>
     Reconcile (rl_pool L) (rl_url L) (rl_ssc L) (rl_settings L) (rl_client L) now ns n gr w = (res, gr', w') \<Longrightarrow>
     program_step env same_type libs (gr, w) (gr', w')"
| gateway_class: "L = libs now \<Longrightarrow>
     GatewayClass_Reconcile (cs_env (rl_settings L)) (rl_client L) now n w = (res, w') \<Longrightarrow>
     program_step env same_type libs (gr, w) (gr, w')"
| http_route: "HTTPRoute_Reconcile (libs now) ns n gr w = (res, gr', w') \<Longrightarrow> program_step env same_type libs (gr, w) (gr', w')"
| tcp_route: "TCPRoute_Reconcile (libs now) ns n gr w = (res, gr', w') \<Longrightarrow> program_step env same_type libs (gr, w) (gr', w')"
| tls_route: "TLSRoute_Reconcile same_type (libs now) ns n gr w = (res, gr', w') \<Longrightarrow>
     program_step env same_type libs (gr, w) (gr', w')"
| tunnel: "tunnel_event env (gr_pool gr) p \<Longrightarrow> program_step env same_type libs (gr, w) (gr\<lparr>gr_pool := p\<rparr>, w)"
| api: "program_step env same_type libs (gr, w) (gr, w')"

inductive program_reachable ::
  "ssh_env \<Rightarrow> (string \<Rightarrow> go_error option) \<Rightarrow> startup_env \<Rightarrow> ctl_settings \<Rightarrow> string \<Rightarrow> bool \<Rightarrow>
     ((SSHTunnelManager, trace) SSHSessionPool, 'w) route_libs \<Rightarrow>
     ((SSHTunnelManager, trace) SSHSessionPool, 'w) reg_state \<Rightarrow> bool" for env pk se cs key same_type L where
  start: "se_ReadFile se (cs_keyPath cs) = Inr key \<Longrightarrow> main env pk se cs tr = Served r e \<Longrightarrow> gr_pool r = Some p \<Longrightarrow>
     program_reachable env pk se cs key same_type L (\<lparr>gr_pool = p, gr_gateways = gr_gateways r\<rparr>, w)"
| step: "program_reachable env pk se cs key same_type L s \<Longrightarrow>
     program_step env same_type (program_libs env pk cs key L) s s' \<Longrightarrow>
     program_reachable env pk se cs key same_type L s'"

lemma TM_configured_background:
  assumes c: "TM_configured env base m" and s: "mgr_step env (m, tr) op (m', tr')"
    and op: "op = OpTick \<or> (\<exists>answer. op = OpKeepaliveAnswer answer) \<or> (\<exists>t a. op = OpDialFailed t a) \<or> (\<exists>a. op = OpDialOk a)"
  shows "TM_configured env base m'"
proof (rule TM_configured_same [OF c mgr_step_inv [OF s TM_configured_inv [OF c]]])
  have "m_hostKey m' = m_hostKey m \<and> m_sshServerAddress m' = m_sshServerAddress m \<and> m_sshUser m' = m_sshUser m \<and>
      m_remoteAddrFunc m' = m_remoteAddrFunc m \<and> (m_connected m' \<longrightarrow> m_connected m)"
    using s by (rule mgr_stepE)
      (use op in \<open>auto simp: monitor_defs closeClient_def split: if_splits send_outcome.splits\<close>)
  then show "m_hostKey m' = m_hostKey m" "m_sshServerAddress m' = m_sshServerAddress m" "m_sshUser m' = m_sshUser m"
    "m_remoteAddrFunc m' = m_remoteAddrFunc m" "m_connected m' \<Longrightarrow> m_connected m" by simp_all
qed

lemma tunnel_event_inv: "tunnel_event env p p' \<Longrightarrow> program_inv env base p \<Longrightarrow> program_inv env base p'"
proof (induction rule: tunnel_event.induct)
  case (background p kind m op m' tr')
  have "TM_configured env base m" using background(1,4) by (auto simp: program_inv_def pool_inv_def)
  then have "TM_configured env base m'" using background(2,3) by (rule TM_configured_background)
  with background(1,4) show ?case by (auto simp: program_inv_def pool_inv_def)
next
  case (orphan p kind m addr port)
  then show ?case by (simp add: program_inv_def pool_inv_def)
qed

lemma program_start_inv:
  assumes "se_ReadFile se (cs_keyPath cs) = Inr key" "main env pk se cs tr = Served r e" "gr_pool r = Some p"
  shows "program_inv env (sshConfig cs key) p \<and> gr_gateways r = []"
proof -
  have p: "NewSSHSessionPool env pk (sshConfig cs key) tr = Inr p" and r: "gr_gateways r = []"
    using assms by (auto simp: main_serves SetupWithManager_ok createSSHSessionPool_ok)
  obtain m e m' w' where m: "tunnel_factory pk (sshConfig cs key) noFlags ''plain'' = Inr m"
    and c: "Connect env m tr = (e, m', w')"
    and p': "p = \<lparr>p_managers = [(SessionPlain, m')], p_flags = [(SessionPlain, noFlags)], p_world = w'\<rparr>"
    using p by (auto simp: NewSSHSessionPool_def newSessionPoolWithFactory_def split: sum.splits prod.splits)
  have "TM_configured env (sshConfig cs key) m'"
    using TM_configured_Connect [OF TM_configured_New [OF m] c] .
  with p' r show ?thesis by (auto simp: program_inv_def pool_inv_def gomap_ok_def)
qed

lemma program_libs_simps [simp]:
  "rl_pool (program_libs env pk cs key L now) = tunnel_pool_ops env pk (sshConfig cs key)"
  "rl_url (program_libs env pk cs key L now) = rl_url L" "rl_client (program_libs env pk cs key L now) = rl_client L"
  "rl_settings (program_libs env pk cs key L now) = cs"
  by (simp_all add: program_libs_def)

text \<open>Each step of the program is a run of the registry.\<close>

lemma program_step_run:
  assumes "program_step env same_type (program_libs env pk cs key L) s s'"
    and i: "program_inv env (sshConfig cs key) (gr_pool (fst s))"
  shows "reg_run (tunnel_pool_ops env pk (sshConfig cs key)) (program_inv env (sshConfig cs key)) (rl_url L)
    (Some (rl_client L)) s s'"
  using assms(1)
proof (cases rule: program_step.cases)
  case (gateway L' now ns n gr w res gr' w')
  then have "gateway_effect (tunnel_pool_ops env pk (sshConfig cs key)) (program_inv env (sshConfig cs key)) gr gr'"
    using program.Reconcile_effect [of env "sshConfig cs key" gr] i by simp
  with gateway show ?thesis using program.gateway_effect_run by simp
next
  case (gateway_class L' now n w res w' gr)
  with i show ?thesis using run_world [of "program_inv env (sshConfig cs key)" gr] by simp
next
  case (http_route now ns n gr w res gr' w')
  with i show ?thesis using program.route_Reconcile_run [of env "sshConfig cs key" gr "program_libs env pk cs key L now" pk]
    by (simp add: HTTPRoute_Reconcile_def)
next
  case (tcp_route now ns n gr w res gr' w')
  with i show ?thesis using program.route_Reconcile_run [of env "sshConfig cs key" gr "program_libs env pk cs key L now" pk]
    by (simp add: TCPRoute_Reconcile_def)
next
  case (tls_route now ns n gr w res gr' w')
  with i show ?thesis using program.route_Reconcile_run [of env "sshConfig cs key" gr "program_libs env pk cs key L now" pk]
    by (simp add: TLSRoute_Reconcile_def)
next
  case (tunnel gr p w)
  with i have "program_inv env (sshConfig cs key) p" by (auto intro: tunnel_event_inv)
  then show ?thesis unfolding tunnel(1,2) by (rule run_pool)
next
  case (api gr w w')
  with i show ?thesis using run_world [of "program_inv env (sshConfig cs key)" gr] by simp
qed

lemma program_reachable_registry:
  "program_reachable env pk se cs key same_type L s \<Longrightarrow>
   reg_reachable (tunnel_pool_ops env pk (sshConfig cs key)) (program_inv env (sshConfig cs key)) (rl_url L)
     (Some (rl_client L)) s"
proof (induction rule: program_reachable.induct)
  case (start tr r e p w)
  from program_start_inv [OF this] show ?case by (auto intro: reg_reachable.start)
next
  case (step s s')
  have "registry_ok (program_inv env (sshConfig cs key)) (fst s)"
    using program.registry_ok_reachable [OF step.IH] .
  then have "program_inv env (sshConfig cs key) (gr_pool (fst s))" by (simp add: registry_ok_def)
  from reg_reachable_run [OF program_step_run [OF step.hyps(2) this] step.IH] show ?case .
qed

lemma program_reachable_ok:
  "program_reachable env pk se cs key same_type L s \<Longrightarrow> registry_ok (program_inv env (sshConfig cs key)) (fst s)"
  by (rule program.registry_ok_reachable [OF program_reachable_registry])

section \<open>A run of a demonstration\<close>

text \<open>A pinned host key; the program starts, a Gateway is reconciled and then a route.\<close>

definition demo_program_settings :: ctl_settings where
  "demo_program_settings =
     load_settings (\<lambda>_. None) (\<lambda>name. if name = ''SSH_HOST_KEY'' then Some ''k'' else None)"

abbreviation demo_program_libs ::
  "int option \<Rightarrow> ((SSHTunnelManager, trace) SSHSessionPool, nat) route_libs" where
  "demo_program_libs \<equiv> program_libs demo_pool_env (\<lambda>k. None) demo_program_settings ''key'' (demo_libs demo_pp_client)"

definition demo_program_start :: "(SSHTunnelManager, trace) SSHSessionPool GatewayReconciler" where
  "demo_program_start =
     (case main demo_pool_env (\<lambda>k. None) demo_startup demo_program_settings [] of
        Served r e \<Rightarrow> \<lparr>gr_pool = the (gr_pool r), gr_gateways = gr_gateways r\<rparr>)"

definition demo_program_next ::
  "reconcile_result \<times> (SSHTunnelManager, trace) SSHSessionPool GatewayReconciler \<times> nat" where
  "demo_program_next =
     (let L = demo_program_libs None
      in Reconcile (rl_pool L) (rl_url L) (rl_ssc L) (rl_settings L) (rl_client L) None ''ns'' ''gw'' demo_program_start 0)"

lemma demo_program_reachable:
  "program_reachable demo_pool_env (\<lambda>k. None) demo_startup demo_program_settings ''key'' True (demo_libs demo_pp_client)
     (snd demo_program_next)"
proof -
  have key: "se_ReadFile demo_startup (cs_keyPath demo_program_settings) = Inr ''key''"
    by (simp add: demo_startup_def demo_program_settings_def load_settings_def getEnvOrDefault_def)
  have "startup_ok (\<lambda>k. None) demo_startup demo_program_settings"
    using key by (simp add: startup_ok_def demo_startup_def)
  then obtain r e where m: "main demo_pool_env (\<lambda>k. None) demo_startup demo_program_settings [] = Served r e"
    using startup_ok_iff by metis
  then obtain p where p: "gr_pool r = Some p" by (auto simp: main_serves SetupWithManager_ok)
  have "program_reachable demo_pool_env (\<lambda>k. None) demo_startup demo_program_settings ''key'' True (demo_libs demo_pp_client)
      (\<lparr>gr_pool = p, gr_gateways = gr_gateways r\<rparr>, 0)"
    by (rule program_reachable.start [OF key m p])
  then have start: "program_reachable demo_pool_env (\<lambda>k. None) demo_startup demo_program_settings ''key'' True
      (demo_libs demo_pp_client) (demo_program_start, 0)"
    using m p by (simp add: demo_program_start_def)
  obtain res gr' w' where n: "demo_program_next = (res, gr', w')" by (metis prod_cases3)
  have "program_step demo_pool_env True demo_program_libs (demo_program_start, 0) (gr', w')"
    by (rule program_step.gateway [where now = None, OF refl]) (use n in \<open>simp add: demo_program_next_def Let_def\<close>)
  from program_reachable.step [OF start this] show ?thesis unfolding n by (simp only: snd_conv)
qed

end
