(* ===== verification/Setup_Interleaving.thy ===== *)
theory Setup_Interleaving
  imports Program_Runs
begin

text \<open>
  \<open>setupRouteForwarding\<close> against the rest of the program. \<open>gatewaysMu\<close> keeps the registry still
  while it runs, but not the pool: between any two of its calls another Reconcile may configure
  the sessions or reconnect them, and a keepalive may close a connection. Here each call on the
  pool is a step of its own, and any number of such changes may come between two steps.
\<close>

section \<open>The set-up, one call on the pool at a time\<close>

text \<open>Where the set-up stands: before which call on the pool, or at its end with its result.\<close>

datatype setup_phase = AtStop | AtCheck | AtConnect | AtRecheck | AtStart | AtEnd "go_error option"

type_synonym 'p setup_state = "setup_phase \<times> 'p \<times> Listener"

fun setup_own :: "'p sessionPool \<Rightarrow> Route \<Rightarrow> 'p setup_state \<Rightarrow> 'p setup_state" where
  "setup_own P route (AtStop, p, l) =
     (case l_route l of
        None \<Rightarrow> (AtCheck, p, l)
      | Some old \<Rightarrow>
          (let (err, p') = sp_StopForwarding P (l_SessionKind l) (stop_config l old) p
           in case err of
                None \<Rightarrow> (AtCheck, p', l)
              | Some e \<Rightarrow> (AtEnd (Some (Wrapf ''failed to stop forwarding'' e)), p', l)))"
| "setup_own P route (AtCheck, p, l) =
     (if sp_IsConnected P (l_SessionKind l) p then (AtStart, p, l) else (AtConnect, p, l))"
| "setup_own P route (AtConnect, p, l) = (AtRecheck, sp_Connect P p, l)"
| "setup_own P route (AtRecheck, p, l) =
     (if sp_IsConnected P (l_SessionKind l) p then (AtStart, p, l)
      else (AtEnd (Some (ErrGatewayNotReady ''SSH client not connected'')), p, l))"
| "setup_own P route (AtStart, p, l) =
     (let (err, p') = sp_StartForwarding P (l_SessionKind l) (start_config l route) p
      in case err of
           None \<Rightarrow> (AtEnd None, p', l\<lparr>l_route := Some route\<rparr>)
         | Some e \<Rightarrow> (let (e', l') = handleForwardingError e l route in (AtEnd e', p', l')))"
| "setup_own P route (AtEnd e, p, l) = (AtEnd e, p, l)"

fun setup_left :: "setup_phase \<Rightarrow> nat" where
  "setup_left AtStop = 5" | "setup_left AtCheck = 4" | "setup_left AtConnect = 3"
| "setup_left AtRecheck = 2" | "setup_left AtStart = 1" | "setup_left (AtEnd e) = 0"

text \<open>Each call brings the set-up closer to its end, whatever the pool is by then.\<close>

lemma setup_own_left: "setup_left (fst s) \<noteq> 0 \<Longrightarrow> setup_left (fst (setup_own P route s)) < setup_left (fst s)"
  by (induction P route s rule: setup_own.induct) (auto simp: Let_def split: option.splits prod.splits)

text \<open>Undisturbed, its five calls are \<open>setupRouteForwarding\<close>.\<close>

lemma start_route_steps:
  "start_route P p l route = (e, p', l') \<Longrightarrow> (setup_own P route ^^ 4) (AtCheck, p, l) = (AtEnd e, p', l')"
  by (auto simp: start_route_def eval_nat_numeral Let_def split: if_splits option.splits prod.splits)

lemma setup_alone:
  assumes "setupRouteForwarding P p l n ns h port = (e, p', l')"
  shows "(setup_own P \<lparr>r_Name = n, r_Namespace = ns, r_Host = h, r_Port = port\<rparr> ^^ 5) (AtStop, p, l) = (AtEnd e, p', l')"
    (is "(?own ^^ 5) _ = _")
proof -
  have five: "(?own ^^ 5) s = (?own ^^ 4) (?own s)" for s
    using funpow_Suc_right [of 4 ?own] by (simp add: eval_nat_numeral)
  have ended: "(?own ^^ k) (AtEnd e, p, l) = (AtEnd e, p, l)" for k e p l
    by (induction k) simp_all
  have here: "(?own ^^ 4) (AtCheck, p1, l) = (AtEnd e, p', l')"
    if "start_route P p1 l \<lparr>r_Name = n, r_Namespace = ns, r_Host = h, r_Port = port\<rparr> = (e, p', l')" for p1
    using that by (rule start_route_steps)
  show ?thesis
    unfolding five using assms here ended
    by (auto simp: setupRouteForwarding_split Let_def split: option.splits prod.splits)
qed

section \<open>What comes in between\<close>

text \<open>The changes of the pool that do not hold \<open>gatewaysMu\<close>: a configuration by another
  Reconcile, a reconnect, and the events of the tunnels.\<close>

inductive pool_change ::
  "ssh_env \<Rightarrow> (string \<Rightarrow> go_error option) \<Rightarrow> SSHConnectionConfig \<Rightarrow>
     (SSHTunnelManager, trace) SSHSessionPool \<Rightarrow> (SSHTunnelManager, trace) SSHSessionPool \<Rightarrow> bool"
  for env pk base where
  configure: "ConfigureSessions (tunnel_manager env) (tunnel_factory pk base) v sni p = (e, p') \<Longrightarrow>
     pool_change env pk base p p'"
| connect: "pool_change env pk base p (pool_Connect (tunnel_manager env) p)"
| event: "tunnel_event env p p' \<Longrightarrow> pool_change env pk base p p'"

inductive setup_step :: "'p sessionPool \<Rightarrow> ('p \<Rightarrow> 'p \<Rightarrow> bool) \<Rightarrow> Route \<Rightarrow> 'p setup_state \<Rightarrow> 'p setup_state \<Rightarrow> bool"
  for P change route where
  own: "setup_step P change route s (setup_own P route s)"
| other: "change p p' \<Longrightarrow> setup_step P change route (ph, p, l) (ph, p', l)"

abbreviation setup_run :: "'p sessionPool \<Rightarrow> ('p \<Rightarrow> 'p \<Rightarrow> bool) \<Rightarrow> Route \<Rightarrow> 'p setup_state \<Rightarrow> 'p setup_state \<Rightarrow> bool" where
  "setup_run P change route \<equiv> (setup_step P change route)\<^sup>*\<^sup>*"

text \<open>Such a change keeps the invariant and makes no forwarding; it can only lose some.\<close>

definition only_loses :: "('k \<Rightarrow> 'b \<Rightarrow> 'c option) \<Rightarrow> ('k \<Rightarrow> 'b \<Rightarrow> 'c option) \<Rightarrow> bool" where
  "only_loses act act' \<longleftrightarrow> (\<forall>kind key. act' kind key = None \<or> act' kind key = act kind key)"

lemma only_loses_refl [simp]: "only_loses act act"
  by (simp add: only_loses_def)

lemma only_loses_trans: "only_loses act act' \<Longrightarrow> only_loses act' act'' \<Longrightarrow> only_loses act act''"
  unfolding only_loses_def by metis

lemma only_loses_without [simp]: "only_loses act (without act ks)"
  by (simp add: only_loses_def without_def)

context session_pool_provider
begin

lemma ConfigureSessions_only_loses:
  assumes "pool_inv minv p" "ConfigureSessions M factory v sni p = (e, p')"
  shows "only_loses (pool_active active p) (pool_active active p')"
  using assms(2)
proof (rule ConfigureSessions_split)
  fix e1 p1
  assume r: "reconcileKind M factory SessionProxyProto (v > 0) \<lparr>ProxyProtocolVersion = v, SNIProxy = False\<rparr> p = (e1, p1)"
    and stop: "e1 \<noteq> None \<Longrightarrow> e = e1 \<and> p' = p1"
    and go_on: "e1 = None \<Longrightarrow> reconcileKind M factory SessionSNIProxy sni \<lparr>ProxyProtocolVersion = 0, SNIProxy = True\<rparr> p1 = (e, p')"
  have one: "only_loses (pool_active active q) (pool_active active q')"
    if "pool_inv minv q" "reconcileKind M factory kind want desired q = (err, q')" for kind want desired q err q'
    using reconcileKind_state [OF that] by (simp add: only_loses_def)
  have i1: "pool_inv minv p1" using reconcileKind_state [OF assms(1) r] by blast
  show ?thesis
  proof (cases e1)
    case None
    from only_loses_trans [OF one [OF assms(1) r] one [OF i1 go_on [OF None]]] show ?thesis .
  next
    case (Some err)
    with stop one [OF assms(1) r] show ?thesis by simp
  qed
qed

end

lemma tunnel_event_only_loses:
  "tunnel_event env p p' \<Longrightarrow> tunnel_pool_inv p \<Longrightarrow>
     tunnel_pool_inv p' \<and> only_loses (tunnel_pool_active p) (tunnel_pool_active p')"
proof (induction rule: tunnel_event.induct)
  case (background p kind m op m' tr')
  have "TM_inv m" using background(1,4) by (rule pool_invD [rotated])
  from mgr_step_inv [OF background(2) this] have "TM_inv m'" .
  moreover have "m_forwardings m' = [] \<or> m_forwardings m' = m_forwardings m"
    using background(2) by (rule mgr_stepE)
      (use background(3) in \<open>auto simp: monitor_defs closeClient_def split: if_splits send_outcome.splits\<close>)
  ultimately show ?case
    using background(1,4) by (auto simp: pool_inv_def only_loses_def pool_active_def tm_active_def)
next
  case (orphan p kind m addr port)
  then show ?case by (simp add: pool_inv_def pool_active_def only_loses_def)
qed

lemma pool_change_only_loses:
  assumes "pool_change env pk base p p'" "tunnel_pool_inv p"
  shows "tunnel_pool_inv p' \<and> only_loses (tunnel_pool_active p) (tunnel_pool_active p')"
  using assms(1)
proof cases
  case (configure v sni e)
  then show ?thesis
    using tunnels.ConfigureSessions_inv [OF assms(2)] tunnels.ConfigureSessions_only_loses [OF assms(2)] by blast
next
  case connect
  then show ?thesis using tunnels.pool_connect_state [OF assms(2)] by simp
next
  case event
  then show ?thesis by (rule tunnel_event_only_loses [OF _ assms(2)])
qed

section \<open>The set-up under interference\<close>

text \<open>
  Until its end the set-up has not touched the listener, and the pool has at most the forwardings
  of the beginning; once the stop is behind it, those of the listener only when there was nothing to stop.
\<close>

definition setup_ok ::
  "('p \<Rightarrow> bool) \<Rightarrow> ('p \<Rightarrow> SessionKind \<Rightarrow> string \<Rightarrow> ForwardingConfig option) \<Rightarrow> 'p \<Rightarrow> Listener \<Rightarrow> 'p setup_state \<Rightarrow> bool" where
  "setup_ok pinv act p0 l s \<longleftrightarrow>
     (case s of (ph, p, l') \<Rightarrow> pinv p \<and> ((\<forall>e. ph \<noteq> AtEnd e) \<longrightarrow>
        l' = l \<and> only_loses (if ph = AtStop \<or> l_route l = None then act p0
                           else without (act p0) {(l_SessionKind l, listener_key l)}) (act p)))"

lemma only_loses_without_both: "only_loses act act' \<Longrightarrow> only_loses (without act ks) (without act' ks)"
  by (simp add: only_loses_def without_def)

context session_pool
begin

lemma setup_own_ok:
  assumes "setup_ok inv active p0 l s"
  shows "setup_ok inv active p0 l (setup_own P route s)"
proof (cases "(P, route, s)" rule: setup_own.cases)
  case (1 P' route' p l')
  then have s: "s = (AtStop, p, l')" and i: "inv p" and l: "l' = l" "only_loses (active p0) (active p)"
    using assms by (auto simp: setup_ok_def)
  show ?thesis
  proof (cases "l_route l")
    case None
    with s i l show ?thesis by (simp add: setup_ok_def)
  next
    case (Some old)
    obtain e p' where st: "sp_StopForwarding P (l_SessionKind l) (stop_config l old) p = (e, p')" by (metis prod.collapse)
    from stop_without [OF i st] have "inv p'" "active p' = without (active p) {(l_SessionKind l, listener_key l)}" by simp_all
    with Some s l st only_loses_without_both [OF l(2)] show ?thesis
      by (auto simp: setup_ok_def split: option.splits)
  qed
next
  case (3 P' route' p l')
  with assms connect_inv connect_active show ?thesis by (simp add: setup_ok_def)
next
  case (5 P' route' p l')
  then have s: "s = (AtStart, p, l')" and i: "inv p" using assms by (auto simp: setup_ok_def)
  obtain e p' where st: "sp_StartForwarding P (l_SessionKind l') (start_config l' route) p = (e, p')" by (metis prod.collapse)
  from start_inv [OF i st] s st show ?thesis
    by (auto simp: setup_ok_def split: option.splits prod.splits)
qed (use assms in \<open>auto simp: setup_ok_def\<close>)

lemma setup_run_ok:
  assumes change: "\<And>p p'. change p p' \<Longrightarrow> inv p \<Longrightarrow> inv p' \<and> only_loses (active p) (active p')"
    and run: "setup_run P change route (AtStop, p0, l) s" and i: "inv p0"
  shows "setup_ok inv active p0 l s"
  using run
proof (induction rule: rtranclp_induct)
  case base
  with i show ?case by (simp add: setup_ok_def)
next
  case (step s s')
  from step(2,3) show ?case
  proof (induction rule: setup_step.induct)
    case (own s)
    then show ?case by (rule setup_own_ok)
  next
    case (other p p' ph l')
    then have "inv p' \<and> only_loses (active p) (active p')" using change by (auto simp: setup_ok_def)
    with other(2) only_loses_trans show ?case by (fastforce simp: setup_ok_def)
  qed
qed

text \<open>The last step of the set-up.\<close>

lemma setup_end:
  assumes ok: "setup_ok inv active p0 l (ph, p, l1)" and ph: "\<forall>e. ph \<noteq> AtEnd e"
    and r: "setup_own P route (ph, p, l1) = (AtEnd e, p', l')"
  shows "inv p' \<and>
    (\<forall>kind key. (kind, key) \<noteq> (l_SessionKind l, listener_key l) \<longrightarrow>
       active p' kind key = None \<or> active p' kind key = active p0 kind key) \<and>
    (if e = None
     then l' = l\<lparr>l_route := Some route\<rparr> \<and>
       (active p' (l_SessionKind l) (listener_key l) = Some (start_config l route) \<or>
        l_route l = None \<and> active p0 (l_SessionKind l) (listener_key l) \<noteq> None \<and>
        active p' (l_SessionKind l) (listener_key l) = active p0 (l_SessionKind l) (listener_key l))
     else l' = l \<and>
       (active p' (l_SessionKind l) (listener_key l) = None \<or>
        l_route l = None \<and> active p' (l_SessionKind l) (listener_key l) = active p0 (l_SessionKind l) (listener_key l)))"
proof -
  let ?own = "(l_SessionKind l, listener_key l)"
  have i: "inv p" and l1: "l1 = l" and less: "only_loses (if ph = AtStop \<or> l_route l = None then active p0
      else without (active p0) {?own}) (active p)"
    using ok ph by (auto simp: setup_ok_def)
  have others: "(kind, key) \<noteq> ?own \<Longrightarrow> active p kind key = None \<or> active p kind key = active p0 kind key" for kind key
    using less by (auto simp: only_loses_def without_def split: if_splits)
  have mine: "active p (l_SessionKind l) (listener_key l) = None \<or>
      l_route l = None \<and> active p (l_SessionKind l) (listener_key l) = active p0 (l_SessionKind l) (listener_key l)"
    if "ph \<noteq> AtStop"
    using less that by (auto simp: only_loses_def without_def split: if_splits)
  consider (stop) old err where "ph = AtStop" "l_route l = Some old"
      "sp_StopForwarding P (l_SessionKind l) (stop_config l old) p = (Some err, p')" "e \<noteq> None" "l' = l"
    | (recheck) "ph = AtRecheck" "e \<noteq> None" "p' = p" "l' = l"
    | (start) "ph = AtStart" "sp_IsConnected P (l_SessionKind l) p"  "start_route P p l route = (e, p', l')"
    | (lost) "ph = AtStart" "\<not> sp_IsConnected P (l_SessionKind l) p" "e \<noteq> None" "p' = p" "l' = l"
  proof (cases ph)
    case AtStop
    note r' = r [unfolded AtStop l1]
    from r' obtain old where old: "l_route l = Some old" by (cases "l_route l") simp_all
    obtain se q where st: "sp_StopForwarding P (l_SessionKind l) (stop_config l old) p = (se, q)" by (metis prod.collapse)
    from r' old st obtain err where err: "se = Some err" by (cases se) simp_all
    from r' old st err have "p' = q" "e \<noteq> None" "l' = l" by auto
    with AtStop old st err stop [of old err] show thesis by simp
  next
    case AtRecheck
    from r [unfolded AtRecheck l1] have "p' = p" "e \<noteq> None" "l' = l" by (auto split: if_splits)
    with AtRecheck recheck show thesis by simp
  next
    case AtStart
    show thesis
    proof (cases "sp_IsConnected P (l_SessionKind l) p")
      case True
      obtain se q where st: "sp_StartForwarding P (l_SessionKind l) (start_config l route) p = (se, q)" by (metis prod.collapse)
      from r [unfolded AtStart l1] st True have "start_route P p l route = (e, p', l')"
        by (cases se) (auto simp: start_route_def Let_def split: prod.splits)
      with AtStart True start show thesis by simp
    next
      case False
      then obtain err where err: "sp_StartForwarding P (l_SessionKind l) (start_config l route) p = (Some err, p)"
        using start_offline by blast
      have "\<not> errors_As is_ForwardingExists err"
        using start_exists_only [OF i err] by (auto simp: offline_empty [OF i False])
      with r [unfolded AtStart l1] err have "p' = p" "e \<noteq> None" "l' = l"
        by (auto simp: handleForwardingError_def split: if_splits)
      with AtStart False lost show thesis by simp
    qed
  next
    case AtCheck
    with r show thesis by (simp split: if_splits)
  next
    case AtConnect
    with r show thesis by simp
  next
    case (AtEnd x)
    with ph show thesis by simp
  qed
  then show ?thesis
  proof cases
    case stop
    from stop_without [OF i stop(3)] others stop(4,5) show ?thesis by (auto simp: without_def)
  next
    case recheck
    with i others mine show ?thesis by auto
  next
    case start
    note m = mine [unfolded start(1), simplified]
    from i start(3) show ?thesis
      by (cases rule: start_route_cases) (use others m in auto)
  next
    case lost
    with i others mine show ?thesis by auto
  qed
qed

end

section \<open>Properties\<close>

text \<open>The session of a listener is lost between the check and the start.\<close>

definition demo_broken :: "(SSHTunnelManager, trace) SSHSessionPool" where
  "demo_broken = (case mget (p_managers demo_pool) SessionPlain of
     Some m \<Rightarrow> (case monitorResult SendTimedOut m (p_world demo_pool) of
       (b, m', tr') \<Rightarrow> demo_pool\<lparr>p_managers := mput SessionPlain m' (p_managers demo_pool), p_world := tr'\<rparr>))"

lemma demo_broken_event: "tunnel_event demo_pool_env demo_pool demo_broken"
proof -
  have "mget (p_managers demo_pool) SessionPlain \<noteq> None" by code_simp
  then obtain m where m: "mget (p_managers demo_pool) SessionPlain = Some m" by blast
  obtain b m' tr' where r: "monitorResult SendTimedOut m (p_world demo_pool) = (b, m', tr')" by (metis prod_cases3)
  show ?thesis
    using tunnel_event.background [OF m mgr_step.answer [OF r]] by (simp add: demo_broken_def m r)
qed

lemma demo_setup_run:
  "setup_run demo_pool_ops (pool_change demo_pool_env (\<lambda>k. None) demo_pool_config) demo_route_r
     (AtStop, demo_pool, demo_web) (AtStart, demo_broken, demo_web)"
proof -
  have c: "setup_own demo_pool_ops demo_route_r (AtStop, demo_pool, demo_web) = (AtCheck, demo_pool, demo_web)"
    by (simp add: demo_web_def)
  have "sp_IsConnected demo_pool_ops (l_SessionKind demo_web) demo_pool" by code_simp
  then have d: "setup_own demo_pool_ops demo_route_r (AtCheck, demo_pool, demo_web) = (AtStart, demo_pool, demo_web)" by simp
  let ?change = "pool_change demo_pool_env (\<lambda>k. None) demo_pool_config"
  note own = setup_step.own [of demo_pool_ops ?change demo_route_r]
  have one: "setup_step demo_pool_ops ?change demo_route_r (AtStop, demo_pool, demo_web) (AtCheck, demo_pool, demo_web)"
    using own [of "(AtStop, demo_pool, demo_web)"] unfolding c .
  have two: "setup_step demo_pool_ops ?change demo_route_r (AtCheck, demo_pool, demo_web) (AtStart, demo_pool, demo_web)"
    using own [of "(AtCheck, demo_pool, demo_web)"] unfolding d .
  have three: "setup_step demo_pool_ops ?change demo_route_r (AtStart, demo_pool, demo_web) (AtStart, demo_broken, demo_web)"
    by (rule setup_step.other, rule pool_change.event, rule demo_broken_event)
  from one two three show ?thesis by (meson converse_rtranclp_into_rtranclp rtranclp.rtrancl_refl)
qed

text \<open>
  C4. Setting up a forwarding is safe under interference. Between any two of its calls on the pool
  the sessions may be configured anew, reconnect or lose their connection, any number of times. If
  it then ends with success, the listener carries the route and the pool holds, right after the last call,
  the forwarding asked for under the listener's kind, hostname and port, or, when the listener
  had no route, one that was there from the start. If it ends with an error the listener is
  unchanged and no forwarding is held there, unless the listener had no route and it was there
  from the start. Every other forwarding is as at the start or was lost; none appears.
\<close>

theorem setup_interleaved_safe:
  assumes "tunnel_pool_inv p0"
    and "setup_run (tunnel_pool_ops env pk base) (pool_change env pk base) route (AtStop, p0, l) (ph, p, l1)"
    and "\<forall>e. ph \<noteq> AtEnd e" and "setup_own (tunnel_pool_ops env pk base) route (ph, p, l1) = (AtEnd e, p', l')"
  shows "tunnel_pool_inv p' \<and>
    (\<forall>kind key. (kind, key) \<noteq> (l_SessionKind l, forwardingKey (l_Hostname l) (l_Port l)) \<longrightarrow>
       tunnel_pool_active p' kind key = None \<or> tunnel_pool_active p' kind key = tunnel_pool_active p0 kind key) \<and>
    (if e = None
     then l' = l\<lparr>l_route := Some route\<rparr> \<and>
       (tunnel_pool_active p' (l_SessionKind l) (forwardingKey (l_Hostname l) (l_Port l)) = Some (start_config l route) \<or>
        l_route l = None \<and> tunnel_pool_active p0 (l_SessionKind l) (forwardingKey (l_Hostname l) (l_Port l)) \<noteq> None \<and>
        tunnel_pool_active p' (l_SessionKind l) (forwardingKey (l_Hostname l) (l_Port l)) =
          tunnel_pool_active p0 (l_SessionKind l) (forwardingKey (l_Hostname l) (l_Port l)))
     else l' = l \<and>
       (tunnel_pool_active p' (l_SessionKind l) (forwardingKey (l_Hostname l) (l_Port l)) = None \<or>
        l_route l = None \<and> tunnel_pool_active p' (l_SessionKind l) (forwardingKey (l_Hostname l) (l_Port l)) =
          tunnel_pool_active p0 (l_SessionKind l) (forwardingKey (l_Hostname l) (l_Port l))))"
  by (rule tunnels.spp.setup_end [OF tunnels.spp.setup_run_ok [OF pool_change_only_loses assms(2,1)] assms(3,4)])

theorem setup_interleaved_safe_witness:
  "setup_own demo_pool_ops demo_route_r (AtStart, demo_broken, demo_web) =
     (AtEnd (Some (ErrGatewayNotReady (ErrorText ErrSSHClientNotReady))), demo_broken, demo_web) \<and>
   tunnel_pool_active demo_broken SessionPlain (forwardingKey ''h'' 8) = None"
proof -
  have none: "tunnel_pool_active demo_pool SessionPlain (forwardingKey ''h'' 8) = None" by code_simp
  have "sp_IsConnected demo_pool_ops SessionPlain demo_broken = False" by code_simp
  obtain se q where st: "sp_StartForwarding demo_pool_ops SessionPlain (start_config demo_web demo_route_r) demo_broken = (se, q)"
    by (metis prod.collapse)
  have "fst (sp_StartForwarding demo_pool_ops SessionPlain (start_config demo_web demo_route_r) demo_broken)
      = Some ErrSSHClientNotReady" by code_simp
  moreover have "\<exists>err. sp_StartForwarding demo_pool_ops SessionPlain (start_config demo_web demo_route_r) demo_broken
      = (Some err, demo_broken)"
    by (rule tunnels.spp.start_offline) (use \<open>sp_IsConnected demo_pool_ops SessionPlain demo_broken = False\<close> in blast)
  ultimately have "sp_StartForwarding demo_pool_ops SessionPlain (start_config demo_web demo_route_r) demo_broken
      = (Some ErrSSHClientNotReady, demo_broken)" by (metis fst_conv)
  then have r: "setup_own demo_pool_ops demo_route_r (AtStart, demo_broken, demo_web) =
     (AtEnd (Some (ErrGatewayNotReady (ErrorText ErrSSHClientNotReady))), demo_broken, demo_web)"
    by (simp add: demo_web_def handleForwardingError_def)
  have "demo_web = demo_web \<and> (tunnel_pool_active demo_broken SessionPlain (forwardingKey ''h'' 8) = None)"
    using setup_interleaved_safe [OF demo_pool_inv(1) demo_setup_run _ r] none by (simp add: demo_web_def)
  with r show ?thesis by simp
qed

end
