(* ===== verification/Spec2Isabelle.thy ===== *)
theory Spec2Isabelle
  imports Registry_Progress Server_Output Remote_Address Setup_Interleaving
begin

text \<open>
  A verification development for the SSH gateway controller (\<open>k8s-ssh-gateway-controller\<close>), a
  Kubernetes controller of the Gateway API that serves Gateways through reverse tunnels of an
  SSH server such as sish.

  \<^bold>\<open>The program.\<close> \<open>ssh/\<close> holds the tunnels. One \<open>SSHTunnelManager\<close> owns one SSH connection: it
  connects, watches the connection with keepalives, asks the server for forwardings, learns
  from the output of the server which addresses were assigned, and carries the channels the
  server opens to the backends. \<open>SSHSessionPool\<close> owns up to three managers, one per kind of
  session (plain, PROXY protocol, SNI). \<open>controllers/\<close> holds the reconcilers. \<open>GatewayReconciler\<close>
  owns the pool and a registry of Gateways, their listeners, and the route attached to each
  listener; its \<open>SetRoute\<close> and \<open>RemoveRoute\<close> are called by the reconcilers of HTTPRoute, TCPRoute
  and TLSRoute and start and stop forwardings in the pool. Everything else the reconcilers do is
  reading and writing objects of the Kubernetes API: finalizers, and the status of Gateways
  and routes.

  \<^bold>\<open>Theories and sources.\<close>

  \<^item> \<open>Prelude\<close>: Go maps as association lists with distinct keys (\<open>gomap\<close>; the iteration order of a
    map is the order of the list, and theorems hold for every order), separators in strings.
  \<^item> \<open>Go_Strings\<close>, \<open>Go_Regexp\<close>, \<open>Go_Url\<close>: the parts of Go's standard library the code uses:
    \<open>strings\<close>, \<open>strconv\<close>, \<open>net.JoinHostPort\<close>; the fragment of regular expressions in \<open>controllers/common.go\<close>
    (literals and repeated character classes, with groups), leftmost first and greedy; and \<open>url.Parse\<close> on
    the URIs the manager reports.
  \<^item> \<open>Go_Errors\<close>: the error types of \<open>ssh/ssh_errors.go\<close> and \<open>controllers/errors.go\<close> with \<open>errors.As\<close>.
  \<^item> \<open>Ssh_Types\<close>, \<open>Host_Match\<close>, \<open>Dial_Errors\<close>, \<open>Tunnel_Manager\<close>, \<open>Tunnel_Runs\<close>, \<open>Channel_Handling\<close>,
    \<open>Server_Output\<close>: \<open>ssh/ssh_tunnel_manager.go\<close>, in this order: configurations and keys; the comparison of
    assigned addresses; the log of failed dials; the methods of the manager; its runs as a step
    relation; the channels the server opens; the capture of the server's output.
  \<^item> \<open>Session_Manager\<close> (the interface \<open>sessionManager\<close> as a locale), \<open>Session_Pool\<close>: \<open>ssh/ssh_session_pool.go\<close>.
  \<^item> \<open>K8s_Types\<close>: the fields of the API objects that the code reads, and the API client as a record
    of its calls.
  \<^item> \<open>Ctl_Common\<close>, \<open>Remote_Address\<close>: \<open>controllers/common.go\<close>: settings, finalizer names, annotations,
    listeners, route details; and the addresses in the output of the server.
  \<^item> \<open>Pool_Interface\<close> (the interface \<open>SSHSessionPoolInterface\<close> as a locale), \<open>Gateway_Status\<close>,
    \<open>Gateway_Registry\<close>, \<open>Registry_Runs\<close>, \<open>Registry_Progress\<close>, \<open>Gateway_Controller\<close>:
    \<open>controllers/gateway_controller.go\<close>: status, registry operations, their runs, what makes progress, and the
    two \<open>Reconcile\<close> methods.
  \<^item> \<open>Route_Status\<close>, \<open>Route_Controller\<close>: \<open>controllers/route_status.go\<close> and the three route reconcilers,
    which are the same text up to what the record \<open>route_kind\<close> holds.
  \<^item> \<open>Startup\<close>: \<open>main.go\<close>, \<open>SetupWithManager\<close> and \<open>createSSHSessionPool\<close>.
  \<^item> \<open>Program_Runs\<close>: the program as one state machine over all of these, and every reconciler as a run
    of the registry's operations.
  \<^item> \<open>Setup_Interleaving\<close>: \<open>setupRouteForwarding\<close> once more, with each call on the pool a step.

  Definitions keep the names of the source; a prefix (\<open>m_\<close>, \<open>p_\<close>, \<open>gr_\<close>, \<open>l_\<close>, \<open>r_\<close>) marks the fields of a
  record, \<open>pool_\<close> the methods of the pool.

  \<^bold>\<open>State and concurrency.\<close> State is passed explicitly. Every method of the manager holds
  \<open>clientMu\<close>, so a call is one step. Every handler of the registry holds \<open>gatewaysMu\<close>; \<open>SetRoute\<close> and
  \<open>RemoveRoute\<close> release their locks only for the status update that ends them. So a handler is one
  step of the registry; but the pool has no such lock, and while a handler runs another Reconcile
  may configure or reconnect the sessions and a keepalive may close one. For \<open>setupRouteForwarding\<close>,
  whose calls on the pool depend on each other, \<open>setup_own\<close> takes each call as a step and \<open>setup_step\<close> lets such changes (\<open>pool_change\<close>) come between them; undisturbed it is the one step
  (\<open>setup_alone\<close>). A call of the pool looks up its manager before it calls it; when the session is
  closed just then, the manager answers that it is not ready where the model says that the session is
  not enabled. What else runs without a lock
  is split into its critical sections: the keepalive into its check and the reaction to the
  answer (with answers that arrive late, \<open>OpKeepaliveAnswer\<close>), the notification of a waiting
  forwarding into the copy of the channels and one send per channel (\<open>notify_step\<close>), the set-up
  of a capture against reconnects (\<open>ready_reachable\<close>), and the goroutines of a channel into
  their copies, the ends of these, and each close (\<open>proxy_step\<close>). \<open>mgr_reachable\<close> and \<open>reg_reachable\<close> are the states after any sequence of
  operations; what other parts do to the pool between two handlers (reconnects, lost connections)
  is the step \<open>outside\<close> of the registry. \<open>program_reachable\<close> starts at \<open>main\<close> and has whole calls of the
  reconcilers as steps; \<open>program_step_run\<close> splits each into steps of the registry, whose runs may
  interleave the pieces of several calls in any order, and \<open>program_reachable_registry\<close> concludes that
  the invariants of the registry hold in the program.

  \<^bold>\<open>Parameters.\<close> What is not in the repository is an argument. \<open>ssh_env\<close> is the SSH server and its
  library: its answers to dialling, to requests and to keepalives, and the URIs it reports, may
  depend on everything sent before (\<open>trace\<close>). \<open>api_client\<close> is the Kubernetes API over an arbitrary
  world. Others are \<open>SetStatusCondition\<close> (with its documented behaviour as the hypothesis
  \<open>set_condition_doc\<close>), \<open>RetryOnConflict\<close>, \<open>time.ParseDuration\<close>, \<open>url.Parse\<close> outside the modelled URIs,
  \<open>ssh.ParsePrivateKey\<close>, \<open>os.ReadFile\<close>, and the results of the controller builders. The theorems hold
  for all of them; every property with a hypothesis has a witness on concrete ones.

  \<^bold>\<open>Contracts.\<close> \<open>session_manager\<close> says what the pool relies on in a manager: an invariant kept by
  every operation, the forwardings held as an abstract map, and what each operation does to it.
  \<open>Tunnel_Manager\<close> proves it of the tunnel manager (\<open>tm\<close>), and the sublocale of \<open>session_pool_provider\<close> gives, from
  it, the contract \<open>session_pool\<close> on which the registry rests. The contracts are interpreted three times on the
  real tunnel manager, with stronger and stronger invariants: \<open>tunnels\<close>, \<open>configured\<close> (every manager
  keeps its configuration) and \<open>program\<close> (and the plain session is always there).

  \<^bold>\<open>What is shown.\<close>

  \<^item> Tunnels: the invariant of the manager over all runs, its refinement to an abstract session
    (online or not, and the forwardings held), the exact effect of starting, stopping and shutting
    down on state and wire, the release of what a failed start obtained, the pinned host key,
    and that held forwardings were verified.
  \<^item> Output of the server: the extraction finds exactly the addresses in the seven texts of sish
    (\<open>announcement\<close>), what is announced passes the verification, readers end when they should, and notifications reach only the
    forwarding being started.
  \<^item> Channels: only registered forwardings are served, no half-closed connection lingers, and (as the lemma
    \<open>proxied_bytes\<close>) bytes arrive in order. The log of failed dials warns at most once per cooldown between
    successes, and accounts for every failure.
  \<^item> Pool: configuring is exact and idempotent, and kinds are isolated.
  \<^item> Registry: \<open>SetRoute\<close> serves what it promises, touches one listener and one forwarding, succeeds when
    nothing blocks it, and is safe when the pool changes under it; an attached route is reachable through
    to its backend, or to that of a forwarding held before; \<open>RemoveRoute\<close>, updating and
    deleting a Gateway release exactly what they should; rejected listeners stay empty.
  \<^item> Reconcilers and status: order of finalizers and releases, which sessions are opened, published
    addresses and listener conditions, when a status is written, and what a conflict leaves.
  \<^item> Start-up and the program: what coming up depends on, that it establishes the state from which all
    runs begin, and that the invariants hold in every state the program reaches from \<open>main\<close>.

  \<^bold>\<open>Bounds and loops.\<close> Loops over lists and maps are structural. The reader of the server's output
  may run for ever: it is a \<open>partial_function\<close>, and \<open>reader_terminates\<close> says when it returns. No fuel is
  used. Ports are 32-bit words on the wire (\<open>forwardedTCPPayload\<close>); elsewhere they are integers as Go's
  \<open>int\<close> is, and the manager refuses those outside 0 to 65535 before they reach the wire.

  \<^bold>\<open>What modelling showed.\<close> Lemmas that are not properties record weaknesses: a connection that
  comes back has lost its forwardings, so an attached route that changed meanwhile can neither
  be replaced nor removed (\<open>lost_forwarding_blocks_listener\<close>, \<open>reconnect_forgets_forwardings\<close>); listeners with the same
  kind, hostname and port share one forwarding (\<open>shared_forwarding\<close>); a tcp address with a longer host or port
  passes the comparison (\<open>specific_tcp_match_is_substring\<close>); a notifier may send on a closed channel
  (\<open>notify_panic_reachable\<close>); two captures may close one channel (\<open>overtaken_capture_panics\<close>); an announcement cut by
  the end of a read is lost (\<open>split_announcement_lost\<close>).

  \<^bold>\<open>Not modelled.\<close> \<open>controllers/scheme.go\<close> calls only the registration functions of the API packages;
  \<open>ssh/fakes.go\<close> and \<open>ssh/testing.go\<close> are doubles for the tests. Within the modelled files: logging,
  the wait for the transport whose result is only logged, event filters and watches, which belong to
  controller-runtime, and the times at which things happen, except in the log of failed dials.
\<close>

section \<open>The program as a whole\<close>

text \<open>
  C3. The program is safe. In every reachable state no listener that its annotations rejected has
  a route; the plain session exists; every session uses the server, user and host key of the
  settings, and while it is connected with a pinned host key the server has that key (for a dial
  function that consults the callback); and every forwarding that is held is filed under its
  own host and port, the port fits the wire, and if it asked for a specific host or an enforced
  port, its assigned addresses match.
\<close>

theorem program_safe:
  assumes "program_reachable env pk se cs key same_type L (gr, w)"
  shows "(\<forall>k gw n l. mget (gr_gateways gr) k = Some gw \<and> mget gw n = Some l \<and> l_Rejected l \<longrightarrow> l_route l = None) \<and>
    mget (p_managers (gr_pool gr)) SessionPlain \<noteq> None \<and>
    (\<forall>kind m. mget (p_managers (gr_pool gr)) kind = Some m \<longrightarrow>
       m_sshServerAddress m = cs_sshServer cs \<and> m_sshUser m = cs_sshUsername cs \<and> m_hostKey m = cs_sshHostKey cs \<and>
       (\<forall>fingerprint. consults_callback env fingerprint \<and> m_connected m \<and> cs_sshHostKey cs \<noteq> [] \<longrightarrow>
          fingerprint = cs_sshHostKey cs) \<and>
       (\<forall>k f. mget (m_forwardings m) k = Some f \<longrightarrow>
          k = forwardingKey (RemoteHost f) (RemotePort f) \<and> 0 \<le> RemotePort f \<and> RemotePort f \<le> 65535 \<and>
          (needs_verification f \<longrightarrow>
             MatchesRequestedHost (GetAssignedAddresses (RemoteHost f) (RemotePort f) m)
               (RemoteHost f) (RemotePort f) (EnforcePort f))))"
proof -
  have ok: "registry_ok (program_inv env (sshConfig cs key)) gr"
    using program_reachable_ok [OF assms] by simp
  then have pool: "program_inv env (sshConfig cs key) (gr_pool gr)" by (simp add: registry_ok_def)
  have m: "TM_configured env (sshConfig cs key) m" if "mget (p_managers (gr_pool gr)) kind = Some m" for kind m
    using pool that by (auto simp: program_inv_def pool_inv_def)
  show ?thesis
    using ok pool configured_manager [OF m]
    by (intro conjI allI impI) (auto simp: registry_ok_def gateway_ok_def listener_ok_def program_inv_def)
qed

theorem program_safe_witness:
  "\<exists>m. mget (p_managers (gr_pool (fst (snd demo_program_next)))) SessionPlain = Some m \<and> m_connected m \<and>
     m_hostKey m = ''k'' \<and> map fst (gr_gateways (fst (snd demo_program_next))) = [''ns/gw'']"
proof -
  have r: "program_reachable demo_pool_env (\<lambda>k. None) demo_startup demo_program_settings ''key'' True (demo_libs demo_pp_client)
      (fst (snd demo_program_next), snd (snd demo_program_next))"
    using demo_program_reachable by simp
  have k: "cs_sshHostKey demo_program_settings = ''k''"
    by (simp add: demo_program_settings_def load_settings_def getEnvOrDefault_def)
  have c: "map_option m_connected (mget (p_managers (gr_pool (fst (snd demo_program_next)))) SessionPlain) = Some True"
    and g: "map fst (gr_gateways (fst (snd demo_program_next))) = [''ns/gw'']" by code_simp+
  from program_safe [OF r] k c g show ?thesis by auto
qed

end
